(* ===== verification/Prelude_AGT.thy ===== *)
theory Prelude_AGT
  imports Main "HOL-Library.Word" "HOL-Library.Sublist"
begin

text \<open>
  What the component theories share: results of fallible calls, the string functions of
  Rust's standard library that the code calls, lines of a text file, maps and their
  iteration order, clock readings, and the collections of facts the proofs draw on.

  A Rust \<open>String\<close> is the list of its UTF-8 bytes, so \<open>string\<close> (a list of 8-bit
  characters) is used for strings and for byte vectors alike.
\<close>

named_theorems store_laws \<comment> \<open>what a lookup returns after an update, for every store\<close>
named_theorems handler_defs \<comment> \<open>definitions of request handlers, unfolded together\<close>

type_synonym u32 = "32 word"
type_synonym u64 = "64 word"

text \<open>Points in time and durations, in nanoseconds (\<open>chrono::DateTime<Utc>\<close>, \<open>Duration\<close>).\<close>

type_synonym datetime = int
type_synonym duration = int

abbreviation secs :: "int \<Rightarrow> duration" where "secs n \<equiv> n * 1000000000"
abbreviation hours :: "int \<Rightarrow> duration" where "hours n \<equiv> secs (n * 3600)"

section \<open>Results\<close>

text \<open>\<open>Result<T, String>\<close> and \<open>anyhow::Result<T>\<close>: \<open>Inl\<close> the error text, \<open>Inr\<close> the value.\<close>

type_synonym 'a res = "string + 'a"

definition ok_or :: "'e \<Rightarrow> 'a option \<Rightarrow> 'e + 'a" where
  "ok_or e x = (case x of None \<Rightarrow> Inl e | Some v \<Rightarrow> Inr v)"

definition map_err :: "('e \<Rightarrow> 'f) \<Rightarrow> 'e + 'a \<Rightarrow> 'f + 'a" where
  "map_err f r = (case r of Inl e \<Rightarrow> Inl (f e) | Inr v \<Rightarrow> Inr v)"

definition res_bind :: "'e + 'a \<Rightarrow> ('a \<Rightarrow> 'e + 'b) \<Rightarrow> 'e + 'b" where
  "res_bind r f = (case r of Inl e \<Rightarrow> Inl e | Inr v \<Rightarrow> f v)"

definition is_ok :: "'e + 'a \<Rightarrow> bool" where
  "is_ok r = (case r of Inl _ \<Rightarrow> False | Inr _ \<Rightarrow> True)"

lemma ok_or_simps [simp]: "ok_or e None = Inl e" "ok_or e (Some v) = Inr v"
  by (simp_all add: ok_or_def)

lemma ok_or_eq_Inr [simp]: "ok_or e x = Inr v \<longleftrightarrow> x = Some v"
  by (simp add: ok_or_def split: option.splits)

lemma ok_or_eq_Inl [simp]: "ok_or e x = Inl e' \<longleftrightarrow> x = None \<and> e' = e"
  by (auto simp: ok_or_def split: option.splits)

lemma map_err_simps [simp]: "map_err f (Inl e) = Inl (f e)" "map_err f (Inr v) = Inr v"
  by (simp_all add: map_err_def)

lemma map_err_eq_Inr [simp]: "map_err f r = Inr v \<longleftrightarrow> r = Inr v"
  by (simp add: map_err_def split: sum.splits)

lemma map_err_eq_Inl: "map_err f r = Inl e' \<longleftrightarrow> (\<exists>e. r = Inl e \<and> e' = f e)"
  by (auto simp: map_err_def split: sum.splits)

lemma res_bind_simps [simp]: "res_bind (Inl e) f = Inl e" "res_bind (Inr v) f = f v"
  by (simp_all add: res_bind_def)

lemma res_bind_eq_Inr: "res_bind r f = Inr w \<longleftrightarrow> (\<exists>v. r = Inr v \<and> f v = Inr w)"
  by (simp add: res_bind_def split: sum.splits)

lemma map_sum_eq_Inr: "map_sum id f r = Inr y \<longleftrightarrow> (\<exists>x. r = Inr x \<and> y = f x)"
  by (cases r) auto

lemma is_ok_simps [simp]: "is_ok (Inl e) = False" "is_ok (Inr v) = True"
  by (simp_all add: is_ok_def)

section \<open>Machine integers\<close>

text \<open>
  Rust's \<open>+\<close> on an unsigned type: with overflow checks compiled in (the \<open>dev\<close> profile) an
  overflow panics, \<open>None\<close>; without them (\<open>release\<close>) it wraps around.
\<close>

definition rust_add :: "bool \<Rightarrow> 'w::len word \<Rightarrow> 'w word \<Rightarrow> 'w word option" where
  "rust_add checks a b =
     (if checks \<and> 2 ^ LENGTH('w) \<le> unat a + unat b then None else Some (a + b))"

lemma rust_add_unchecked [simp]: "rust_add False a b = Some (a + b)"
  by (simp add: rust_add_def)

lemma rust_add_checked: "rust_add True a b = Some c \<Longrightarrow> unat c = unat a + unat b"
  by (auto simp: rust_add_def unat_word_ariths split: if_splits)

section \<open>Strings\<close>

text \<open>
  \<open>str::to_lowercase\<close>, as far as comparing the result with an ASCII word can tell: ASCII
  capitals are mapped, and U+212A (KELVIN SIGN, bytes E2 84 AA) is the one character
  beyond ASCII whose lower case is an ASCII string, \<open>k\<close>. Every other character beyond
  ASCII has a lower case that is not ASCII, and its bytes are left in place.
\<close>

definition lower_char :: "char \<Rightarrow> char" where
  "lower_char c = (let n = (of_char c :: nat) in
     if 65 \<le> n \<and> n \<le> 90 then char_of (n + 32) else c)"

fun to_lowercase :: "string \<Rightarrow> string" where
  "to_lowercase (a # b # c # s) =
     (if a = CHR 0xE2 \<and> b = CHR 0x84 \<and> c = CHR 0xAA then CHR ''k'' # to_lowercase s
      else lower_char a # to_lowercase (b # c # s))"
| "to_lowercase (a # s) = lower_char a # to_lowercase s"
| "to_lowercase [] = []"

text \<open>\<open>str::split(c)\<close> with a character: always at least one piece.\<close>

fun str_split :: "char \<Rightarrow> string \<Rightarrow> string list" where
  "str_split c [] = [[]]"
| "str_split c (x # xs) =
     (if x = c then [] # str_split c xs
      else case str_split c xs of [] \<Rightarrow> [[x]] | p # ps \<Rightarrow> (x # p) # ps)"

lemma str_split_nonempty [simp]: "str_split c s \<noteq> []"
  by (induction s) (auto split: list.splits)

lemma str_split_no_sep: "c \<notin> set s \<Longrightarrow> str_split c s = [s]"
  by (induction s) auto

lemma str_split_append:
  "c \<notin> set p \<Longrightarrow> str_split c (p @ c # s) = p # str_split c s"
  by (induction p) auto

lemma str_split_concat:
  "s = concat (map (\<lambda>p. p @ [c]) (butlast (str_split c s))) @ last (str_split c s)"
  by (induction s) (auto split: list.splits simp: neq_Nil_conv)

lemma str_split_pieces: "p \<in> set (str_split c s) \<Longrightarrow> c \<notin> set p"
  by (induction s arbitrary: p) (auto split: list.splits if_splits)

abbreviation starts_with :: "string \<Rightarrow> string \<Rightarrow> bool" where
  "starts_with s p \<equiv> prefix p s"

abbreviation str_contains :: "string \<Rightarrow> string \<Rightarrow> bool" where
  "str_contains s p \<equiv> sublist p s"

text \<open>
  \<open>s.trim().is_empty()\<close>: every character is Unicode white space (U+0009 to U+000D, U+0020,
  U+0085, U+00A0, U+1680, U+2000 to U+200A, U+2028, U+2029, U+202F, U+205F, U+3000).
\<close>

fun blank :: "string \<Rightarrow> bool" where
  "blank [] = True"
| "blank (a # s) = (let x = (of_char a :: nat) in
     if (9 \<le> x \<and> x \<le> 13) \<or> x = 32 then blank s
     else case s of [] \<Rightarrow> False | b # s2 \<Rightarrow> (let y = (of_char b :: nat) in
       if x = 194 then (y = 133 \<or> y = 160) \<and> blank s2
       else case s2 of [] \<Rightarrow> False | c # s3 \<Rightarrow> (let z = (of_char c :: nat) in
         (x = 225 \<and> y = 154 \<and> z = 128 \<or>
          x = 226 \<and> y = 128 \<and> (128 \<le> z \<and> z \<le> 138 \<or> z = 168 \<or> z = 169 \<or> z = 175) \<or>
          x = 226 \<and> y = 129 \<and> z = 159 \<or>
          x = 227 \<and> y = 128 \<and> z = 128) \<and> blank s3)))"

lemma blank_visible:
  assumes "33 \<le> (of_char a :: nat)" "(of_char a :: nat) < 128"
  shows "\<not> blank (a # s)"
proof (cases s)
  case (Cons b s2)
  with assms show ?thesis by (cases s2) (simp_all add: Let_def)
qed (use assms in \<open>simp add: Let_def\<close>)

section \<open>Maps and the order a hash map is iterated in\<close>

text \<open>
  \<open>HashMap\<close> is iterated in an unspecified order. Code that iterates takes the order as an
  argument, a list of the keys; a theorem that does not depend on it quantifies over all.
\<close>

definition enumerates :: "'k list \<Rightarrow> ('k \<rightharpoonup> 'v) \<Rightarrow> bool" where
  "enumerates ks m \<longleftrightarrow> distinct ks \<and> set ks = dom m"

lemma map_filter_append [simp]: "List.map_filter f (xs @ ys) = List.map_filter f xs @ List.map_filter f ys"
  by (simp add: List.map_filter_def)

lemma set_map_filter: "set (List.map_filter f xs) = {v. \<exists>x\<in>set xs. f x = Some v}"
  by (force simp: List.map_filter_def)

definition map_values :: "'k list \<Rightarrow> ('k \<rightharpoonup> 'v) \<Rightarrow> 'v list" where
  "map_values ks m = List.map_filter m ks"

lemma map_values_simps [simp]:
  "map_values [] m = []"
  "map_values (k # ks) m = (case m k of None \<Rightarrow> map_values ks m | Some v \<Rightarrow> v # map_values ks m)"
  by (simp_all add: map_values_def map_filter_simps split: option.splits)

lemma set_map_values: "set (map_values ks m) = {v. \<exists>k\<in>set ks. m k = Some v}"
  by (induction ks) (auto split: option.splits)

lemma set_map_values_enumerates: "enumerates ks m \<Longrightarrow> set (map_values ks m) = ran m"
  by (force simp: set_map_values enumerates_def ran_def dom_def)

end
