(* ===== verification/Circuit_Breaker.thy ===== *)
theory Circuit_Breaker
  imports Prelude_AGT
begin

text \<open>
  The circuit breaker of \<open>crates/core/sre/src/circuit_breaker.rs\<close>. \<open>inner_state\<close> is the
  struct behind the lock, \<open>circuit_breaker\<close> the whole object; each method is one atomic
  step, since it holds the write lock throughout. \<open>Instant\<close> is a point in time and
  \<open>Instant::now()\<close> an argument. \<open>failure_count += 1\<close> on a \<open>u32\<close> panics on overflow when
  the crate is built with overflow checks (the \<open>dev\<close> profile) and wraps around without
  them (the \<open>release\<close> profile): \<open>record_failure\<close> takes the build's choice as its
  argument \<open>checks\<close> and returns \<open>None\<close> for the panic.
\<close>

section \<open>State and operations\<close>

datatype circuit_state = Closed | Open | HalfOpen

record inner_state =
  cb_state :: circuit_state
  failure_count :: u32
  last_failure_time :: "datetime option"

record circuit_breaker =
  inner :: inner_state
  failure_threshold :: u32
  reset_timeout :: duration

definition cb_new :: "u32 \<Rightarrow> duration \<Rightarrow> circuit_breaker" where
  "cb_new threshold timeout =
     \<lparr>inner = \<lparr>cb_state = Closed, failure_count = 0, last_failure_time = None\<rparr>,
      failure_threshold = threshold, reset_timeout = timeout\<rparr>"

text \<open>\<open>Instant::elapsed\<close> saturates at zero when the clock reading lies before the instant.\<close>

definition elapsed :: "datetime \<Rightarrow> datetime \<Rightarrow> duration" where
  "elapsed now t = max 0 (now - t)"

definition is_allowed :: "datetime \<Rightarrow> circuit_breaker \<Rightarrow> bool \<times> circuit_breaker" where
  "is_allowed now cb =
     (case cb_state (inner cb) of
        Closed \<Rightarrow> (True, cb)
      | Open \<Rightarrow>
          (case last_failure_time (inner cb) of
             Some time \<Rightarrow>
               if reset_timeout cb \<le> elapsed now time
               then (True, cb\<lparr>inner := (inner cb)\<lparr>cb_state := HalfOpen\<rparr>\<rparr>)
               else (False, cb)
           | None \<Rightarrow> (False, cb))
      | HalfOpen \<Rightarrow> (True, cb))"

definition record_success :: "circuit_breaker \<Rightarrow> circuit_breaker" where
  "record_success cb = cb\<lparr>inner := (inner cb)\<lparr>cb_state := Closed, failure_count := 0\<rparr>\<rparr>"

definition record_failure :: "bool \<Rightarrow> datetime \<Rightarrow> circuit_breaker \<Rightarrow> circuit_breaker option" where
  "record_failure checks now cb =
     (case rust_add checks (failure_count (inner cb)) 1 of
        None \<Rightarrow> None
      | Some count \<Rightarrow>
          (let i = (inner cb)\<lparr>failure_count := count\<rparr> in
           Some (cb\<lparr>inner :=
             (if failure_threshold cb \<le> count
              then i\<lparr>cb_state := Open, last_failure_time := Some now\<rparr> else i)\<rparr>)))"

definition state :: "circuit_breaker \<Rightarrow> circuit_state" where
  "state cb = cb_state (inner cb)"

lemmas cb_defs = cb_new_def is_allowed_def record_success_def record_failure_def state_def Let_def

section \<open>Runs\<close>

datatype cb_event = Ask datetime | Success | Failure datetime

inductive cb_step :: "bool \<Rightarrow> circuit_breaker \<Rightarrow> cb_event \<Rightarrow> circuit_breaker \<Rightarrow> bool"
  for checks :: bool where
  ask: "snd (is_allowed now cb) = cb' \<Longrightarrow> cb_step checks cb (Ask now) cb'"
| success: "record_success cb = cb' \<Longrightarrow> cb_step checks cb Success cb'"
| failure: "record_failure checks now cb = Some cb' \<Longrightarrow> cb_step checks cb (Failure now) cb'"

inductive_cases cb_step_AskE: "cb_step checks cb (Ask now) cb'"
inductive_cases cb_step_SuccessE: "cb_step checks cb Success cb'"
inductive_cases cb_step_FailureE: "cb_step checks cb (Failure now) cb'"

inductive cb_reachable :: "bool \<Rightarrow> circuit_breaker \<Rightarrow> circuit_breaker \<Rightarrow> bool"
  for checks :: bool and cb0 :: circuit_breaker where
  start: "cb_reachable checks cb0 cb0"
| step: "cb_reachable checks cb0 cb \<Longrightarrow> cb_step checks cb e cb' \<Longrightarrow> cb_reachable checks cb0 cb'"

section \<open>Invariant\<close>

text \<open>
  Outside \<open>Closed\<close> the breaker remembers when it last tripped. In \<open>Closed\<close> it has not
  counted enough failures to trip, unless the threshold is zero and none was counted yet.
  With overflow checks the count outside \<open>Closed\<close> has reached the threshold.
\<close>

definition cb_inv :: "bool \<Rightarrow> circuit_breaker \<Rightarrow> bool" where
  "cb_inv checks cb \<longleftrightarrow>
     (state cb \<noteq> Closed \<longrightarrow> last_failure_time (inner cb) \<noteq> None) \<and>
     (state cb = Closed \<longrightarrow>
        failure_count (inner cb) < failure_threshold cb \<or> failure_count (inner cb) = 0) \<and>
     (checks \<and> state cb \<noteq> Closed \<longrightarrow> failure_threshold cb \<le> failure_count (inner cb))"

lemma cb_inv_new: "cb_inv checks (cb_new n d)"
  by (simp add: cb_inv_def cb_defs)

lemma checked_inc_le: "rust_add True c (1 :: u32) = Some c' \<Longrightarrow> c \<le> c'"
  by (drule rust_add_checked) (simp add: word_le_nat_alt)

lemma cb_step_config:
  "cb_step checks cb e cb' \<Longrightarrow>
     failure_threshold cb' = failure_threshold cb \<and> reset_timeout cb' = reset_timeout cb"
  by (induction rule: cb_step.induct)
    (auto simp: cb_defs split: circuit_state.splits option.splits if_splits)

lemma cb_step_inv: "cb_step checks cb e cb' \<Longrightarrow> cb_inv checks cb \<Longrightarrow> cb_inv checks cb'"
proof (induction rule: cb_step.induct)
  case (ask now cb cb')
  then show ?case
    by (auto simp: cb_inv_def cb_defs split: circuit_state.splits option.splits if_splits)
next
  case (success cb cb')
  then show ?case by (auto simp: cb_inv_def cb_defs)
next
  case (failure now cb cb')
  then show ?case
    by (cases checks)
      (auto simp: cb_inv_def cb_defs not_le dest: checked_inc_le split: if_splits option.splits)
qed

lemma cb_reachable_inv:
  "cb_reachable checks cb0 cb \<Longrightarrow> cb_inv checks cb0 \<Longrightarrow> cb_inv checks cb"
  by (induction rule: cb_reachable.induct) (auto intro: cb_step_inv)

section \<open>Properties\<close>

lemma record_failure_counts:
  assumes "unat (failure_count (inner cb)) + 1 < 2 ^ 32"
  shows "\<exists>cb'. record_failure checks t cb = Some cb' \<and>
    unat (failure_count (inner cb')) = unat (failure_count (inner cb)) + 1 \<and>
    failure_threshold cb' = failure_threshold cb \<and>
    (state cb' = Open \<longleftrightarrow>
       state cb = Open \<or> unat (failure_threshold cb) \<le> unat (failure_count (inner cb)) + 1) \<and>
    (state cb' = Open \<or> state cb' = state cb)"
proof -
  have inc: "unat (failure_count (inner cb) + 1) = unat (failure_count (inner cb)) + 1"
    using assms by (simp add: unat_word_ariths)
  then show ?thesis
    using assms by (auto simp: record_failure_def rust_add_def state_def Let_def word_le_nat_alt)
qed

text \<open>A run of any events; \<open>None\<close> when one of them panics.\<close>

fun cb_apply :: "bool \<Rightarrow> cb_event \<Rightarrow> circuit_breaker \<Rightarrow> circuit_breaker option" where
  "cb_apply checks (Ask now) cb = Some (snd (is_allowed now cb))"
| "cb_apply checks Success cb = Some (record_success cb)"
| "cb_apply checks (Failure now) cb = record_failure checks now cb"

fun cb_run :: "bool \<Rightarrow> cb_event list \<Rightarrow> circuit_breaker \<Rightarrow> circuit_breaker option" where
  "cb_run checks [] cb = Some cb"
| "cb_run checks (e # es) cb =
     (case cb_apply checks e cb of None \<Rightarrow> None | Some cb' \<Rightarrow> cb_run checks es cb')"

lemma cb_run_snoc:
  "cb_run checks (es @ [e]) cb =
     (case cb_run checks es cb of None \<Rightarrow> None | Some cb' \<Rightarrow> cb_apply checks e cb')"
  by (induction es arbitrary: cb) (auto split: option.split)

text \<open>How many failures there were after the last success.\<close>

fun is_failure :: "cb_event \<Rightarrow> bool" where
  "is_failure (Failure now) = True"
| "is_failure e = False"

definition failures_since_success :: "cb_event list \<Rightarrow> nat" where
  "failures_since_success es = length (filter is_failure (takeWhile (\<lambda>e. e \<noteq> Success) (rev es)))"

lemma failures_since_success_simps [simp]:
  "failures_since_success [] = 0"
  "failures_since_success (es @ [Ask now]) = failures_since_success es"
  "failures_since_success (es @ [Success]) = 0"
  "failures_since_success (es @ [Failure now]) = Suc (failures_since_success es)"
  by (simp_all add: failures_since_success_def)

lemma failures_since_success_le: "failures_since_success es \<le> length es"
  unfolding failures_since_success_def
  using order_trans [OF length_filter_le length_takeWhile_le] by (metis length_rev)

text \<open>
  The counter and the state after a run: \<open>n\<close> failures since the last success; tripped
  exactly when they have reached the threshold, and \<open>Open\<close> as long as no probe was let through.
\<close>

definition cb_counts :: "nat \<Rightarrow> circuit_breaker \<Rightarrow> bool" where
  "cb_counts n cb \<longleftrightarrow> unat (failure_count (inner cb)) = n \<and>
     (state cb \<noteq> Closed \<longleftrightarrow> 0 < n \<and> unat (failure_threshold cb) \<le> n)"

lemma cb_counts_apply:
  assumes "cb_counts (failures_since_success es) cb" "failures_since_success (es @ [e]) < 2 ^ 32"
  shows "\<exists>cb'. cb_apply checks e cb = Some cb' \<and> failure_threshold cb' = failure_threshold cb \<and>
    cb_counts (failures_since_success (es @ [e])) cb' \<and> (is_failure e \<longrightarrow> state cb' \<noteq> HalfOpen)"
proof (cases e)
  case (Ask now)
  with assms(1) show ?thesis
    by (auto simp: cb_counts_def cb_defs split: circuit_state.splits option.splits)
next
  case Success
  then show ?thesis by (simp add: cb_counts_def cb_defs)
next
  case (Failure now)
  with assms record_failure_counts [of cb checks now] show ?thesis
    by (auto simp: cb_counts_def; cases "state cb"; force)
qed

lemma cb_counts_run:
  assumes "\<forall>k. failures_since_success (take k es) < 2 ^ 32"
  shows "\<exists>cb. cb_run checks es (cb_new threshold timeout) = Some cb \<and> failure_threshold cb = threshold \<and>
    cb_counts (failures_since_success es) cb \<and> (es \<noteq> [] \<and> is_failure (last es) \<longrightarrow> state cb \<noteq> HalfOpen)"
  using assms
proof (induction es rule: rev_induct)
  case Nil
  show ?case by (simp add: cb_counts_def cb_defs)
next
  case (snoc e es)
  have "failures_since_success (take k es) < 2 ^ 32" for k
    using spec [OF snoc.prems, of "min k (length es)"] by (simp add: min_def split: if_splits)
  with snoc.IH obtain cb where cb: "cb_run checks es (cb_new threshold timeout) = Some cb"
    "failure_threshold cb = threshold" "cb_counts (failures_since_success es) cb" by blast
  moreover have "failures_since_success (es @ [e]) < 2 ^ 32"
    using spec [OF snoc.prems, of "Suc (length es)"] by simp
  ultimately show ?case using cb_counts_apply [of es cb e checks] by (fastforce simp: cb_run_snoc)
qed

text \<open>
  C18: after any sequence of requests, successes and failures that never has \<open>2 ^ 32\<close> failures
  without a success between them, a breaker that was new is tripped exactly when the failures
  since the last success are at least one and have reached the threshold, and is \<open>Closed\<close>
  otherwise: a success forgets the failures before it. Right after a failure a tripped breaker
  is \<open>Open\<close>, also when the failure was that of a probe. No event panics, in either build profile.
\<close>

theorem breaker_trips_at_threshold:
  assumes "\<forall>k. failures_since_success (take k es) < 2 ^ 32"
  shows "\<exists>cb. cb_run checks es (cb_new threshold timeout) = Some cb \<and>
    (state cb = Closed \<longleftrightarrow> \<not> (0 < failures_since_success es \<and> unat threshold \<le> failures_since_success es)) \<and>
    (es \<noteq> [] \<and> is_failure (last es) \<and> unat threshold \<le> failures_since_success es \<longrightarrow> state cb = Open)"
proof -
  obtain cb where cb: "cb_run checks es (cb_new threshold timeout) = Some cb" "failure_threshold cb = threshold"
    "cb_counts (failures_since_success es) cb" "es \<noteq> [] \<and> is_failure (last es) \<longrightarrow> state cb \<noteq> HalfOpen"
    using cb_counts_run [OF assms] by blast
  moreover have "0 < failures_since_success es" if "es \<noteq> []" "is_failure (last es)"
    using that by (cases es rule: rev_cases; cases "last es") auto
  ultimately show ?thesis by (cases "state cb") (auto simp: cb_counts_def)
qed

theorem breaker_trips_at_threshold_witness:
  "\<exists>cb. cb_run True [Failure 10, Failure 20, Success, Failure 30, Failure 40, Ask 45] (cb_new 3 100) = Some cb \<and>
     state cb = Closed \<and>
   (\<exists>cb'. cb_run True [Failure 10, Success, Failure 20, Failure 30, Failure 40] (cb_new 3 100) = Some cb' \<and>
     state cb' = Open)"
proof -
  let ?es = "[Failure 10, Failure 20, Success, Failure 30, Failure 40, Ask 45]"
    and ?fs = "[Failure 10, Success, Failure 20, Failure 30, Failure 40]"
  have few: "\<forall>k. failures_since_success (take k es) < 2 ^ 32" if "length es < 2 ^ 32" for es
    using that failures_since_success_le
    by (metis (no_types, lifting) le_less_trans length_take min.cobounded1)
  have n: "failures_since_success ?es = 2" "failures_since_success ?fs = 3"
    by (simp_all add: failures_since_success_def)
  from breaker_trips_at_threshold [OF few, of ?es True 3 100] n(1)
  have "\<exists>cb. cb_run True ?es (cb_new 3 100) = Some cb \<and> state cb = Closed" by auto
  moreover from breaker_trips_at_threshold [OF few, of ?fs True 3 100] n(2)
  have "\<exists>cb. cb_run True ?fs (cb_new 3 100) = Some cb \<and> state cb = Open" by auto
  ultimately show ?thesis by blast
qed

text \<open>
  C19: in every state a new breaker can reach, requests are refused exactly while the breaker
  is \<open>Open\<close> and the reset timeout has not yet passed since the last failure that tripped
  it; the branch for an open breaker without a failure time is never taken, so an open
  breaker always lets a probe through again, which moves it to \<open>HalfOpen\<close>.
\<close>

theorem breaker_refuses_only_while_tripped:
  assumes "cb_reachable checks (cb_new threshold timeout) cb"
  shows "if state cb = Open
    then \<exists>t. last_failure_time (inner cb) = Some t \<and>
      (\<forall>now. is_allowed now cb =
         (if elapsed now t < timeout then (False, cb)
          else (True, cb\<lparr>inner := (inner cb)\<lparr>cb_state := HalfOpen\<rparr>\<rparr>)))
    else \<forall>now. is_allowed now cb = (True, cb)"
proof -
  from cb_reachable_inv [OF assms cb_inv_new] have inv: "cb_inv checks cb" .
  from assms have "reset_timeout cb = timeout"
    by (induction rule: cb_reachable.induct) (auto dest: cb_step_config simp: cb_new_def)
  with inv show ?thesis
    by (auto simp: cb_inv_def cb_defs split: circuit_state.splits)
qed

theorem breaker_refuses_only_while_tripped_witness:
  "\<exists>cb. cb_reachable True (cb_new 1 100) cb \<and> state cb = Open \<and>
     \<not> fst (is_allowed 149 cb) \<and> fst (is_allowed 150 cb)"
proof -
  let ?cb = "(cb_new 1 100)\<lparr>inner := \<lparr>cb_state = Open, failure_count = 1,
    last_failure_time = Some 50\<rparr>\<rparr>"
  have "cb_step True (cb_new 1 100) (Failure 50) ?cb"
    by (rule cb_step.failure) (simp add: cb_defs rust_add_def)
  then have r: "cb_reachable True (cb_new 1 100) ?cb"
    by (rule cb_reachable.step [OF cb_reachable.start])
  moreover have "state ?cb = Open" by (simp add: state_def)
  ultimately show ?thesis
    using breaker_refuses_only_while_tripped [OF r]
    by (intro exI [of _ ?cb]) (simp add: elapsed_def)
qed

end
