(* ===== verification/Externals.thy ===== *)
theory Externals
  imports Prelude_AGT
begin

text \<open>
  The third-party code the program calls, as parameters: hashing (\<open>sha2\<close>, \<open>hex\<close>), Base64
  (\<open>base64\<close>), signatures (\<open>ed25519_dalek\<close>), date arithmetic (\<open>chrono\<close>) and identifiers
  (\<open>uuid\<close>). Every definition that uses one of them takes the record \<open>ext\<close>; what a
  theorem relies on is one of the named hypotheses below, which state documented behaviour.
  JSON (\<open>serde_json\<close>) is a parameter of the components that read or write it.
\<close>

type_synonym bytes = string
type_synonym signing_key = bytes \<comment> \<open>\<open>SigningKey\<close>, its 32 secret bytes\<close>
type_synonym verifying_key = bytes
type_synonym uuid = "128 word"

record ext =
  sha256_hex :: "bytes \<Rightarrow> string" \<comment> \<open>\<open>hex::encode(Sha256::digest(b))\<close>\<close>
  b64_encode :: "bytes \<Rightarrow> string" \<comment> \<open>\<open>general_purpose::STANDARD.encode\<close>\<close>
  b64_decode :: "string \<Rightarrow> bytes res"
  public_bytes :: "signing_key \<Rightarrow> bytes" \<comment> \<open>\<open>k.verifying_key().to_bytes()\<close>\<close>
  ed_sign :: "signing_key \<Rightarrow> bytes \<Rightarrow> bytes" \<comment> \<open>\<open>k.sign(m).to_bytes()\<close>\<close>
  vk_from_bytes :: "bytes \<Rightarrow> verifying_key res" \<comment> \<open>\<open>VerifyingKey::from_bytes\<close>, of 32 bytes\<close>
  sig_from_slice :: "bytes \<Rightarrow> bytes res" \<comment> \<open>\<open>Signature::from_slice\<close>\<close>
  ed_verify :: "verifying_key \<Rightarrow> bytes \<Rightarrow> bytes \<Rightarrow> bool" \<comment> \<open>\<open>key.verify(m, sig).is_ok()\<close>\<close>
  dt_add :: "datetime \<Rightarrow> duration \<Rightarrow> datetime" \<comment> \<open>\<open>DateTime + Duration\<close>\<close>
  dt_sub :: "datetime \<Rightarrow> duration \<Rightarrow> datetime" \<comment> \<open>\<open>DateTime - Duration\<close>\<close>
  dt_diff :: "datetime \<Rightarrow> datetime \<Rightarrow> duration" \<comment> \<open>\<open>DateTime - DateTime\<close>\<close>
  dur_div :: "duration \<Rightarrow> int \<Rightarrow> duration" \<comment> \<open>\<open>Duration / i32\<close>\<close>
  dur_debug :: "duration \<Rightarrow> string" \<comment> \<open>\<open>{:?}\<close> of a \<open>Duration\<close>\<close>
  uuid_str :: "uuid \<Rightarrow> string" \<comment> \<open>\<open>Uuid::to_string\<close>, hyphenated\<close>
  uuid_simple :: "uuid \<Rightarrow> string" \<comment> \<open>\<open>Uuid::simple\<close>, 32 digits\<close>
  uuid_parse :: "string \<Rightarrow> uuid option" \<comment> \<open>\<open>Uuid::parse_str\<close>\<close>

section \<open>Documented behaviour\<close>

text \<open>
  Ed25519 and Base64: public keys have 32 bytes and parse, Base64 round-trips, a
  signature made with a key parses and verifies under its public key.
\<close>

definition crypto_ok :: "ext \<Rightarrow> bool" where
  "crypto_ok X \<longleftrightarrow>
     (\<forall>b. b64_decode X (b64_encode X b) = Inr b) \<and>
     (\<forall>k. length (public_bytes X k) = 32) \<and>
     (\<forall>k m. sig_from_slice X (ed_sign X k m) = Inr (ed_sign X k m)) \<and>
     (\<forall>k. \<exists>v. vk_from_bytes X (public_bytes X k) = Inr v \<and>
        (\<forall>m. ed_verify X v m (ed_sign X k m)))"

text \<open>SHA-256 in hexadecimal has 64 characters, digits and small letters.\<close>

definition hex_digits :: string where "hex_digits = ''0123456789abcdef''"

definition sha_ok :: "ext \<Rightarrow> bool" where
  "sha_ok X \<longleftrightarrow> (\<forall>b. length (sha256_hex X b) = 64 \<and> set (sha256_hex X b) \<subseteq> set hex_digits)"

text \<open>
  The hyphenated form of a UUID has 36 characters, one form per UUID.
\<close>

definition uuid_ok :: "ext \<Rightarrow> bool" where
  "uuid_ok X \<longleftrightarrow> inj (uuid_str X) \<and> (\<forall>u. length (uuid_str X u) = 36)"

lemma crypto_okD:
  assumes "crypto_ok X"
  shows "b64_decode X (b64_encode X b) = Inr b"
    and "length (public_bytes X k) = 32"
    and "sig_from_slice X (ed_sign X k m) = Inr (ed_sign X k m)"
    and "\<exists>v. vk_from_bytes X (public_bytes X k) = Inr v \<and> (\<forall>m. ed_verify X v m (ed_sign X k m))"
  using assms by (auto simp: crypto_ok_def)

section \<open>A concrete instance, for witnesses\<close>

text \<open>
  A keyed checksum instead of Ed25519 and the identity instead of Base64: not secure, but
  it has the properties above, so the hypotheses of the theorems can hold.
\<close>

definition pad32 :: "bytes \<Rightarrow> bytes" where
  "pad32 b = take 32 (b @ replicate 32 CHR ''0'')"

lemma length_pad32 [simp]: "length (pad32 b) = 32"
  by (simp add: pad32_def)

definition nat_digits36 :: "nat \<Rightarrow> string" where
  "nat_digits36 n = map (\<lambda>i. char_of (97 + n div 16 ^ i mod 16)) [0..<36]"

definition to_hex :: "bytes \<Rightarrow> string" where
  "to_hex b = concat (map (\<lambda>c. let n = of_char c in [hex_digits ! (n div 16), hex_digits ! (n mod 16)]) b)"

lemma set_to_hex: "set (to_hex b) \<subseteq> set hex_digits"
proof -
  have len: "length hex_digits = 16" by (simp add: hex_digits_def)
  have "of_char c div 16 < (16 :: nat)" for c :: char
    using nat_of_char_less_256 [of c] by (simp add: less_mult_imp_div_less)
  then have "hex_digits ! (of_char c div 16) \<in> set hex_digits" "hex_digits ! (of_char c mod 16) \<in> set hex_digits"
    for c :: char
    by (auto intro!: nth_mem simp: len)
  then show ?thesis by (auto simp: to_hex_def Let_def)
qed

definition hex_value :: "char \<Rightarrow> nat" where
  "hex_value c = (let n = of_char c in if n < 58 then n - 48 else n - 87)"

fun from_hex :: "string \<Rightarrow> bytes" where
  "from_hex (a # b # s) = char_of (16 * hex_value a + hex_value b) # from_hex s"
| "from_hex _ = []"

lemma hex_value_digit: "n < 16 \<Longrightarrow> hex_value (hex_digits ! n) = n"
proof -
  assume "n < 16"
  then have "n \<in> set [0..<16]" by simp
  moreover have "\<forall>n\<in>set [0..<16]. hex_value (hex_digits ! n) = n"
    by (simp add: upt_rec numeral_eq_Suc hex_value_def hex_digits_def)
  ultimately show ?thesis by blast
qed

lemma from_to_hex [simp]: "from_hex (to_hex b) = b"
proof (induction b)
  case (Cons c b)
  have "(of_char c :: nat) div 16 < 16" using nat_of_char_less_256 [of c] by (simp add: less_mult_imp_div_less)
  then show ?case using Cons by (simp add: to_hex_def Let_def hex_value_digit)
qed (simp add: to_hex_def)

definition toy_ext :: ext where
  "toy_ext = \<lparr>sha256_hex = (\<lambda>b. take 64 (to_hex b @ replicate 64 CHR ''f'')),
     b64_encode = (\<lambda>b. b), b64_decode = Inr,
     public_bytes = pad32, ed_sign = (\<lambda>k m. pad32 k @ m),
     vk_from_bytes = Inr, sig_from_slice = Inr,
     ed_verify = (\<lambda>v m s. s = v @ m),
     dt_add = (+), dt_sub = (-), dt_diff = (-), dur_div = (\<lambda>d n. d div n),
     dur_debug = (\<lambda>_. ''TimeDelta''),
     uuid_str = (\<lambda>u. nat_digits36 (unat u)), uuid_simple = (\<lambda>u. nat_digits36 (unat u)),
     uuid_parse = (\<lambda>_. None)\<rparr>"

lemma crypto_ok_toy [simp]: "crypto_ok toy_ext"
  by (simp add: crypto_ok_def toy_ext_def)

lemma sha_ok_toy [simp]: "sha_ok toy_ext"
proof -
  have f: "set (replicate 64 CHR ''f'') \<subseteq> set hex_digits" by (simp add: hex_digits_def)
  have "set (take 64 (to_hex b @ replicate 64 CHR ''f'')) \<subseteq> set hex_digits" for b
    by (rule order_trans [OF set_take_subset]) (use set_to_hex [of b] f in \<open>simp only: set_append Un_least\<close>)
  moreover have "length (take 64 (to_hex b @ replicate 64 CHR ''f'')) = 64" for b
    by (simp only: length_take length_append length_replicate min_def) arith
  ultimately show ?thesis by (simp only: sha_ok_def toy_ext_def ext.select_convs) blast
qed

lemma digit_char_inj: "char_of (97 + a mod 16) = char_of (97 + b mod 16) \<Longrightarrow> a mod 16 = b mod (16 :: nat)"
proof -
  assume "char_of (97 + a mod 16) = char_of (97 + b mod 16)"
  then have "of_char (char_of (97 + a mod 16)) = (of_char (char_of (97 + b mod 16)) :: nat)" by simp
  then have "(97 + a mod 16) mod 256 = (97 + b mod 16) mod (256::nat)" by (simp add: of_char_of)
  then show ?thesis by simp
qed

lemma mod_power_eqI:
  "(\<And>i. i < k \<Longrightarrow> (a :: nat) div 16 ^ i mod 16 = b div 16 ^ i mod 16) \<Longrightarrow> a mod 16 ^ k = b mod 16 ^ k"
proof (induction k)
  case (Suc k)
  then have "a mod 16 ^ k = b mod 16 ^ k" by simp
  with Suc.prems [of k] show ?case
    by (simp add: mod_mult2_eq mult.commute [of 16])
qed simp

lemma nat_digits36_inj:
  assumes "nat_digits36 m = nat_digits36 n" "m < 16 ^ 36" "n < 16 ^ 36"
  shows "m = n"
proof -
  have "m div 16 ^ i mod 16 = n div 16 ^ i mod 16" if "i < 36" for i
    using assms(1) that by (intro digit_char_inj) (auto simp: nat_digits36_def list_eq_iff_nth_eq)
  then have "m mod 16 ^ 36 = n mod 16 ^ 36" by (rule mod_power_eqI)
  with assms(2,3) show ?thesis by simp
qed

lemma uuid_ok_toy [simp]: "uuid_ok toy_ext"
proof -
  have "unat u < 16 ^ 36" for u :: uuid
    using unsigned_less [where ?'b = 128 and w = u and ?'a = nat] by simp
  then have "inj (\<lambda>u :: uuid. nat_digits36 (unat u))"
    by (intro injI) (metis nat_digits36_inj word_unat_eq_iff)
  then show ?thesis by (simp add: uuid_ok_def toy_ext_def nat_digits36_def)
qed

end
