(* ===== verification/Keystore.thy ===== *)
theory Keystore
  imports Externals
begin

text \<open>
  Storage of private keys, \<open>crates/core/mesh/src/identity/keystore.rs\<close>: the trait
  \<open>KeyStore\<close> as a record of operations over a state, its contract as the locale
  \<open>key_store\<close>, and the implementation \<open>MemoryKeyStore\<close>, which interprets it. The flag
  \<open>poisoned\<close> of a store says that a thread panicked while it held the lock.
\<close>

section \<open>The trait and its contract\<close>

record 'k keystore_ops =
  ks_save :: "'k \<Rightarrow> string \<Rightarrow> signing_key \<Rightarrow> unit res \<times> 'k"
  ks_load :: "'k \<Rightarrow> string \<Rightarrow> signing_key option res \<times> 'k"
  ks_delete :: "'k \<Rightarrow> string \<Rightarrow> unit res \<times> 'k"

text \<open>
  \<open>keys s\<close> is the map a store in state \<open>s\<close> represents, \<open>usable s\<close> says that its
  operations do not fail, \<open>dids\<close> are the agents the contract speaks about, and \<open>good\<close> are
  the keys it can hold.
\<close>

locale key_store =
  fixes K :: "'k keystore_ops"
    and keys :: "'k \<Rightarrow> string \<rightharpoonup> signing_key"
    and usable :: "'k \<Rightarrow> bool"
    and dids :: "'k \<Rightarrow> string set"
    and good :: "signing_key \<Rightarrow> bool"
  assumes save: "usable s \<Longrightarrow> d \<in> dids s \<Longrightarrow> good k \<Longrightarrow>
      \<exists>s'. ks_save K s d k = (Inr (), s') \<and> usable s' \<and> dids s' = dids s \<and>
        (\<forall>d'\<in>dids s. keys s' d' = (if d' = d then Some k else keys s d'))"
    and load: "usable s \<Longrightarrow> d \<in> dids s \<Longrightarrow>
      \<exists>s'. ks_load K s d = (Inr (keys s d), s') \<and> usable s' \<and> dids s' = dids s \<and>
        (\<forall>d'\<in>dids s. keys s' d' = keys s d')"
    and delete: "usable s \<Longrightarrow> d \<in> dids s \<Longrightarrow>
      \<exists>s'. ks_delete K s d = (Inr (), s') \<and> usable s' \<and> dids s' = dids s \<and>
        (\<forall>d'\<in>dids s. keys s' d' = (if d' = d then None else keys s d'))"
begin

lemma load_after_save:
  assumes "usable s" "d \<in> dids s" "good k" "ks_save K s d k = (r, s')"
  shows "r = Inr () \<and> (\<forall>d'\<in>dids s. fst (ks_load K s' d') = Inr (if d' = d then Some k else keys s d'))"
proof -
  from save [OF assms(1-3)] assms(4)
  have s': "r = Inr ()" "usable s'" "dids s' = dids s"
    "\<forall>d'\<in>dids s. keys s' d' = (if d' = d then Some k else keys s d')" by auto
  have "fst (ks_load K s' d') = Inr (keys s' d')" if "d' \<in> dids s" for d'
    using load [of s' d'] s'(2,3) that by auto
  with s' show ?thesis by auto
qed

lemma load_after_delete:
  assumes "usable s" "d \<in> dids s" "ks_delete K s d = (r, s')"
  shows "r = Inr () \<and> fst (ks_load K s' d) = Inr None"
proof -
  from delete [OF assms(1,2)] assms(2,3)
  have s': "r = Inr ()" "usable s'" "d \<in> dids s'" "keys s' d = None" by auto
  then show ?thesis using load [of s' d] by auto
qed

end

section \<open>\<open>MemoryKeyStore\<close>\<close>

record memory_key_store =
  mks_keys :: "string \<rightharpoonup> signing_key"
  mks_poisoned :: bool

definition mks_new :: memory_key_store where
  "mks_new = \<lparr>mks_keys = Map.empty, mks_poisoned = False\<rparr>"

definition lock_poisoned :: string where "lock_poisoned = ''Lock poisoned''"

definition mks_save_key :: "memory_key_store \<Rightarrow> string \<Rightarrow> signing_key \<Rightarrow> unit res \<times> memory_key_store" where
  "mks_save_key s agent_did key =
     (if mks_poisoned s then (Inl lock_poisoned, s)
      else (Inr (), s\<lparr>mks_keys := (mks_keys s)(agent_did \<mapsto> key)\<rparr>))"

definition mks_load_key :: "memory_key_store \<Rightarrow> string \<Rightarrow> signing_key option res \<times> memory_key_store" where
  "mks_load_key s agent_did =
     (if mks_poisoned s then (Inl lock_poisoned, s) else (Inr (mks_keys s agent_did), s))"

definition mks_delete_key :: "memory_key_store \<Rightarrow> string \<Rightarrow> unit res \<times> memory_key_store" where
  "mks_delete_key s agent_did =
     (if mks_poisoned s then (Inl lock_poisoned, s)
      else (Inr (), s\<lparr>mks_keys := (mks_keys s)(agent_did := None)\<rparr>))"

definition memory_keystore_ops :: "memory_key_store keystore_ops" where
  "memory_keystore_ops =
     \<lparr>ks_save = mks_save_key, ks_load = mks_load_key, ks_delete = mks_delete_key\<rparr>"

lemmas mks_defs = mks_save_key_def mks_load_key_def mks_delete_key_def memory_keystore_ops_def

interpretation mks: key_store memory_keystore_ops mks_keys "\<lambda>s. \<not> mks_poisoned s" "\<lambda>_. UNIV"
    "\<lambda>_. True"
  by unfold_locales (auto simp: mks_defs)

end
