(* ===== verification/Identity.thy ===== *)
theory Identity
  imports Keystore
begin

text \<open>
  Agent identities: \<open>AgentDID\<close> and \<open>AgentIdentity\<close> of
  \<open>crates/core/mesh/src/identity/agent_id.rs\<close>, key rotation (\<open>rotation.rs\<close>) and
  delegation links (\<open>delegation.rs\<close>). The 32 random bytes a key is made from are an
  argument; the JSON form of an identity is a parameter where it is read.
\<close>

section \<open>Decentralised identifiers\<close>

record agent_did =
  did_method :: string
  did_unique_id :: string

definition agent_did_new :: "ext \<Rightarrow> string \<Rightarrow> string option \<Rightarrow> agent_did" where
  "agent_did_new X name org =
     (let seed = name @ '':'' @ (case org of Some s \<Rightarrow> s | None \<Rightarrow> ''default'');
          hash = sha256_hex X seed
      in \<lparr>did_method = ''mesh'', did_unique_id = take 32 hash\<rparr>)"

definition did_display :: "agent_did \<Rightarrow> string" where
  "did_display d = ''did:'' @ did_method d @ '':'' @ did_unique_id d"

section \<open>Identities\<close>

record agent_identity =
  ai_did :: agent_did
  ai_name :: string
  ai_public_key :: string
  ai_sponsor_email :: string
  ai_capabilities :: "string list"
  ai_status :: string
  ai_parent_did :: "string option"
  ai_delegation_depth :: u32
  ai_private_key :: "signing_key option"

definition identity_create ::
  "ext \<Rightarrow> bytes \<Rightarrow> string \<Rightarrow> string \<Rightarrow> string list \<Rightarrow> string option \<Rightarrow>
     ('k keystore_ops \<times> 'k) option \<Rightarrow> agent_identity res \<times> 'k option" where
  "identity_create X rng name sponsor capabilities organization keystore =
     (let signing_key = rng;
          did = agent_did_new X name organization;
          did_str = did_display did;
          public_key_b64 = b64_encode X (public_bytes X signing_key);
          identity = \<lparr>ai_did = did, ai_name = name, ai_public_key = public_key_b64,
            ai_sponsor_email = sponsor, ai_capabilities = capabilities,
            ai_status = ''active'', ai_parent_did = None, ai_delegation_depth = 0,
            ai_private_key = Some signing_key\<rparr>
      in case keystore of
           None \<Rightarrow> (Inr identity, None)
         | Some (K, ks) \<Rightarrow>
             (case ks_save K ks did_str signing_key of
                (Inl e, ks') \<Rightarrow> (Inl e, Some ks')
              | (Inr _, ks') \<Rightarrow> (Inr identity, Some ks')))"

text \<open>\<open>of_json\<close> is \<open>serde_json::from_str\<close>; the private key is skipped by it.\<close>

definition identity_load ::
  "(string \<Rightarrow> agent_identity res) \<Rightarrow> string \<Rightarrow> 'k keystore_ops \<Rightarrow> 'k \<Rightarrow> agent_identity res \<times> 'k" where
  "identity_load of_json identity_json K ks =
     (case of_json identity_json of
        Inl e \<Rightarrow> (Inl e, ks)
      | Inr identity \<Rightarrow>
          (case ks_load K ks (did_display (ai_did identity)) of
             (Inl e, ks') \<Rightarrow> (Inl e, ks')
           | (Inr private_key, ks') \<Rightarrow> (Inr (identity\<lparr>ai_private_key := private_key\<rparr>), ks')))"

definition identity_sign :: "ext \<Rightarrow> agent_identity \<Rightarrow> bytes \<Rightarrow> bytes option" where
  "identity_sign X i data = map_option (\<lambda>k. ed_sign X k data) (ai_private_key i)"

definition zero_key :: bytes where "zero_key = replicate 32 CHR 0x00"

definition verify_signature :: "ext \<Rightarrow> agent_identity \<Rightarrow> bytes \<Rightarrow> bytes \<Rightarrow> bool" where
  "verify_signature X i data signature =
     (case b64_decode X (ai_public_key i) of
        Inl _ \<Rightarrow> False
      | Inr public_key_bytes \<Rightarrow>
          (case vk_from_bytes X (if length public_key_bytes = 32 then public_key_bytes else zero_key) of
             Inl _ \<Rightarrow> False
           | Inr verifying_key \<Rightarrow>
               (case sig_from_slice X signature of
                  Inl _ \<Rightarrow> False
                | Inr sig \<Rightarrow> ed_verify X verifying_key data sig)))"

definition rotate_keys :: "ext \<Rightarrow> bytes \<Rightarrow> agent_identity \<Rightarrow> agent_identity" where
  "rotate_keys X rng identity =
     identity\<lparr>ai_public_key := b64_encode X (public_bytes X rng), ai_private_key := Some rng\<rparr>"

section \<open>Delegation\<close>

record delegation_link =
  dl_parent_did :: string
  dl_child_did :: string
  dl_capabilities :: "string list"
  dl_depth :: u32

definition delegation_link_new :: "string \<Rightarrow> string \<Rightarrow> string list \<Rightarrow> u32 \<Rightarrow> delegation_link" where
  "delegation_link_new parent_did child_did capabilities depth =
     \<lparr>dl_parent_did = parent_did, dl_child_did = child_did,
      dl_capabilities = capabilities, dl_depth = depth\<rparr>"

section \<open>Key pairs\<close>

text \<open>The two keys of an identity belong together.\<close>

definition key_pair :: "ext \<Rightarrow> agent_identity \<Rightarrow> bool" where
  "key_pair X i \<longleftrightarrow> (\<exists>k. ai_private_key i = Some k \<and>
     ai_public_key i = b64_encode X (public_bytes X k))"

lemma key_pair_rotate [simp]: "key_pair X (rotate_keys X rng i)"
  by (simp add: key_pair_def rotate_keys_def)

lemma identity_create_ok:
  assumes "identity_create X rng name sponsor caps org ks = (Inr i, ks')"
  shows "ai_private_key i = Some rng \<and> key_pair X i \<and> ai_did i = agent_did_new X name org \<and>
    ai_name i = name \<and> ai_capabilities i = caps \<and> ai_sponsor_email i = sponsor"
  using assms
  by (auto simp: identity_create_def Let_def key_pair_def split: option.splits sum.splits prod.splits)

lemma verify_attested_key:
  assumes "crypto_ok X" "ai_public_key i = b64_encode X (public_bytes X k)"
  shows "verify_signature X i data (ed_sign X k data)"
proof -
  obtain v where "vk_from_bytes X (public_bytes X k) = Inr v" "\<forall>m. ed_verify X v m (ed_sign X k m)"
    using crypto_okD(4) [OF assms(1)] by blast
  then show ?thesis using assms by (simp add: verify_signature_def crypto_okD)
qed

lemma key_pair_signs:
  assumes "crypto_ok X" "key_pair X i"
  shows "\<exists>s. identity_sign X i data = Some s \<and> verify_signature X i data s"
  using assms verify_attested_key by (auto simp: key_pair_def identity_sign_def)

section \<open>Properties\<close>

text \<open>
  An identity the program creates signs any message with a signature that verifies under
  it, and so it still does after any number of key rotations, which change neither its DID
  nor its name, sponsor and capabilities.
\<close>

theorem created_identity_signs:
  assumes "crypto_ok X"
    and "identity_create X rng name sponsor caps org ks = (Inr i, ks')"
    and "i' = fold (rotate_keys X) rngs i"
  shows "(\<exists>s. identity_sign X i' data = Some s \<and> verify_signature X i' data s) \<and>
    ai_did i' = agent_did_new X name org \<and> ai_name i' = name \<and>
    ai_sponsor_email i' = sponsor \<and> ai_capabilities i' = caps"
proof -
  have "key_pair X (fold (rotate_keys X) rngs j) \<and> ai_did (fold (rotate_keys X) rngs j) = ai_did j \<and>
      ai_name (fold (rotate_keys X) rngs j) = ai_name j \<and>
      ai_sponsor_email (fold (rotate_keys X) rngs j) = ai_sponsor_email j \<and>
      ai_capabilities (fold (rotate_keys X) rngs j) = ai_capabilities j" if "key_pair X j" for j
    using that
  proof (induction rngs arbitrary: j)
    case (Cons r rs)
    then show ?case using key_pair_rotate [of X r j] by (simp add: rotate_keys_def)
  qed simp
  with identity_create_ok [OF assms(2)] assms(3) key_pair_signs [OF assms(1)]
  show ?thesis by metis
qed

theorem created_identity_signs_witness:
  "\<exists>i. fst (identity_create toy_ext ''secret'' ''bot'' ''a@b.c'' [] None
        (None :: (memory_key_store keystore_ops \<times> memory_key_store) option)) = Inr i \<and>
     (\<exists>s. identity_sign toy_ext (rotate_keys toy_ext ''new'' i) ''hello'' = Some s \<and>
        verify_signature toy_ext (rotate_keys toy_ext ''new'' i) ''hello'' s)"
proof -
  obtain i where i: "identity_create toy_ext ''secret'' ''bot'' ''a@b.c'' [] None
      (None :: (memory_key_store keystore_ops \<times> memory_key_store) option) = (Inr i, None)"
    by (simp add: identity_create_def Let_def)
  have "rotate_keys toy_ext ''new'' i = fold (rotate_keys toy_ext) [''new''] i" by simp
  from created_identity_signs [OF crypto_ok_toy i this, of "''hello''"] i show ?thesis by simp
qed

text \<open>
  An identity created with a key store and written out as JSON is loaded back from that
  JSON and the store whole, private key included: \<open>load\<close> restores exactly the identity
  \<open>create\<close> returned, whatever keys the store held before.
\<close>

theorem create_load_roundtrip:
  assumes "\<not> mks_poisoned ks"
    and "identity_create X rng name sponsor caps org (Some (memory_keystore_ops, ks)) = (Inr i, Some ks')"
    and "of_json json = Inr (i\<lparr>ai_private_key := None\<rparr>)"
  shows "fst (identity_load of_json json memory_keystore_ops ks') = Inr i"
proof -
  from assms(2) have pk: "ai_private_key i = Some rng"
    and sv: "ks_save memory_keystore_ops ks (did_display (ai_did i)) rng = (Inr (), ks')"
    by (auto simp: identity_create_def Let_def split: prod.splits sum.splits)
  from mks.load_after_save [OF assms(1) _ _ sv]
  have "fst (ks_load memory_keystore_ops ks' (did_display (ai_did i))) = Inr (Some rng)" by simp
  moreover have "i\<lparr>ai_private_key := None, ai_private_key := Some rng\<rparr> = i"
    using pk by (cases i) simp
  ultimately show ?thesis using assms(3) by (auto simp: identity_load_def split: prod.splits)
qed

theorem create_load_roundtrip_witness:
  "\<exists>i ks'. identity_create toy_ext ''k'' ''bot'' ''s'' [''compute''] None
      (Some (memory_keystore_ops, mks_new)) = (Inr i, Some ks') \<and>
    fst (identity_load (\<lambda>_. Inr (i\<lparr>ai_private_key := None\<rparr>)) ''json'' memory_keystore_ops ks') = Inr i"
proof -
  obtain i ks' where c: "identity_create toy_ext ''k'' ''bot'' ''s'' [''compute''] None
      (Some (memory_keystore_ops, mks_new)) = (Inr i, Some ks')"
    by (simp add: identity_create_def Let_def mks_defs mks_new_def)
  have "\<not> mks_poisoned mks_new" by (simp add: mks_new_def)
  from create_load_roundtrip [OF this c refl] c show ?thesis by blast
qed

text \<open>
  A public key that decodes to anything but 32 bytes is not rejected: the signature is
  checked against the fixed all-zero key instead, whatever the registered key was.
\<close>

theorem wrong_length_key_is_zero_key:
  assumes "b64_decode X (ai_public_key i) = Inr b" and "length b \<noteq> 32"
    and "b64_decode X (ai_public_key j) = Inr zero_key"
  shows "verify_signature X i data sig = verify_signature X j data sig"
  using assms by (simp add: verify_signature_def zero_key_def)

theorem wrong_length_key_is_zero_key_witness:
  "verify_signature toy_ext (\<lparr>ai_did = \<lparr>did_method = [], did_unique_id = []\<rparr>, ai_name = [],
      ai_public_key = ''short'', ai_sponsor_email = [], ai_capabilities = [], ai_status = [],
      ai_parent_did = None, ai_delegation_depth = 0, ai_private_key = None\<rparr>) ''m'' (zero_key @ ''m'')"
proof -
  let ?i = "\<lparr>ai_did = \<lparr>did_method = [], did_unique_id = []\<rparr>, ai_name = [],
      ai_public_key = ''short'', ai_sponsor_email = [], ai_capabilities = [], ai_status = [],
      ai_parent_did = None, ai_delegation_depth = 0, ai_private_key = None\<rparr>"
  have "verify_signature toy_ext ?i ''m'' (zero_key @ ''m'') =
      verify_signature toy_ext (?i\<lparr>ai_public_key := zero_key\<rparr>) ''m'' (zero_key @ ''m'')"
    by (rule wrong_length_key_is_zero_key [where b = "''short''"]) (simp_all add: toy_ext_def)
  then show ?thesis by (simp add: verify_signature_def toy_ext_def zero_key_def)
qed

end
