(* ===== verification/Attestation.thy ===== *)
theory Attestation
  imports Identity
begin

text \<open>
  Signed attestations, \<open>crates/core/mesh/src/identity/attestation.rs\<close>: the registry signs
  the claim that a DID has a public key until a point in time. \<open>claim_json\<close>, the JSON text
  of a claim (\<open>serde_json::to_vec\<close>), is a parameter.
\<close>

section \<open>Claims and their verification\<close>

datatype attestation_error =
  InvalidSignature | Expired | Serialization string | InvalidPublicKey string

definition attestation_error_display :: "attestation_error \<Rightarrow> string" where
  "attestation_error_display e = (case e of
       InvalidSignature \<Rightarrow> ''Invalid signature''
     | Expired \<Rightarrow> ''Attestation expired''
     | Serialization s \<Rightarrow> ''Serialization error: '' @ s
     | InvalidPublicKey s \<Rightarrow> ''Invalid public key: '' @ s)"

record attestation_claim =
  ac_subject_did :: string
  ac_public_key_b64 :: string
  ac_issued_at :: datetime
  ac_expires_at :: datetime

record signed_attestation =
  sa_claim :: attestation_claim
  sa_registry_did :: string
  sa_signature_b64 :: string

type_synonym claim_json = "attestation_claim \<Rightarrow> bytes"

definition sa_canonical_bytes :: "claim_json \<Rightarrow> attestation_claim \<Rightarrow> bytes" where
  "sa_canonical_bytes J claim = J claim"

definition sa_verify ::
  "ext \<Rightarrow> claim_json \<Rightarrow> datetime \<Rightarrow> signed_attestation \<Rightarrow> string \<Rightarrow> attestation_error + unit" where
  "sa_verify X J now sa registry_pubkey_b64 =
     (if ac_expires_at (sa_claim sa) < now then Inl Expired
      else case b64_decode X registry_pubkey_b64 of
        Inl e \<Rightarrow> Inl (InvalidPublicKey e)
      | Inr pubkey_bytes \<Rightarrow>
          if length pubkey_bytes \<noteq> 32 then Inl (InvalidPublicKey ''Wrong length'')
          else case vk_from_bytes X pubkey_bytes of
            Inl e \<Rightarrow> Inl (InvalidPublicKey e)
          | Inr verifying_key \<Rightarrow>
              (case b64_decode X (sa_signature_b64 sa) of
                 Inl _ \<Rightarrow> Inl InvalidSignature
               | Inr signature_bytes \<Rightarrow>
                   (case sig_from_slice X signature_bytes of
                      Inl _ \<Rightarrow> Inl InvalidSignature
                    | Inr signature \<Rightarrow>
                        if ed_verify X verifying_key (sa_canonical_bytes J (sa_claim sa)) signature
                        then Inr () else Inl InvalidSignature)))"

text \<open>How a registry makes one, \<open>registry.rs\<close>, from two clock readings.\<close>

definition issue_attestation ::
  "ext \<Rightarrow> claim_json \<Rightarrow> signing_key \<Rightarrow> string \<Rightarrow> datetime \<times> datetime \<Rightarrow> string \<Rightarrow> string \<Rightarrow> signed_attestation" where
  "issue_attestation X J registry_identity registry_did t did pubkey_b64 =
     (let claim = \<lparr>ac_subject_did = did, ac_public_key_b64 = pubkey_b64,
            ac_issued_at = fst t, ac_expires_at = dt_add X (snd t) (hours 24)\<rparr>;
          payload = sa_canonical_bytes J claim;
          signature = ed_sign X registry_identity payload
      in \<lparr>sa_claim = claim, sa_registry_did = registry_did,
          sa_signature_b64 = b64_encode X signature\<rparr>)"

section \<open>Facts\<close>

text \<open>A signature of a registry key over the claim of an attestation.\<close>

definition signed_by :: "ext \<Rightarrow> claim_json \<Rightarrow> string \<Rightarrow> signed_attestation \<Rightarrow> bool" where
  "signed_by X J pub sa \<longleftrightarrow>
     (\<exists>pb vk sb sig. b64_decode X pub = Inr pb \<and> length pb = 32 \<and> vk_from_bytes X pb = Inr vk \<and>
        b64_decode X (sa_signature_b64 sa) = Inr sb \<and> sig_from_slice X sb = Inr sig \<and>
        ed_verify X vk (J (sa_claim sa)) sig)"

lemma sa_verify_ok_iff:
  "sa_verify X J now sa pub = Inr () \<longleftrightarrow> now \<le> ac_expires_at (sa_claim sa) \<and> signed_by X J pub sa"
  by (auto simp: sa_verify_def signed_by_def sa_canonical_bytes_def split: sum.splits)

lemma issued_signed_by:
  assumes "crypto_ok X"
  shows "signed_by X J (b64_encode X (public_bytes X k)) (issue_attestation X J k rd t d pk)"
proof -
  obtain v where "vk_from_bytes X (public_bytes X k) = Inr v" "\<forall>m. ed_verify X v m (ed_sign X k m)"
    using crypto_okD(4) [OF assms] by blast
  then show ?thesis
    by (simp add: signed_by_def issue_attestation_def sa_canonical_bytes_def Let_def
        crypto_okD(1-3) [OF assms])
qed

lemma issue_attestation_simps [simp]:
  "ac_subject_did (sa_claim (issue_attestation X J k rd t d pk)) = d"
  "ac_public_key_b64 (sa_claim (issue_attestation X J k rd t d pk)) = pk"
  "ac_expires_at (sa_claim (issue_attestation X J k rd t d pk)) = dt_add X (snd t) (hours 24)"
  by (simp_all add: issue_attestation_def Let_def)

text \<open>Which error is reported, and when: an expired attestation is reported as expired.\<close>

lemma sa_verify_cases:
  "case sa_verify X J now sa pub of
     Inr _ \<Rightarrow> now \<le> ac_expires_at (sa_claim sa) \<and> signed_by X J pub sa
   | Inl Expired \<Rightarrow> ac_expires_at (sa_claim sa) < now
   | Inl InvalidSignature \<Rightarrow> now \<le> ac_expires_at (sa_claim sa) \<and> \<not> signed_by X J pub sa \<and>
       (\<exists>pb vk. b64_decode X pub = Inr pb \<and> length pb = 32 \<and> vk_from_bytes X pb = Inr vk)
   | Inl (InvalidPublicKey _) \<Rightarrow> now \<le> ac_expires_at (sa_claim sa) \<and>
       \<not> (\<exists>pb vk. b64_decode X pub = Inr pb \<and> length pb = 32 \<and> vk_from_bytes X pb = Inr vk)
   | Inl (Serialization _) \<Rightarrow> False"
  by (auto simp: sa_verify_def signed_by_def sa_canonical_bytes_def split: sum.splits)

text \<open>
  Unforgeability, as a hypothesis on the messages a key's owner has signed: nothing else
  verifies under the public key \<open>pub\<close>.
\<close>

definition only_signed :: "ext \<Rightarrow> string \<Rightarrow> bytes set \<Rightarrow> bool" where
  "only_signed X pub msgs \<longleftrightarrow>
     (\<forall>pb vk m sig. b64_decode X pub = Inr pb \<longrightarrow> vk_from_bytes X pb = Inr vk \<longrightarrow>
        ed_verify X vk m sig \<longrightarrow> m \<in> msgs)"

section \<open>Properties\<close>

text \<open>
  An attestation the registry issues verifies under the registry's public key up to and
  including the instant 24 hours after the second clock reading, and is reported as expired
  from then on.
\<close>

theorem issued_attestation_lifetime:
  assumes "crypto_ok X"
  shows "sa_verify X J now (issue_attestation X J k rd t d pk) (b64_encode X (public_bytes X k)) =
    (if dt_add X (snd t) (hours 24) < now then Inl Expired else Inr ())"
proof (cases "dt_add X (snd t) (hours 24) < now")
  case True
  then show ?thesis by (simp add: sa_verify_def)
next
  case False
  then show ?thesis
    using issued_signed_by [OF assms, of J k rd t d pk] by (simp add: sa_verify_ok_iff)
qed

theorem issued_attestation_lifetime_witness:
  "sa_verify toy_ext ac_subject_did (hours 24 + 1)
     (issue_attestation toy_ext ac_subject_did ''rk'' ''reg'' (0, 0) ''a'' ''pk'')
     (b64_encode toy_ext (public_bytes toy_ext ''rk'')) = Inl Expired"
  using issued_attestation_lifetime [OF crypto_ok_toy, of ac_subject_did "hours 24 + 1" "''rk''" "''reg''"
      "(0, 0)" "''a''" "''pk''"] by (simp add: toy_ext_def)

text \<open>
  When nothing verifies under the registry's key but the claims in \<open>issued\<close> and the
  JSON text tells these claims and the presented one apart, an accepted attestation carries
  one of the issued claims unaltered: subject, key and both instants.
\<close>

theorem accepted_claim_was_issued:
  assumes "inj_on J (insert (sa_claim sa) issued)" and "only_signed X pub (J ` issued)"
    and "sa_verify X J now sa pub = Inr ()"
  shows "sa_claim sa \<in> issued \<and> now \<le> ac_expires_at (sa_claim sa)"
proof -
  from assms(3) have "now \<le> ac_expires_at (sa_claim sa)" "signed_by X J pub sa"
    by (simp_all add: sa_verify_ok_iff)
  moreover from this(2) assms(2) obtain c where "c \<in> issued" "J (sa_claim sa) = J c"
    unfolding signed_by_def only_signed_def by blast
  ultimately show ?thesis using assms(1) by (metis inj_on_eq_iff insertCI)
qed

theorem accepted_claim_was_issued_witness:
  "\<exists>claim pub sa X. sa_verify X ac_subject_did 5 sa pub = Inr () \<and> sa_claim sa \<in> {claim}"
proof -
  let ?claim = "\<lparr>ac_subject_did = ''a'', ac_public_key_b64 = ''p'', ac_issued_at = 0, ac_expires_at = 9\<rparr>"
  let ?X = "toy_ext\<lparr>ed_verify := \<lambda>_ m _. m = ''a''\<rparr>"
  let ?sa = "\<lparr>sa_claim = ?claim, sa_registry_did = ''r'', sa_signature_b64 = ''s''\<rparr>"
  have inj: "inj_on ac_subject_did (insert (sa_claim ?sa) {?claim})" by simp
  have os: "only_signed ?X zero_key (ac_subject_did ` {?claim})" by (simp add: only_signed_def)
  have v: "sa_verify ?X ac_subject_did 5 ?sa zero_key = Inr ()"
    by (simp add: sa_verify_def sa_canonical_bytes_def toy_ext_def zero_key_def)
  then show ?thesis using accepted_claim_was_issued [OF inj os v] by blast
qed

end
