(* ===== verification/Privilege.thy ===== *)
theory Privilege
  imports Prelude_AGT
begin

text \<open>
  Privilege rings and data categories: \<open>PrivilegeRing\<close> of
  \<open>crates/core/mesh/src/identity/agent_id.rs\<close> with its order and its text form,
  \<open>DataCategory\<close> of \<open>crates/core/mesh/src/audit.rs\<close>, and the ring check of
  \<open>crates/core/runtime/src/rings/enforcer.rs\<close>. A smaller ring is more privileged.
\<close>

section \<open>Privilege rings\<close>

datatype privilege_ring = System | Trusted | Standard | Sandboxed

primrec ring_code :: "privilege_ring \<Rightarrow> nat" where
  "ring_code System = 0"
| "ring_code Trusted = 1"
| "ring_code Standard = 2"
| "ring_code Sandboxed = 3"

text \<open>The derived \<open>PartialOrd\<close> and \<open>Ord\<close> compare discriminants.\<close>

instantiation privilege_ring :: linorder
begin

definition less_eq_privilege_ring :: "privilege_ring \<Rightarrow> privilege_ring \<Rightarrow> bool" where
  "less_eq_privilege_ring a b \<longleftrightarrow> ring_code a \<le> ring_code b"

definition less_privilege_ring :: "privilege_ring \<Rightarrow> privilege_ring \<Rightarrow> bool" where
  "less_privilege_ring a b \<longleftrightarrow> ring_code a < ring_code b"

instance
proof
  fix a b :: privilege_ring
  show "a \<le> b \<Longrightarrow> b \<le> a \<Longrightarrow> a = b"
    by (cases a; cases b) (simp_all add: less_eq_privilege_ring_def)
qed (auto simp: less_eq_privilege_ring_def less_privilege_ring_def)

end

lemma ring_order_simps [simp]:
  "System \<le> r" "r \<le> Sandboxed" "r < System \<longleftrightarrow> False" "Sandboxed < r \<longleftrightarrow> False"
  "System < Trusted" "Trusted < Standard" "Standard < Sandboxed"
  by (cases r; simp add: less_eq_privilege_ring_def less_privilege_ring_def)+

lemmas ring_order_defs = less_eq_privilege_ring_def less_privilege_ring_def

definition ring_display :: "privilege_ring \<Rightarrow> string" where
  "ring_display r = (case r of
       System \<Rightarrow> ''System''
     | Trusted \<Rightarrow> ''Trusted''
     | Standard \<Rightarrow> ''Standard''
     | Sandboxed \<Rightarrow> ''Sandboxed'')"

definition ring_from_str :: "string \<Rightarrow> privilege_ring res" where
  "ring_from_str s = (let l = to_lowercase s in
     if l = ''system'' then Inr System
     else if l = ''trusted'' then Inr Trusted
     else if l = ''standard'' then Inr Standard
     else if l = ''sandboxed'' then Inr Sandboxed
     else Inl (''Unknown privilege ring: '' @ s))"

section \<open>Data categories\<close>

datatype data_category = PersonalData | FinancialRecord | AuditLog | SystemConfig | Unknown

definition category_display :: "data_category \<Rightarrow> string" where
  "category_display c = (case c of
       PersonalData \<Rightarrow> ''PersonalData''
     | FinancialRecord \<Rightarrow> ''FinancialRecord''
     | AuditLog \<Rightarrow> ''AuditLog''
     | SystemConfig \<Rightarrow> ''SystemConfig''
     | Unknown \<Rightarrow> ''Unknown'')"

definition category_from_str :: "string \<Rightarrow> data_category res" where
  "category_from_str s = (let l = to_lowercase s in
     if l \<in> {''personaldata'', ''personal_data'', ''pii''} then Inr PersonalData
     else if l \<in> {''financialrecord'', ''financial_record'', ''sox''} then Inr FinancialRecord
     else if l \<in> {''auditlog'', ''audit_log''} then Inr AuditLog
     else if l \<in> {''systemconfig'', ''system_config''} then Inr SystemConfig
     else if l = ''unknown'' then Inr Unknown
     else Inl (''Unknown data category: '' @ s))"

section \<open>The enforcer\<close>

record deny_event =
  de_agent_did :: string
  de_agent_ring :: privilege_ring
  de_required_ring :: privilege_ring
  de_action :: string

text \<open>The verdict of \<open>Enforcer::can_execute\<close>, with the event it logs on a denial.\<close>

definition can_execute ::
  "string \<Rightarrow> privilege_ring \<Rightarrow> privilege_ring \<Rightarrow> string \<Rightarrow> bool \<times> deny_event option" where
  "can_execute agent_did agent_ring required_ring action =
     (if agent_ring \<le> required_ring then (True, None)
      else (False, Some \<lparr>de_agent_did = agent_did, de_agent_ring = agent_ring,
              de_required_ring = required_ring, de_action = action\<rparr>))"

lemma can_execute_iff [simp]: "fst (can_execute d a r x) \<longleftrightarrow> a \<le> r"
  by (simp add: can_execute_def)

section \<open>Properties\<close>

lemma lower_char_code: "(of_char (lower_char c) :: nat) =
    (if 65 \<le> (of_char c :: nat) \<and> (of_char c :: nat) \<le> 90 then of_char c + 32 else of_char c)"
  by (simp add: lower_char_def Let_def of_char_of)

lemma lower_char_idem [simp]: "lower_char (lower_char c) = lower_char c"
  by (auto simp: lower_char_def Let_def of_char_of)

lemma to_lowercase_ascii:
  "\<forall>c\<in>set s. (of_char c :: nat) < 128 \<Longrightarrow> to_lowercase s = map lower_char s"
  by (induction s rule: to_lowercase.induct) auto

lemma ascii_of_lower:
  assumes "map lower_char s = map lower_char w" "\<forall>c\<in>set w. (of_char c :: nat) < 128"
  shows "to_lowercase s = map lower_char w"
proof -
  have small: "(of_char c :: nat) < 128 \<longleftrightarrow> (of_char (lower_char c) :: nat) < 128" for c
    by (simp add: lower_char_code)
  have "\<forall>c\<in>set (map lower_char w). (of_char c :: nat) < 128"
    using assms(2) small by simp
  then have "\<forall>c\<in>set (map lower_char s). (of_char c :: nat) < 128"
    by (simp only: assms(1))
  then have "\<forall>c\<in>set s. (of_char c :: nat) < 128" using small by simp
  then show ?thesis using to_lowercase_ascii assms(1) by simp
qed

lemmas lower_char_eval = lower_char_def char_of_def bit_iff_odd

lemma ring_from_str_display:
  assumes "map lower_char s = map lower_char (ring_display r)"
  shows "ring_from_str s = Inr r"
proof -
  have "to_lowercase s = map lower_char (ring_display r)"
    by (rule ascii_of_lower [OF assms]) (cases r; simp add: ring_display_def)
  then show ?thesis
    by (cases r) (simp_all add: ring_from_str_def ring_display_def lower_char_eval Let_def)
qed

lemma category_from_str_display:
  assumes "map lower_char s = map lower_char (category_display c)"
  shows "category_from_str s = Inr c"
proof -
  have "to_lowercase s = map lower_char (category_display c)"
    by (rule ascii_of_lower [OF assms]) (cases c; simp add: category_display_def)
  then show ?thesis
    by (cases c) (simp_all add: category_from_str_def category_display_def lower_char_eval Let_def)
qed

text \<open>
  A ring's and a category's printed form parses back to it, in any mix of ASCII capitals
  and small letters.
\<close>

theorem display_roundtrip:
  assumes "map lower_char s = map lower_char (ring_display r)"
    and "map lower_char t = map lower_char (category_display c)"
  shows "ring_from_str s = Inr r \<and> category_from_str t = Inr c"
  using assms by (simp add: ring_from_str_display category_from_str_display)

theorem display_roundtrip_witness:
  "ring_from_str ''sANDBOXED'' = Inr Sandboxed \<and> category_from_str ''AUDITLOG'' = Inr AuditLog"
  by (rule display_roundtrip)
    (simp_all add: ring_display_def category_display_def lower_char_eval Let_def)

end
