(* ===== verification/Filesystem.thy ===== *)
theory Filesystem
  imports Prelude_AGT
begin

text \<open>
  The files the program reads and writes, with \<open>std::fs\<close>, \<open>BufReader::lines\<close> and
  \<open>BufWriter\<close> as far as the code uses them. A file system holds the files and a script: the
  outcomes of the next system calls, in order. A call takes the first outcome of the script;
  an empty script means that no further call fails. A failing write says how many bytes
  reached the file before it failed. Paths are strings, and only this process touches the
  files.
\<close>

section \<open>Files and system calls\<close>

datatype io_outcome = Io_ok | Io_err string nat

record fs =
  files :: "string \<rightharpoonup> string"
  script :: "io_outcome list"

definition fs_next :: "fs \<Rightarrow> io_outcome \<times> fs" where
  "fs_next w = (case script w of [] \<Rightarrow> (Io_ok, w) | r # rs \<Rightarrow> (r, w\<lparr>script := rs\<rparr>))"

text \<open>\<open>Path::exists\<close> answers \<open>false\<close> when the file cannot be looked at.\<close>

definition fs_exists :: "string \<Rightarrow> fs \<Rightarrow> bool \<times> fs" where
  "fs_exists p w = (case fs_next w of
       (Io_ok, w') \<Rightarrow> (files w' p \<noteq> None, w')
     | (Io_err _ _, w') \<Rightarrow> (False, w'))"

definition enoent :: string where
  "enoent = ''No such file or directory (os error 2)''"

definition fs_read :: "string \<Rightarrow> fs \<Rightarrow> string res \<times> fs" where
  "fs_read p w = (case fs_next w of
       (Io_ok, w') \<Rightarrow> (ok_or enoent (files w' p), w')
     | (Io_err e _, w') \<Rightarrow> (Inl e, w'))"

text \<open>\<open>OpenOptions::new().create(true).append(true).open(p)\<close>\<close>

definition fs_open_append :: "string \<Rightarrow> fs \<Rightarrow> unit res \<times> fs" where
  "fs_open_append p w = (case fs_next w of
       (Io_ok, w') \<Rightarrow> (Inr (), w'\<lparr>files := (files w')(p \<mapsto> (case files w' p of None \<Rightarrow> [] | Some c \<Rightarrow> c))\<rparr>)
     | (Io_err e _, w') \<Rightarrow> (Inl e, w'))"

text \<open>\<open>File::write_all\<close> on a file opened for appending.\<close>

definition fs_append :: "string \<Rightarrow> string \<Rightarrow> fs \<Rightarrow> unit res \<times> fs" where
  "fs_append p b w = (case fs_next w of
       (Io_ok, w') \<Rightarrow> (Inr (), w'\<lparr>files := (files w')(p \<mapsto> (case files w' p of None \<Rightarrow> [] | Some c \<Rightarrow> c) @ b)\<rparr>)
     | (Io_err e k, w') \<Rightarrow>
         (Inl e, w'\<lparr>files := (files w')(p \<mapsto> (case files w' p of None \<Rightarrow> [] | Some c \<Rightarrow> c) @ take k b)\<rparr>))"

text \<open>\<open>fs::write\<close>: open truncating, then write.\<close>

definition fs_write :: "string \<Rightarrow> string \<Rightarrow> fs \<Rightarrow> unit res \<times> fs" where
  "fs_write p b w = (case fs_next w of
       (Io_err e _, w') \<Rightarrow> (Inl e, w')
     | (Io_ok, w') \<Rightarrow>
         fs_append p b (w'\<lparr>files := (files w')(p \<mapsto> [])\<rparr>))"

text \<open>\<open>file.metadata()?.len()\<close>\<close>

definition fs_len :: "string \<Rightarrow> fs \<Rightarrow> nat res \<times> fs" where
  "fs_len p w = (case fs_next w of
       (Io_ok, w') \<Rightarrow> (Inr (case files w' p of None \<Rightarrow> 0 | Some c \<Rightarrow> length c), w')
     | (Io_err e _, w') \<Rightarrow> (Inl e, w'))"

definition fs_rename :: "string \<Rightarrow> string \<Rightarrow> fs \<Rightarrow> unit res \<times> fs" where
  "fs_rename p q w = (case fs_next w of
       (Io_ok, w') \<Rightarrow>
         (case files w' p of
            None \<Rightarrow> (Inl enoent, w')
          | Some c \<Rightarrow> (Inr (), w'\<lparr>files := (if p = q then files w' else (files w')(q \<mapsto> c, p := None))\<rparr>))
     | (Io_err e _, w') \<Rightarrow> (Inl e, w'))"

definition fs_remove :: "string \<Rightarrow> fs \<Rightarrow> unit res \<times> fs" where
  "fs_remove p w = (case fs_next w of
       (Io_ok, w') \<Rightarrow>
         (case files w' p of
            None \<Rightarrow> (Inl enoent, w')
          | Some _ \<Rightarrow> (Inr (), w'\<lparr>files := (files w')(p := None)\<rparr>))
     | (Io_err e _, w') \<Rightarrow> (Inl e, w'))"

lemmas fs_defs = fs_exists_def fs_read_def fs_open_append_def fs_append_def fs_write_def
  fs_len_def fs_rename_def fs_remove_def

lemma fs_next_quiet [simp]: "script w = [] \<Longrightarrow> fs_next w = (Io_ok, w)"
  by (simp add: fs_next_def)

text \<open>No call touches a file other than the ones it names.\<close>

lemma fs_next_files: "files (snd (fs_next w)) = files w"
  by (simp add: fs_next_def split: list.splits)

lemma fs_next_eq: "fs_next w = (r, w') \<Longrightarrow> files w' = files w"
  using fs_next_files [of w] by simp

section \<open>UTF-8\<close>

text \<open>\<open>str::from_utf8\<close> accepts exactly the byte sequences of RFC 3629.\<close>

definition cont_byte :: "char \<Rightarrow> bool" where
  "cont_byte c \<longleftrightarrow> 128 \<le> (of_char c :: nat) \<and> (of_char c :: nat) \<le> 191"

definition byte_in :: "nat \<Rightarrow> nat \<Rightarrow> char \<Rightarrow> bool" where
  "byte_in lo hi c \<longleftrightarrow> lo \<le> of_char c \<and> of_char c \<le> hi"

fun utf8_valid :: "string \<Rightarrow> bool" where
  "utf8_valid [] = True"
| "utf8_valid (a # s) =
     (if byte_in 0 127 a then utf8_valid s
      else (case s of [] \<Rightarrow> False | b # s2 \<Rightarrow>
        if byte_in 194 223 a then cont_byte b \<and> utf8_valid s2
        else (case s2 of [] \<Rightarrow> False | c # s3 \<Rightarrow>
          if byte_in 224 224 a \<and> byte_in 160 191 b \<or>
             (byte_in 225 236 a \<or> byte_in 238 239 a) \<and> cont_byte b \<or>
             byte_in 237 237 a \<and> byte_in 128 159 b
          then cont_byte c \<and> utf8_valid s3
          else (case s3 of [] \<Rightarrow> False | d # s4 \<Rightarrow>
            (byte_in 240 240 a \<and> byte_in 144 191 b \<or>
             byte_in 241 243 a \<and> cont_byte b \<or>
             byte_in 244 244 a \<and> byte_in 128 143 b) \<and>
            cont_byte c \<and> cont_byte d \<and> utf8_valid s4))))"

lemma utf8_ascii: "\<forall>c\<in>set s. byte_in 0 127 c \<Longrightarrow> utf8_valid s"
  by (induction s) auto

text \<open>\<open>fs::read_to_string\<close>\<close>

definition invalid_utf8 :: string where
  "invalid_utf8 = ''stream did not contain valid UTF-8''"

definition fs_read_to_string :: "string \<Rightarrow> fs \<Rightarrow> string res \<times> fs" where
  "fs_read_to_string p w = (case fs_read p w of
       (Inl e, w') \<Rightarrow> (Inl e, w')
     | (Inr c, w') \<Rightarrow> (if utf8_valid c then Inr c else Inl invalid_utf8, w'))"

section \<open>Paths\<close>

text \<open>
  \<open>Path::with_extension\<close> for a path whose last component names a file: the extension after
  the last dot of the name, if the dot does not start the name, is replaced.
\<close>

definition file_stem :: "string \<Rightarrow> string" where
  "file_stem name = (let upto = rev (dropWhile (\<lambda>c. c \<noteq> CHR ''.'') (rev name)) in
     if upto = [] \<or> butlast upto = [] then name else butlast upto)"

definition with_extension :: "string \<Rightarrow> string \<Rightarrow> string" where
  "with_extension ext p = (let name = last (str_split (CHR ''/'') p) in
     if name \<in> {[], ''.'', ''..''} then p
     else take (length p - length name) p @ file_stem name @ ''.'' @ ext)"

text \<open>\<open>Path::join\<close> with a relative path, and \<open>Path::extension\<close> of a file name.\<close>

definition path_join :: "string \<Rightarrow> string \<Rightarrow> string" where
  "path_join dir f = (if dir = [] \<or> last dir = CHR ''/'' then dir @ f else dir @ CHR ''/'' # f)"

definition path_extension :: "string \<Rightarrow> string option" where
  "path_extension name =
     (if file_stem name = name then None else Some (drop (Suc (length (file_stem name))) name))"

lemma str_split_last: "c \<notin> set s \<Longrightarrow> last (str_split c (p @ c # s)) = s"
proof -
  assume "c \<notin> set s"
  then have "\<exists>q qs. str_split c (p @ c # s) = q # qs @ [s]"
    by (induction p) (auto simp: str_split_no_sep)
  then show ?thesis by auto
qed

lemma path_join_inj: "path_join dir f = path_join dir g \<longleftrightarrow> f = g"
  by (simp add: path_join_def)

lemma path_join_name:
  assumes "CHR ''/'' \<notin> set f"
  shows "last (str_split (CHR ''/'') (path_join dir f)) = f"
proof (cases "dir = [] \<or> last dir \<noteq> CHR ''/''")
  case True
  then show ?thesis using assms by (auto simp: path_join_def str_split_no_sep str_split_last)
next
  case False
  then have "path_join dir f = butlast dir @ CHR ''/'' # f"
    by (metis path_join_def append.assoc append_Cons append_Nil append_butlast_last_id)
  then show ?thesis using assms by (simp add: str_split_last)
qed

lemma file_stem_dot:
  assumes "CHR ''.'' \<notin> set e" "n \<noteq> []"
  shows "file_stem (n @ CHR ''.'' # e) = n"
  using assms by (simp add: file_stem_def dropWhile_append Let_def)

lemma path_extension_dot:
  "CHR ''.'' \<notin> set e \<Longrightarrow> n \<noteq> [] \<Longrightarrow> path_extension (n @ CHR ''.'' # e) = Some e"
  by (simp add: path_extension_def file_stem_dot)

lemma with_extension_join:
  assumes "CHR ''/'' \<notin> set n" "CHR ''/'' \<notin> set e" "CHR ''.'' \<notin> set e" "n \<noteq> []" "e \<noteq> []"
  shows "with_extension x (path_join dir (n @ CHR ''.'' # e)) = path_join dir (n @ CHR ''.'' # x)"
proof -
  have name: "last (str_split (CHR ''/'') (path_join dir (n @ CHR ''.'' # e))) = n @ CHR ''.'' # e"
    by (rule path_join_name) (use assms in simp)
  have "n @ CHR ''.'' # e \<noteq> ''.'' \<and> n @ CHR ''.'' # e \<noteq> ''..''"
    using assms(4,5) by (auto simp: Cons_eq_append_conv append_eq_Cons_conv)
  then show ?thesis
    using name assms file_stem_dot [of e n] by (auto simp: with_extension_def Let_def path_join_def)
qed

section \<open>Lines of a file\<close>

definition nl :: char where "nl = CHR 0x0A"
definition cr :: char where "cr = CHR 0x0D"

text \<open>Split after every newline; a rest without a newline is the last line, if not empty.\<close>

fun raw_lines :: "string \<Rightarrow> (string \<times> bool) list" where
  "raw_lines [] = []"
| "raw_lines (x # xs) =
     (if x = nl then ([], True) # raw_lines xs
      else case raw_lines xs of [] \<Rightarrow> [([x], False)] | (l, t) # ls \<Rightarrow> (x # l, t) # ls)"

text \<open>A terminated line loses the newline, and then a carriage return before it.\<close>

definition strip_line :: "string \<times> bool \<Rightarrow> string" where
  "strip_line lt = (case lt of (l, t) \<Rightarrow>
     if t \<and> l \<noteq> [] \<and> last l = cr then butlast l else l)"

definition buf_lines :: "string \<Rightarrow> string res list" where
  "buf_lines s = map (\<lambda>lt. if utf8_valid (fst lt) then Inr (strip_line lt)
      else Inl invalid_utf8) (raw_lines s)"

text \<open>The text of a JSON value in compact form: valid UTF-8 on one line.\<close>

definition one_line :: "string \<Rightarrow> bool" where
  "one_line s \<longleftrightarrow> utf8_valid s \<and> nl \<notin> set s \<and> cr \<notin> set s \<and> s \<noteq> []"

lemma raw_lines_append: "nl \<notin> set l \<Longrightarrow> raw_lines (l @ nl # s) = (l, True) # raw_lines s"
  by (induction l) auto

lemma buf_lines_cons:
  assumes "one_line l"
  shows "buf_lines (l @ nl # s) = Inr l # buf_lines s"
proof -
  have "last l \<noteq> cr" using assms last_in_set [of l] unfolding one_line_def by metis
  with assms show ?thesis by (simp add: buf_lines_def raw_lines_append one_line_def strip_line_def)
qed

definition unlines :: "string list \<Rightarrow> string" where
  "unlines ls = concat (map (\<lambda>l. l @ [nl]) ls)"

lemma unlines_simps [simp]: "unlines [] = []" "unlines (l # ls) = l @ nl # unlines ls"
  by (simp_all add: unlines_def)

lemma unlines_append [simp]: "unlines (ls @ ks) = unlines ls @ unlines ks"
  by (simp add: unlines_def)

lemma buf_lines_Nil [simp]: "buf_lines [] = []"
  by (simp add: buf_lines_def)

lemma buf_lines_unlines: "\<forall>l\<in>set ls. one_line l \<Longrightarrow> buf_lines (unlines ls) = map Inr ls"
  by (induction ls) (auto simp: buf_lines_cons)

text \<open>A last line without a newline, as an interrupted write leaves it.\<close>

lemma raw_lines_torn: "nl \<notin> set t \<Longrightarrow> t \<noteq> [] \<Longrightarrow> raw_lines t = [(t, False)]"
proof (induction t)
  case (Cons x t)
  then show ?case by (cases "t = []") auto
qed simp

lemma buf_lines_torn:
  assumes "\<forall>l\<in>set ls. one_line l" "nl \<notin> set t" "t \<noteq> []"
  shows "buf_lines (unlines ls @ t) =
    map Inr ls @ [if utf8_valid t then Inr t else Inl invalid_utf8]"
  using assms
  by (induction ls) (auto simp: buf_lines_cons, auto simp: buf_lines_def raw_lines_torn strip_line_def)

text \<open>
  A value whose compact JSON is one line that is not blank and reads back as the value;
  \<open>to_json\<close> is \<open>serde_json::to_string\<close> and \<open>of_json\<close> is \<open>serde_json::from_str\<close>.
\<close>

definition json_ok :: "('a \<Rightarrow> string res) \<Rightarrow> (string \<Rightarrow> 'a res) \<Rightarrow> 'a \<Rightarrow> bool" where
  "json_ok to_json of_json r \<longleftrightarrow>
     (\<exists>j. to_json r = Inr j \<and> one_line j \<and> \<not> blank j \<and> of_json j = Inr r)"

definition json_text :: "('a \<Rightarrow> string res) \<Rightarrow> 'a \<Rightarrow> string" where
  "json_text to_json r = (case to_json r of Inl _ \<Rightarrow> [] | Inr j \<Rightarrow> j)"

lemma json_okD:
  assumes "json_ok to_json of_json r"
  shows "to_json r = Inr (json_text to_json r)" "one_line (json_text to_json r)"
    "\<not> blank (json_text to_json r)" "of_json (json_text to_json r) = Inr r"
  using assms by (auto simp: json_ok_def json_text_def)

lemma buf_lines_json:
  assumes "\<forall>r\<in>set rs. json_ok to_json of_json r"
  shows "buf_lines (unlines (map (json_text to_json) rs)) = map (Inr \<circ> json_text to_json) rs"
proof -
  have "\<forall>l\<in>set (map (json_text to_json) rs). one_line l" using assms json_okD(2) by fastforce
  from buf_lines_unlines [OF this] show ?thesis by simp
qed

section \<open>Buffered writer\<close>

text \<open>
  \<open>BufWriter<File>\<close> with its default capacity. \<open>buf\<close> holds the bytes not yet handed to
  the file. A failed flush keeps the bytes that did not reach the file.
\<close>

definition buf_capacity :: nat where "buf_capacity = 8192"

record bufwriter =
  bw_path :: string
  bw_buf :: string

definition bw_new :: "string \<Rightarrow> bufwriter" where
  "bw_new p = \<lparr>bw_path = p, bw_buf = []\<rparr>"

definition bw_flush_buf :: "bufwriter \<Rightarrow> fs \<Rightarrow> unit res \<times> bufwriter \<times> fs" where
  "bw_flush_buf bw w =
     (if bw_buf bw = [] then (Inr (), bw, w)
      else case fs_next w of
        (Io_ok, _) \<Rightarrow>
          (case fs_append (bw_path bw) (bw_buf bw) w of (r, w') \<Rightarrow> (r, bw\<lparr>bw_buf := []\<rparr>, w'))
      | (Io_err _ k, _) \<Rightarrow>
          (case fs_append (bw_path bw) (bw_buf bw) w of (r, w') \<Rightarrow>
             (r, bw\<lparr>bw_buf := drop k (bw_buf bw)\<rparr>, w')))"

definition bw_write_all :: "string \<Rightarrow> bufwriter \<Rightarrow> fs \<Rightarrow> unit res \<times> bufwriter \<times> fs" where
  "bw_write_all data bw w =
     (if length data < buf_capacity - length (bw_buf bw)
      then (Inr (), bw\<lparr>bw_buf := bw_buf bw @ data\<rparr>, w)
      else
        case (if buf_capacity - length (bw_buf bw) < length data
              then bw_flush_buf bw w else (Inr (), bw, w)) of
          (Inl e, bw', w') \<Rightarrow> (Inl e, bw', w')
        | (Inr _, bw', w') \<Rightarrow>
            if buf_capacity \<le> length data
            then case fs_append (bw_path bw') data w' of (r, w'') \<Rightarrow> (r, bw', w'')
            else (Inr (), bw'\<lparr>bw_buf := bw_buf bw' @ data\<rparr>, w'))"

definition bw_flush :: "bufwriter \<Rightarrow> fs \<Rightarrow> unit res \<times> bufwriter \<times> fs" where
  "bw_flush bw w = bw_flush_buf bw w"

lemmas bw_defs = bw_flush_buf_def bw_write_all_def bw_flush_def

text \<open>What the reader would see if the buffer reached the file.\<close>

definition bw_contents :: "bufwriter \<Rightarrow> fs \<Rightarrow> string" where
  "bw_contents bw w = (case files w (bw_path bw) of None \<Rightarrow> [] | Some c \<Rightarrow> c) @ bw_buf bw"

text \<open>Without failures a write extends these contents and a flush empties the buffer.\<close>

lemma bw_write_all_quiet:
  assumes "script w = []" "files w (bw_path bw) \<noteq> None"
  shows "\<exists>bw' w'. bw_write_all data bw w = (Inr (), bw', w') \<and> script w' = [] \<and>
    bw_path bw' = bw_path bw \<and> files w' (bw_path bw) \<noteq> None \<and>
    bw_contents bw' w' = bw_contents bw w @ data \<and>
    (\<forall>q. q \<noteq> bw_path bw \<longrightarrow> files w' q = files w q)"
  using assms by (cases "bw_buf bw") (auto simp: bw_defs fs_append_def bw_contents_def buf_capacity_def)

lemma bw_flush_quiet:
  assumes "script w = []" "files w (bw_path bw) \<noteq> None"
  shows "\<exists>bw' w'. bw_flush bw w = (Inr (), bw', w') \<and> script w' = [] \<and>
    bw_path bw' = bw_path bw \<and> bw_buf bw' = [] \<and>
    files w' (bw_path bw) = Some (bw_contents bw w) \<and>
    (\<forall>q. q \<noteq> bw_path bw \<longrightarrow> files w' q = files w q)"
  using assms by (auto simp: bw_defs fs_append_def bw_contents_def buf_capacity_def)

end
