(* ===== verification/Registry.thy ===== *)
theory Registry
  imports Attestation Privilege Filesystem
begin

text \<open>
  The agent registry, \<open>crates/core/mesh/src/identity/registry.rs\<close>: the trait
  \<open>AgentRegistry\<close> as a record of operations over a state, its contract as the locale
  \<open>agent_registry\<close>, and the implementations \<open>MemoryAgentRegistry\<close> and
  \<open>FileAgentRegistry\<close>, which interpret it. An attestation is issued from two readings of
  the clock, the pair the operation takes. The JSON form of a registry record is a parameter.
\<close>

section \<open>The trait and its contract\<close>

type_synonym readings = "datetime \<times> datetime"

record 'r registry_ops =
  reg_register :: "'r \<Rightarrow> agent_identity \<Rightarrow> privilege_ring \<Rightarrow> unit res \<times> 'r"
  reg_get_attestation :: "readings \<Rightarrow> 'r \<Rightarrow> string \<Rightarrow> signed_attestation option res \<times> 'r"
  reg_get_ring :: "'r \<Rightarrow> string \<Rightarrow> privilege_ring option res \<times> 'r"
  reg_is_registered :: "'r \<Rightarrow> string \<Rightarrow> bool res \<times> 'r"

type_synonym entries = "string \<rightharpoonup> string \<times> privilege_ring"

type_synonym registry_record = "agent_identity \<times> privilege_ring"

text \<open>The entries that a sequence of registrations leaves.\<close>

definition entry_of :: "registry_record \<Rightarrow> string \<times> string \<times> privilege_ring" where
  "entry_of rec = (did_display (ai_did (fst rec)), ai_public_key (fst rec), snd rec)"

definition replay :: "registry_record list \<Rightarrow> entries" where
  "replay recs = map_of (rev (map entry_of recs))"

lemma replay_simps [simp]:
  "replay [] = Map.empty"
  "replay (recs @ [(i, r)]) = (replay recs)(did_display (ai_did i) \<mapsto> (ai_public_key i, r))"
  by (simp_all add: replay_def entry_of_def)

lemma replay_append: "replay (recs @ recs') = replay recs ++ replay recs'"
  by (simp add: replay_def)

lemma map_add_replay_Cons [simp]:
  "m ++ replay ((i, r) # recs) = m(did_display (ai_did i) \<mapsto> (ai_public_key i, r)) ++ replay recs"
  by (simp add: replay_def entry_of_def map_add_assoc)

text \<open>A call of the trait, its effect on the registry, and that of a sequence of calls.\<close>

datatype registry_request =
    Register agent_identity privilege_ring
  | Get_attestation readings string
  | Get_ring string
  | Is_registered string

fun registry_call :: "'r registry_ops \<Rightarrow> registry_request \<Rightarrow> 'r \<Rightarrow> 'r" where
  "registry_call R (Register i r) s = snd (reg_register R s i r)"
| "registry_call R (Get_attestation t d) s = snd (reg_get_attestation R t s d)"
| "registry_call R (Get_ring d) s = snd (reg_get_ring R s d)"
| "registry_call R (Is_registered d) s = snd (reg_is_registered R s d)"

definition registry_calls :: "'r registry_ops \<Rightarrow> registry_request list \<Rightarrow> 'r \<Rightarrow> 'r" where
  "registry_calls R cs s = fold (registry_call R) cs s"

fun registrations :: "registry_request list \<Rightarrow> registry_record list" where
  "registrations [] = []"
| "registrations (Register i r # cs) = (i, r) # registrations cs"
| "registrations (c # cs) = registrations cs"

lemma registrations_append [simp]: "registrations (cs @ cs') = registrations cs @ registrations cs'"
  by (induction cs rule: registrations.induct) simp_all

text \<open>
  What the lookups of a DID say in the state \<open>s\<close>, when the registry's own key is \<open>key\<close>: the key
  and the ring \<open>e\<close> on record, the key in an attestation that verifies for 24 hours.
\<close>

definition looks_up ::
  "ext \<Rightarrow> claim_json \<Rightarrow> 'r registry_ops \<Rightarrow> signing_key \<Rightarrow> 'r \<Rightarrow> string \<Rightarrow> string \<times> privilege_ring \<Rightarrow> bool" where
  "looks_up X J R key s d e \<longleftrightarrow>
     fst (reg_get_ring R s d) = Inr (Some (snd e)) \<and> fst (reg_is_registered R s d) = Inr True \<and>
     (\<forall>t. \<exists>a. fst (reg_get_attestation R t s d) = Inr (Some a) \<and> ac_subject_did (sa_claim a) = d \<and>
        ac_public_key_b64 (sa_claim a) = fst e \<and>
        (\<forall>now. now \<le> dt_add X (snd t) (hours 24) \<longrightarrow>
           sa_verify X J now a (b64_encode X (public_bytes X key)) = Inr ()))"

text \<open>
  \<open>entries s\<close> are the keys and rings on record, \<open>usable s\<close> says that operations do not
  fail, \<open>rkey s\<close> and \<open>rdid s\<close> are the registry's own key and DID, which never change.
\<close>

locale agent_registry =
  fixes R :: "'r registry_ops"
    and X :: ext and J :: claim_json
    and entries :: "'r \<Rightarrow> entries"
    and usable :: "'r \<Rightarrow> bool"
    and rkey :: "'r \<Rightarrow> signing_key" and rdid :: "'r \<Rightarrow> string"
  assumes register: "usable s \<Longrightarrow> \<exists>s'. reg_register R s i r = (Inr (), s') \<and> usable s' \<and>
      entries s' = (entries s)(did_display (ai_did i) \<mapsto> (ai_public_key i, r))"
    and get_attestation: "usable s \<Longrightarrow> reg_get_attestation R t s d =
      (Inr (map_option (\<lambda>e. issue_attestation X J (rkey s) (rdid s) t d (fst e)) (entries s d)), s)"
    and get_ring: "usable s \<Longrightarrow> reg_get_ring R s d = (Inr (map_option snd (entries s d)), s)"
    and is_registered: "usable s \<Longrightarrow> reg_is_registered R s d = (Inr (entries s d \<noteq> None), s)"
    and register_key: "reg_register R s i r = (res, s') \<Longrightarrow> rkey s' = rkey s \<and> rdid s' = rdid s"
begin

lemmas registry_reads = get_attestation get_ring is_registered

lemma registerE:
  assumes "usable s" "reg_register R s i r = (res, s')"
  obtains "res = Inr ()" "usable s'" "rkey s' = rkey s" "rdid s' = rdid s"
    "entries s' = (entries s)(did_display (ai_did i) \<mapsto> (ai_public_key i, r))"
  using register [OF assms(1), of i r] register_key [OF assms(2)] assms(2) by auto

lemma lookup_after_register:
  assumes "usable s" "reg_register R s i r = (res, s')"
  shows "fst (reg_get_ring R s' d) =
      Inr (if d = did_display (ai_did i) then Some r else map_option snd (entries s d))"
    and "fst (reg_is_registered R s' d) = Inr (d = did_display (ai_did i) \<or> entries s d \<noteq> None)"
  by (rule registerE [OF assms]; simp add: registry_reads)+

lemma attested_key:
  assumes "usable s" "reg_get_attestation R t s d = (Inr (Some a), s')"
  shows "entries s d \<noteq> None" "s' = s"
    "ac_public_key_b64 (sa_claim a) = fst (the (entries s d))" "ac_subject_did (sa_claim a) = d"
  using assms by (auto simp: get_attestation)

lemma attestation_verifies:
  assumes "usable s" "crypto_ok X" "entries s d = Some (pk, r)"
    and "now \<le> dt_add X (snd t) (hours 24)"
  shows "\<exists>a. reg_get_attestation R t s d = (Inr (Some a), s) \<and> ac_public_key_b64 (sa_claim a) = pk \<and>
    sa_verify X J now a (b64_encode X (public_bytes X (rkey s))) = Inr ()"
  using assms by (simp add: get_attestation sa_verify_ok_iff issued_signed_by)

lemma attestation_after_register:
  assumes "usable s" "crypto_ok X" "reg_register R s i r = (res, s')"
    and "now \<le> dt_add X (snd t) (hours 24)"
  shows "\<exists>a. fst (reg_get_attestation R t s' (did_display (ai_did i))) = Inr (Some a) \<and>
    ac_public_key_b64 (sa_claim a) = ai_public_key i \<and>
    sa_verify X J now a (b64_encode X (public_bytes X (rkey s))) = Inr ()"
proof (rule registerE [OF assms(1,3)])
  assume s': "usable s'" "rkey s' = rkey s"
    and "entries s' = (entries s)(did_display (ai_did i) \<mapsto> (ai_public_key i, r))"
  then have "entries s' (did_display (ai_did i)) = Some (ai_public_key i, r)" by simp
  from attestation_verifies [OF s'(1) assms(2) this assms(4)] s'(2) show ?thesis by auto
qed

lemma registry_call:
  assumes "usable s"
  shows "usable (registry_call R c s) \<and> entries (registry_call R c s) = entries s ++ replay (registrations [c]) \<and>
    rkey (registry_call R c s) = rkey s \<and> rdid (registry_call R c s) = rdid s"
proof (cases c)
  case (Register i r)
  obtain res s' where "reg_register R s i r = (res, s')" by fastforce
  with Register show ?thesis by (auto elim!: registerE [OF assms])
qed (use assms in \<open>simp_all add: registry_reads\<close>)

lemma registry_calls:
  "usable s \<Longrightarrow> usable (registry_calls R cs s) \<and>
     entries (registry_calls R cs s) = entries s ++ replay (registrations cs) \<and>
     rkey (registry_calls R cs s) = rkey s \<and> rdid (registry_calls R cs s) = rdid s"
proof (induction cs rule: rev_induct)
  case (snoc c cs)
  then have "usable (registry_calls R cs s)" by blast
  from registry_call [OF this, of c] snoc show ?case by (simp add: registry_calls_def replay_append)
qed (simp add: registry_calls_def)

lemma looks_up_entry:
  assumes "usable s" "crypto_ok X" "entries s d = Some e"
  shows "looks_up X J R (rkey s) s d e"
  using assms by (simp add: looks_up_def registry_reads sa_verify_ok_iff issued_signed_by)

text \<open>
  After any calls: every DID is looked up as it was registered last, one that was not as before,
  and a further registration is accepted.
\<close>

lemma lookups_after_calls:
  assumes "usable s" "crypto_ok X"
  shows "case replay (registrations cs) d of
      Some e \<Rightarrow> looks_up X J R (rkey s) (registry_calls R cs s) d e
    | None \<Rightarrow> fst (reg_get_ring R (registry_calls R cs s) d) = fst (reg_get_ring R s d) \<and>
        fst (reg_is_registered R (registry_calls R cs s) d) = fst (reg_is_registered R s d) \<and>
        fst (reg_get_attestation R t (registry_calls R cs s) d) = fst (reg_get_attestation R t s d)"
    and "fst (reg_register R (registry_calls R cs s) i r) = Inr ()"
proof -
  have s': "usable (registry_calls R cs s)" "rkey (registry_calls R cs s) = rkey s"
    "rdid (registry_calls R cs s) = rdid s"
    "entries (registry_calls R cs s) = entries s ++ replay (registrations cs)"
    using registry_calls [OF assms(1), of cs] by blast+
  with looks_up_entry [OF s'(1) assms(2), of d] assms(1) show "case replay (registrations cs) d of
      Some e \<Rightarrow> looks_up X J R (rkey s) (registry_calls R cs s) d e
    | None \<Rightarrow> fst (reg_get_ring R (registry_calls R cs s) d) = fst (reg_get_ring R s d) \<and>
        fst (reg_is_registered R (registry_calls R cs s) d) = fst (reg_is_registered R s d) \<and>
        fst (reg_get_attestation R t (registry_calls R cs s) d) = fst (reg_get_attestation R t s d)"
    by (auto simp: registry_reads map_add_def split: option.split)
  show "fst (reg_register R (registry_calls R cs s) i r) = Inr ()"
    using register [OF s'(1), of i r] by auto
qed

end

section \<open>\<open>MemoryAgentRegistry\<close>\<close>

record memory_registry =
  mr_entries :: entries
  mr_poisoned :: bool
  mr_identity :: signing_key
  mr_did :: string

definition mr_new :: "signing_key \<Rightarrow> string \<Rightarrow> memory_registry" where
  "mr_new registry_identity registry_did =
     \<lparr>mr_entries = Map.empty, mr_poisoned = False,
      mr_identity = registry_identity, mr_did = registry_did\<rparr>"

definition mr_register ::
  "memory_registry \<Rightarrow> agent_identity \<Rightarrow> privilege_ring \<Rightarrow> unit res \<times> memory_registry" where
  "mr_register s identity ring =
     (if mr_poisoned s then (Inl lock_poisoned, s)
      else (Inr (), s\<lparr>mr_entries :=
             (mr_entries s)(did_display (ai_did identity) \<mapsto> (ai_public_key identity, ring))\<rparr>))"

definition mr_get_attestation ::
  "ext \<Rightarrow> claim_json \<Rightarrow> readings \<Rightarrow> memory_registry \<Rightarrow> string \<Rightarrow>
     signed_attestation option res \<times> memory_registry" where
  "mr_get_attestation X J t s did =
     (if mr_poisoned s then (Inl lock_poisoned, s)
      else case mr_entries s did of
        None \<Rightarrow> (Inr None, s)
      | Some (pubkey_b64, _) \<Rightarrow>
          (Inr (Some (issue_attestation X J (mr_identity s) (mr_did s) t did pubkey_b64)), s))"

definition mr_get_ring ::
  "memory_registry \<Rightarrow> string \<Rightarrow> privilege_ring option res \<times> memory_registry" where
  "mr_get_ring s did =
     (if mr_poisoned s then (Inl lock_poisoned, s) else (Inr (map_option snd (mr_entries s did)), s))"

definition mr_is_registered :: "memory_registry \<Rightarrow> string \<Rightarrow> bool res \<times> memory_registry" where
  "mr_is_registered s did =
     (if mr_poisoned s then (Inl lock_poisoned, s) else (Inr (mr_entries s did \<noteq> None), s))"

definition memory_registry_ops :: "ext \<Rightarrow> claim_json \<Rightarrow> memory_registry registry_ops" where
  "memory_registry_ops X J = \<lparr>reg_register = mr_register,
     reg_get_attestation = mr_get_attestation X J,
     reg_get_ring = mr_get_ring, reg_is_registered = mr_is_registered\<rparr>"

lemmas mr_defs = mr_register_def mr_get_attestation_def mr_get_ring_def mr_is_registered_def

interpretation mr: agent_registry "memory_registry_ops X J" X J mr_entries
    "\<lambda>s. \<not> mr_poisoned s" mr_identity mr_did
  for X J
  by unfold_locales
    (auto simp: memory_registry_ops_def mr_defs split: option.splits prod.splits if_splits)

section \<open>\<open>FileAgentRegistry\<close>\<close>

record registry_codec =
  rr_to_json :: "registry_record \<Rightarrow> string res"
  rr_of_json :: "string \<Rightarrow> registry_record res"

record file_registry =
  fr_path :: string
  fr_memory :: memory_registry
  fr_fs :: fs

fun fr_load_lines :: "registry_codec \<Rightarrow> string res list \<Rightarrow> entries \<Rightarrow> entries res" where
  "fr_load_lines C [] m = Inr m"
| "fr_load_lines C (Inl e # ls) m = Inl e"
| "fr_load_lines C (Inr line # ls) m =
     (if blank line then fr_load_lines C ls m
      else case rr_of_json C line of
        Inl e \<Rightarrow> Inl e
      | Inr (identity, ring) \<Rightarrow>
          fr_load_lines C ls (m(did_display (ai_did identity) \<mapsto> (ai_public_key identity, ring))))"

definition fr_open ::
  "registry_codec \<Rightarrow> string \<Rightarrow> signing_key \<Rightarrow> string \<Rightarrow> fs \<Rightarrow> file_registry res \<times> fs" where
  "fr_open C path registry_identity registry_did w =
     (let memory = mr_new registry_identity registry_did in
      case fs_exists path w of
        (False, w1) \<Rightarrow> (Inr \<lparr>fr_path = path, fr_memory = memory, fr_fs = w1\<rparr>, w1)
      | (True, w1) \<Rightarrow>
          (case fs_read path w1 of
             (Inl e, w2) \<Rightarrow> (Inl e, w2)
           | (Inr content, w2) \<Rightarrow>
               (case fr_load_lines C (buf_lines content) (mr_entries memory) of
                  Inl e \<Rightarrow> (Inl e, w2)
                | Inr m \<Rightarrow>
                    (Inr \<lparr>fr_path = path, fr_memory = memory\<lparr>mr_entries := m\<rparr>, fr_fs = w2\<rparr>, w2))))"

definition fr_register ::
  "registry_codec \<Rightarrow> file_registry \<Rightarrow> agent_identity \<Rightarrow> privilege_ring \<Rightarrow> unit res \<times> file_registry" where
  "fr_register C s identity ring =
     (case mr_register (fr_memory s) identity ring of
        (Inl e, m) \<Rightarrow> (Inl e, s\<lparr>fr_memory := m\<rparr>)
      | (Inr _, m) \<Rightarrow>
          let s1 = s\<lparr>fr_memory := m\<rparr> in
          (case rr_to_json C (identity, ring) of
             Inl e \<Rightarrow> (Inl e, s1)
           | Inr json \<Rightarrow>
               (case fs_open_append (fr_path s) (fr_fs s1) of
                  (Inl e, w) \<Rightarrow> (Inl e, s1\<lparr>fr_fs := w\<rparr>)
                | (Inr _, w) \<Rightarrow>
                    (case fs_append (fr_path s) json w of
                       (Inl e, w') \<Rightarrow> (Inl e, s1\<lparr>fr_fs := w'\<rparr>)
                     | (Inr _, w') \<Rightarrow>
                         (case fs_append (fr_path s) [nl] w' of
                            (r, w'') \<Rightarrow> (r, s1\<lparr>fr_fs := w''\<rparr>))))))"

definition fr_get_attestation ::
  "ext \<Rightarrow> claim_json \<Rightarrow> readings \<Rightarrow> file_registry \<Rightarrow> string \<Rightarrow>
     signed_attestation option res \<times> file_registry" where
  "fr_get_attestation X J t s did =
     (case mr_get_attestation X J t (fr_memory s) did of (r, m) \<Rightarrow> (r, s\<lparr>fr_memory := m\<rparr>))"

definition fr_get_ring :: "file_registry \<Rightarrow> string \<Rightarrow> privilege_ring option res \<times> file_registry" where
  "fr_get_ring s did = (case mr_get_ring (fr_memory s) did of (r, m) \<Rightarrow> (r, s\<lparr>fr_memory := m\<rparr>))"

definition fr_is_registered :: "file_registry \<Rightarrow> string \<Rightarrow> bool res \<times> file_registry" where
  "fr_is_registered s did =
     (case mr_is_registered (fr_memory s) did of (r, m) \<Rightarrow> (r, s\<lparr>fr_memory := m\<rparr>))"

definition file_registry_ops :: "ext \<Rightarrow> claim_json \<Rightarrow> registry_codec \<Rightarrow> file_registry registry_ops" where
  "file_registry_ops X J C = \<lparr>reg_register = fr_register C,
     reg_get_attestation = fr_get_attestation X J,
     reg_get_ring = fr_get_ring, reg_is_registered = fr_is_registered\<rparr>"

lemmas fr_defs = fr_register_def fr_get_attestation_def fr_get_ring_def fr_is_registered_def

text \<open>A file registry does not fail as long as its lock, its disk and its JSON do not.\<close>

definition fr_usable :: "registry_codec \<Rightarrow> file_registry \<Rightarrow> bool" where
  "fr_usable C s \<longleftrightarrow> \<not> mr_poisoned (fr_memory s) \<and> script (fr_fs s) = [] \<and>
     (\<forall>r. is_ok (rr_to_json C r))"

interpretation fr: agent_registry "file_registry_ops X J C" X J
    "\<lambda>s. mr_entries (fr_memory s)" "fr_usable C"
    "\<lambda>s. mr_identity (fr_memory s)" "\<lambda>s. mr_did (fr_memory s)"
  for X J C
proof unfold_locales
  fix s :: file_registry and i r
  assume u: "fr_usable C s"
  then obtain j where "rr_to_json C (i, r) = Inr j"
    by (metis fr_usable_def is_ok_simps(1) sum.exhaust)
  with u show "\<exists>s'. reg_register (file_registry_ops X J C) s i r = (Inr (), s') \<and> fr_usable C s' \<and>
      mr_entries (fr_memory s') =
      (mr_entries (fr_memory s))(did_display (ai_did i) \<mapsto> (ai_public_key i, r))"
    by (simp add: file_registry_ops_def fr_defs fr_usable_def mr_defs fs_defs Let_def)
next
  fix s s' :: file_registry and i r res
  assume "reg_register (file_registry_ops X J C) s i r = (res, s')"
  then show "mr_identity (fr_memory s') = mr_identity (fr_memory s) \<and>
      mr_did (fr_memory s') = mr_did (fr_memory s)"
    by (auto simp: file_registry_ops_def fr_defs mr_defs Let_def
        split: if_splits sum.splits prod.splits)
qed (auto simp: file_registry_ops_def fr_defs fr_usable_def mr_defs split: option.splits)

section \<open>What the file holds\<close>

lemma fold_mr_register:
  "\<not> mr_poisoned m \<Longrightarrow>
     mr_entries (fold (\<lambda>(i, r) m. snd (mr_register m i r)) recs m) = mr_entries m ++ replay recs"
proof (induction recs arbitrary: m)
  case (Cons rec recs)
  obtain i r where rec: "rec = (i, r)" by (cases rec)
  let ?m = "snd (mr_register m i r)"
  have "\<not> mr_poisoned ?m"
    and e: "mr_entries ?m = (mr_entries m)(did_display (ai_did i) \<mapsto> (ai_public_key i, r))"
    using Cons.prems by (simp_all add: mr_register_def)
  from Cons.IH [OF this(1)] rec e show ?case by (simp add: fun_upd_def)
qed simp

lemma fr_load_lines_json:
  assumes "\<forall>r\<in>set recs. json_ok (rr_to_json C) (rr_of_json C) r"
  shows "fr_load_lines C (map (Inr \<circ> json_text (rr_to_json C)) recs) m = Inr (m ++ replay recs)"
  using assms
proof (induction recs arbitrary: m)
  case (Cons rec recs)
  obtain i r where rec: "rec = (i, r)" by (cases rec)
  have ok: "json_ok (rr_to_json C) (rr_of_json C) rec" using Cons.prems by simp
  with Cons.IH Cons.prems json_okD [OF ok] rec show ?case by simp
qed simp

text \<open>The registry is in step with its file, which holds the registrations \<open>recs\<close>.\<close>

definition fr_synced :: "registry_codec \<Rightarrow> registry_record list \<Rightarrow> file_registry \<Rightarrow> bool" where
  "fr_synced C recs s \<longleftrightarrow>
     (\<forall>r\<in>set recs. json_ok (rr_to_json C) (rr_of_json C) r) \<and>
     (case files (fr_fs s) (fr_path s) of None \<Rightarrow> [] | Some c \<Rightarrow> c) =
       unlines (map (json_text (rr_to_json C)) recs) \<and>
     mr_entries (fr_memory s) = replay recs \<and>
     \<not> mr_poisoned (fr_memory s) \<and> script (fr_fs s) = []"

lemma fr_synced_new:
  assumes "files w path = None" "script w = []"
  shows "\<exists>s w'. fr_open C path k d w = (Inr s, w') \<and> fr_synced C [] s \<and> fr_path s = path \<and>
    mr_identity (fr_memory s) = k \<and> mr_did (fr_memory s) = d"
  using assms by (simp add: fr_open_def fs_defs fr_synced_def Let_def mr_new_def)

lemma fr_synced_register:
  assumes "fr_synced C recs s" "json_ok (rr_to_json C) (rr_of_json C) (i, r)"
  shows "\<exists>s'. fr_register C s i r = (Inr (), s') \<and> fr_synced C (recs @ [(i, r)]) s' \<and>
    fr_path s' = fr_path s"
  using assms json_okD [OF assms(2)]
  by (auto simp: fr_synced_def fr_register_def mr_register_def fs_defs Let_def split: option.splits)

lemma fr_synced_open:
  assumes "fr_synced C recs s" "fr_path s = path"
  shows "\<exists>s' w'. fr_open C path k d (fr_fs s) = (Inr s', w') \<and> fr_synced C recs s' \<and>
    mr_entries (fr_memory s') = mr_entries (fr_memory s)"
proof (cases "files (fr_fs s) path")
  case None
  with assms have "recs = []" by (cases recs) (auto simp: fr_synced_def)
  with None assms show ?thesis by (simp add: fr_open_def fr_synced_def fs_defs Let_def mr_new_def)
next
  case (Some c)
  with assms have c: "c = unlines (map (json_text (rr_to_json C)) recs)"
    and ok: "\<forall>r\<in>set recs. json_ok (rr_to_json C) (rr_of_json C) r"
    by (simp_all add: fr_synced_def)
  have "fr_load_lines C (buf_lines c) Map.empty = Inr (replay recs)"
    using fr_load_lines_json [OF ok, of Map.empty] buf_lines_json [OF ok] c by simp
  with Some assms show ?thesis
    by (simp add: fr_open_def fr_synced_def fs_defs Let_def mr_new_def)
qed

fun fr_register_all ::
  "registry_codec \<Rightarrow> registry_record list \<Rightarrow> file_registry \<Rightarrow> unit res \<times> file_registry" where
  "fr_register_all C [] s = (Inr (), s)"
| "fr_register_all C ((i, r) # recs) s =
     (case fr_register C s i r of
        (Inl e, s') \<Rightarrow> (Inl e, s') | (Inr _, s') \<Rightarrow> fr_register_all C recs s')"

lemma fr_synced_register_all:
  "fr_synced C recs s \<Longrightarrow> \<forall>r\<in>set rs. json_ok (rr_to_json C) (rr_of_json C) r \<Longrightarrow>
   \<exists>s'. fr_register_all C rs s = (Inr (), s') \<and> fr_synced C (recs @ rs) s' \<and> fr_path s' = fr_path s"
proof (induction rs arbitrary: recs s)
  case (Cons rec rs)
  obtain i r where rec: "rec = (i, r)" by (cases rec)
  obtain s1 where s1: "fr_register C s i r = (Inr (), s1)" "fr_synced C (recs @ [(i, r)]) s1"
      "fr_path s1 = fr_path s"
    using fr_synced_register [OF Cons.prems(1), of i r] Cons.prems(2) rec by auto
  from Cons.IH [OF s1(2)] Cons.prems(2) s1 rec show ?case by auto
qed simp

section \<open>Properties\<close>

text \<open>
  C17: a registration is looked up ever after, in memory or in a file. After any sequence of calls,
  registrations and lookups in any order, every later lookup of a DID that was registered among
  them gives the ring it was registered with last and that the DID is registered, and its public
  key is attested, for that DID, by an attestation that verifies for 24 hours under the
  registry's own key; a DID not registered among them is looked up as before the calls, and the
  next registration is accepted as well.
\<close>

theorem registration_is_looked_up:
  assumes "crypto_ok X" and "\<not> mr_poisoned m" and "fr_usable C f"
    and "M = memory_registry_ops X J" and "F = file_registry_ops X J C"
    and "m' = registry_calls M cs m" and "f' = registry_calls F cs f"
  shows "(case replay (registrations cs) d of
      Some e \<Rightarrow> looks_up X J M (mr_identity m) m' d e \<and> looks_up X J F (mr_identity (fr_memory f)) f' d e
    | None \<Rightarrow> fst (reg_get_ring M m' d) = fst (reg_get_ring M m d) \<and>
        fst (reg_is_registered M m' d) = fst (reg_is_registered M m d) \<and>
        fst (reg_get_attestation M t m' d) = fst (reg_get_attestation M t m d) \<and>
        fst (reg_get_ring F f' d) = fst (reg_get_ring F f d) \<and>
        fst (reg_is_registered F f' d) = fst (reg_is_registered F f d) \<and>
        fst (reg_get_attestation F t f' d) = fst (reg_get_attestation F t f d)) \<and>
    fst (reg_register M m' i r) = Inr () \<and> fst (reg_register F f' i r) = Inr ()"
  using mr.lookups_after_calls(1) [OF assms(2,1), of J cs d t] fr.lookups_after_calls(1) [OF assms(3,1), of J cs d t]
    mr.lookups_after_calls(2) [OF assms(2,1), of J cs i r] fr.lookups_after_calls(2) [OF assms(3,1), of J cs i r]
  unfolding assms(4-7) by (auto split: option.splits)

text \<open>
  C16: a file registry refines the registry in memory across restarts. Opened on a path that
  does not exist and given any sequence of registrations, it accepts them all; opening the
  same path again, with any key, yields a registry with the same entries, the ones a memory
  registry has after the same registrations.
\<close>

theorem file_registry_survives_restart:
  assumes "files w path = None" and "script w = []"
    and "\<forall>rec\<in>set recs. json_ok (rr_to_json C) (rr_of_json C) rec"
  shows "\<exists>s w' s1 s2 w2. fr_open C path k d w = (Inr s, w') \<and>
    fr_register_all C recs s = (Inr (), s1) \<and>
    fr_open C path k2 d2 (fr_fs s1) = (Inr s2, w2) \<and>
    mr_entries (fr_memory s2) = mr_entries (fr_memory s1) \<and>
    mr_entries (fr_memory s1) =
      mr_entries (fold (\<lambda>(i, r) m. snd (mr_register m i r)) recs (mr_new k d))"
proof -
  obtain s w' where s: "fr_open C path k d w = (Inr s, w')" "fr_synced C [] s" "fr_path s = path"
    using fr_synced_new [OF assms(1,2)] by blast
  obtain s1 where s1: "fr_register_all C recs s = (Inr (), s1)" "fr_synced C recs s1" "fr_path s1 = path"
    using fr_synced_register_all [OF s(2) assms(3)] s(3) by auto
  obtain s2 w2 where s2: "fr_open C path k2 d2 (fr_fs s1) = (Inr s2, w2)"
      "mr_entries (fr_memory s2) = mr_entries (fr_memory s1)"
    using fr_synced_open [OF s1(2,3)] by blast
  have "mr_entries (fr_memory s1) =
      mr_entries (fold (\<lambda>(i, r) m. snd (mr_register m i r)) recs (mr_new k d))"
    using fold_mr_register [of "mr_new k d" recs] s1(2) by (simp add: mr_new_def fr_synced_def)
  with s(1) s1(1) s2 show ?thesis by blast
qed

definition sample_identity :: "string \<Rightarrow> string \<Rightarrow> agent_identity" where
  "sample_identity name pk = \<lparr>ai_did = \<lparr>did_method = ''mesh'', did_unique_id = name\<rparr>, ai_name = name,
     ai_public_key = pk, ai_sponsor_email = ''s'', ai_capabilities = [], ai_status = ''active'',
     ai_parent_did = None, ai_delegation_depth = 0, ai_private_key = None\<rparr>"

definition sample_codec :: registry_codec where
  "sample_codec = \<lparr>rr_to_json = (\<lambda>r. Inr (ai_name (fst r))),
     rr_of_json = (\<lambda>s. Inr (sample_identity s ''pk'', Standard))\<rparr>"

theorem registration_is_looked_up_witness:
  "\<exists>f. let F = file_registry_ops toy_ext ac_subject_did sample_codec;
       f' = registry_calls F [Register (sample_identity ''a'' ''pk'') Standard, Get_ring ''did:mesh:a'',
         Register (sample_identity ''a'' ''pk2'') System, Register (sample_identity ''b'' ''pk'') Sandboxed,
         Get_attestation (0, 0) ''did:mesh:b''] f in
     looks_up toy_ext ac_subject_did F ''rk'' f' ''did:mesh:a'' (''pk2'', System) \<and>
     looks_up toy_ext ac_subject_did F ''rk'' f' ''did:mesh:b'' (''pk'', Sandboxed)"
proof -
  let ?m = "mr_new ''rk'' ''did:mesh:registry''"
  let ?f = "\<lparr>fr_path = ''reg'', fr_memory = ?m, fr_fs = \<lparr>files = Map.empty, script = []\<rparr>\<rparr>"
  let ?cs = "[Register (sample_identity ''a'' ''pk'') Standard, Get_ring ''did:mesh:a'',
    Register (sample_identity ''a'' ''pk2'') System, Register (sample_identity ''b'' ''pk'') Sandboxed,
    Get_attestation (0, 0) ''did:mesh:b'']"
  have m: "\<not> mr_poisoned ?m" by (simp add: mr_new_def)
  have f: "fr_usable sample_codec ?f" by (simp add: fr_usable_def mr_new_def sample_codec_def)
  have key: "mr_identity (fr_memory ?f) = ''rk''" by (simp add: mr_new_def)
  have e: "replay (registrations ?cs) ''did:mesh:a'' = Some (''pk2'', System)"
    "replay (registrations ?cs) ''did:mesh:b'' = Some (''pk'', Sandboxed)"
    by (simp_all add: replay_def entry_of_def sample_identity_def did_display_def)
  note th = registration_is_looked_up [OF crypto_ok_toy m f refl refl refl refl, of ac_subject_did ?cs, unfolded key]
  have "looks_up toy_ext ac_subject_did (file_registry_ops toy_ext ac_subject_did sample_codec) ''rk''
      (registry_calls (file_registry_ops toy_ext ac_subject_did sample_codec) ?cs ?f) d en"
    if "replay (registrations ?cs) d = Some en" for d en
    using th [of d] unfolding that by simp
  from this [OF e(1)] this [OF e(2)] show ?thesis unfolding Let_def by blast
qed

theorem file_registry_survives_restart_witness:
  "\<exists>s w' s1 s2 w2.
     fr_open sample_codec ''reg'' ''k'' ''d'' \<lparr>files = Map.empty, script = []\<rparr> = (Inr s, w') \<and>
     fr_register_all sample_codec [(sample_identity ''a'' ''pk'', Standard)] s = (Inr (), s1) \<and>
     fr_open sample_codec ''reg'' ''other'' ''d'' (fr_fs s1) = (Inr s2, w2) \<and>
     mr_entries (fr_memory s2) ''did:mesh:a'' = Some (''pk'', Standard)"
proof -
  have ok: "\<forall>rec\<in>set [(sample_identity ''a'' ''pk'', Standard)].
      json_ok (rr_to_json sample_codec) (rr_of_json sample_codec) rec"
    by (simp add: json_ok_def sample_codec_def sample_identity_def one_line_def nl_def cr_def byte_in_def)
  let ?w = "\<lparr>files = Map.empty, script = []\<rparr>"
  have w: "files ?w ''reg'' = None" "script ?w = []" by simp_all
  let ?m = "mr_entries (fold (\<lambda>(i, r) m. snd (mr_register m i r))
    [(sample_identity ''a'' ''pk'', Standard)] (mr_new ''k'' ''d''))"
  have m: "?m ''did:mesh:a'' = Some (''pk'', Standard)"
    by (simp add: mr_register_def mr_new_def sample_identity_def did_display_def)
  obtain s w' s1 s2 w2 where "fr_open sample_codec ''reg'' ''k'' ''d'' ?w = (Inr s, w')"
    "fr_register_all sample_codec [(sample_identity ''a'' ''pk'', Standard)] s = (Inr (), s1)"
    "fr_open sample_codec ''reg'' ''other'' ''d'' (fr_fs s1) = (Inr s2, w2)"
    "mr_entries (fr_memory s2) = mr_entries (fr_memory s1)" "mr_entries (fr_memory s1) = ?m"
    using file_registry_survives_restart [OF w ok, of "''k''" "''d''" "''other''" "''d''"] by blast
  with m show ?thesis by metis
qed

text \<open>
  When the write to the registry's file fails, \<open>register\<close> reports the error but the
  registration is in force: the record is updated first and not rolled back, so the registry
  in memory and the file disagree until a restart.
\<close>

theorem failed_register_stays_in_memory:
  assumes "\<not> mr_poisoned (fr_memory s)" and "rr_to_json C (i, r) = Inr json"
    and "script (fr_fs s) = Io_err e k # rest"
  shows "\<exists>s'. fr_register C s i r = (Inl e, s') \<and> files (fr_fs s') = files (fr_fs s) \<and>
    fst (fr_is_registered s' (did_display (ai_did i))) = Inr True \<and>
    fst (fr_get_ring s' (did_display (ai_did i))) = Inr (Some r)"
  using assms
  by (simp add: fr_register_def mr_register_def fs_open_append_def fs_next_def Let_def
      fr_is_registered_def fr_get_ring_def mr_defs)

theorem failed_register_stays_in_memory_witness:
  "\<exists>s s'. fr_register sample_codec s (sample_identity ''a'' ''pk'') System = (Inl ''disk full'', s') \<and>
     fst (fr_get_ring s' ''did:mesh:a'') = Inr (Some System)"
proof -
  let ?s = "\<lparr>fr_path = ''reg'', fr_memory = mr_new ''rk'' ''did:mesh:registry'',
    fr_fs = \<lparr>files = Map.empty, script = [Io_err ''disk full'' 0]\<rparr>\<rparr>"
  have "\<not> mr_poisoned (fr_memory ?s)" "script (fr_fs ?s) = Io_err ''disk full'' 0 # []"
    by (simp_all add: mr_new_def)
  moreover have "rr_to_json sample_codec (sample_identity ''a'' ''pk'', System) = Inr ''a''"
    by (simp add: sample_codec_def sample_identity_def)
  ultimately have "\<exists>s'. fr_register sample_codec ?s (sample_identity ''a'' ''pk'') System =
      (Inl ''disk full'', s') \<and> files (fr_fs s') = files (fr_fs ?s) \<and>
      fst (fr_is_registered s' (did_display (ai_did (sample_identity ''a'' ''pk'')))) = Inr True \<and>
      fst (fr_get_ring s' (did_display (ai_did (sample_identity ''a'' ''pk'')))) = Inr (Some System)"
    by (intro failed_register_stays_in_memory)
  then show ?thesis by (auto simp: sample_identity_def did_display_def)
qed

end
