(* ===== verification/Action_Log.thy ===== *)
theory Action_Log
  imports Privilege Externals Filesystem Keystore
begin

text \<open>
  The action log: \<open>ActionLogRecord\<close> and its hash, \<open>crates/core/mesh/src/audit.rs\<close>, and
  \<open>FileActionLog\<close> of \<open>crates/ext/compliance/src/lib.rs\<close>, an append-only file of JSON lines
  in which every record names the hash of the one before, with a checkpoint file beside it.
  JSON is a parameter (\<open>log_codec\<close>).
\<close>

section \<open>Records\<close>

datatype action_outcome =
    Permitted
  | Denied (denied_rule: string) (denied_reason: string)
  | DiscoveryEventLogged (event_json: string)

record action_log_record =
  al_record_id :: uuid
  al_agent_did :: string
  al_action :: string
  al_resource_category :: data_category
  al_timestamp :: datetime
  al_outcome :: action_outcome
  al_prev_hash :: string

text \<open>What the hash covers: every field but the hash of the previous record.\<close>

record hashable_record =
  hr_record_id :: uuid
  hr_agent_did :: string
  hr_action :: string
  hr_resource_category :: data_category
  hr_timestamp :: datetime
  hr_outcome :: action_outcome

type_synonym checkpoint = "string \<times> nat" \<comment> \<open>\<open>last_hash\<close>, \<open>byte_offset\<close>\<close>

record log_codec =
  lc_hashable :: "hashable_record \<Rightarrow> bytes"
  lc_to_json :: "action_log_record \<Rightarrow> string res"
  lc_of_json :: "string \<Rightarrow> action_log_record res"
  lc_cp_to_json :: "checkpoint \<Rightarrow> string res"
  lc_cp_of_json :: "string \<Rightarrow> checkpoint res"

definition hashable :: "action_log_record \<Rightarrow> hashable_record" where
  "hashable r = \<lparr>hr_record_id = al_record_id r, hr_agent_did = al_agent_did r,
     hr_action = al_action r, hr_resource_category = al_resource_category r,
     hr_timestamp = al_timestamp r, hr_outcome = al_outcome r\<rparr>"

definition canonical_bytes :: "log_codec \<Rightarrow> action_log_record \<Rightarrow> bytes" where
  "canonical_bytes L r = lc_hashable L (hashable r)"

definition compute_hash :: "ext \<Rightarrow> log_codec \<Rightarrow> action_log_record \<Rightarrow> string" where
  "compute_hash X L r = sha256_hex X (canonical_bytes L r)"

lemma compute_hash_prev [simp]: "compute_hash X L (r\<lparr>al_prev_hash := h\<rparr>) = compute_hash X L r"
  by (simp add: compute_hash_def canonical_bytes_def hashable_def)

record action_record =
  ar_action :: string
  ar_timestamp :: datetime
  ar_resource_category :: data_category

record chain_violation =
  cv_index :: nat
  cv_record_id :: uuid
  cv_expected_prev_hash :: string
  cv_actual_prev_hash :: string

section \<open>\<open>FileActionLog\<close>\<close>

record file_action_log =
  fal_path :: string
  fal_checkpoint_path :: string
  fal_writer :: bufwriter
  fal_writer_poisoned :: bool
  fal_last_hash :: string
  fal_last_hash_poisoned :: bool
  fal_fs :: fs

definition genesis :: string where "genesis = ''genesis''"

definition fal_open :: "log_codec \<Rightarrow> string \<Rightarrow> fs \<Rightarrow> file_action_log res \<times> fs" where
  "fal_open L path w =
     (let checkpoint_path = with_extension ''checkpoint'' path;
          finish = (\<lambda>last_hash offset w.
            case fs_open_append path w of
              (Inl e, w') \<Rightarrow> (Inl e, w')
            | (Inr _, w') \<Rightarrow>
                (case (if 0 < offset then fs_next w' else (Io_ok, w')) of
                   (Io_err e _, w'') \<Rightarrow> (Inl e, w'')
                 | (Io_ok, w'') \<Rightarrow>
                     (Inr \<lparr>fal_path = path, fal_checkpoint_path = checkpoint_path,
                        fal_writer = bw_new path, fal_writer_poisoned = False,
                        fal_last_hash = last_hash, fal_last_hash_poisoned = False,
                        fal_fs = w''\<rparr>, w'')))
      in case fs_exists checkpoint_path w of
           (False, w1) \<Rightarrow> finish genesis (0 :: nat) w1
         | (True, w1) \<Rightarrow>
             (case fs_read_to_string checkpoint_path w1 of
                (Inl e, w2) \<Rightarrow> (Inl e, w2)
              | (Inr cp_json, w2) \<Rightarrow>
                  (case lc_cp_of_json L cp_json of
                     Inr cp \<Rightarrow> finish (fst cp) (snd cp) w2
                   | Inl _ \<Rightarrow> finish genesis 0 w2)))"

text \<open>The buffered writes of \<open>append\<close>: the line, the newline, the flush.\<close>

definition write_line :: "string \<Rightarrow> bufwriter \<Rightarrow> fs \<Rightarrow> unit res \<times> bufwriter \<times> fs" where
  "write_line json bw w =
     (case bw_write_all json bw w of
        (Inl e, bw1, w1) \<Rightarrow> (Inl e, bw1, w1)
      | (Inr _, bw1, w1) \<Rightarrow>
          (case bw_write_all [nl] bw1 w1 of
             (Inl e, bw2, w2) \<Rightarrow> (Inl e, bw2, w2)
           | (Inr _, bw2, w2) \<Rightarrow> bw_flush bw2 w2))"

definition fal_append ::
  "ext \<Rightarrow> log_codec \<Rightarrow> file_action_log \<Rightarrow> action_log_record \<Rightarrow> unit res \<times> file_action_log" where
  "fal_append X L s rec0 =
     (if fal_last_hash_poisoned s then (Inl lock_poisoned, s)
      else let rec = rec0\<lparr>al_prev_hash := fal_last_hash s\<rparr> in
        case lc_to_json L rec of
          Inl e \<Rightarrow> (Inl e, s)
        | Inr json \<Rightarrow>
            if fal_writer_poisoned s then (Inl lock_poisoned, s)
            else case write_line json (fal_writer s) (fal_fs s) of
              (Inl e, bw, w) \<Rightarrow> (Inl e, s\<lparr>fal_writer := bw, fal_fs := w\<rparr>)
            | (Inr _, bw, w) \<Rightarrow>
                let lh = compute_hash X L rec;
                    s1 = s\<lparr>fal_writer := bw, fal_last_hash := lh, fal_fs := w\<rparr> in
                (case fs_len (bw_path bw) w of
                   (Inl e, w1) \<Rightarrow> (Inl e, s1\<lparr>fal_fs := w1\<rparr>)
                 | (Inr offset, w1) \<Rightarrow>
                     (case lc_cp_to_json L (lh, offset) of
                        Inl e \<Rightarrow> (Inl e, s1\<lparr>fal_fs := w1\<rparr>)
                      | Inr cp \<Rightarrow>
                          (case fs_write (fal_checkpoint_path s) cp w1 of
                             (r, w2) \<Rightarrow> (r, s1\<lparr>fal_fs := w2\<rparr>)))))"

definition last_hash :: "file_action_log \<Rightarrow> string" where
  "last_hash s = fal_last_hash s"

text \<open>The lines of the log file, each read and parsed in turn.\<close>

definition parse_line :: "log_codec \<Rightarrow> string res \<Rightarrow> action_log_record res" where
  "parse_line L line = res_bind line (lc_of_json L)"

fun verify_lines ::
  "ext \<Rightarrow> log_codec \<Rightarrow> nat \<Rightarrow> string \<Rightarrow> string res list \<Rightarrow> chain_violation list res" where
  "verify_lines X L index expected [] = Inr []"
| "verify_lines X L index expected (line # ls) =
     (case parse_line L line of
        Inl e \<Rightarrow> Inl e
      | Inr rec \<Rightarrow>
          (case verify_lines X L (Suc index) (compute_hash X L rec) ls of
             Inl e \<Rightarrow> Inl e
           | Inr vs \<Rightarrow>
               Inr (if al_prev_hash rec \<noteq> expected
                    then \<lparr>cv_index = index, cv_record_id = al_record_id rec,
                          cv_expected_prev_hash = expected,
                          cv_actual_prev_hash = al_prev_hash rec\<rparr> # vs
                    else vs)))"

definition fal_verify_chain ::
  "ext \<Rightarrow> log_codec \<Rightarrow> file_action_log \<Rightarrow> chain_violation list res \<times> file_action_log" where
  "fal_verify_chain X L s = (case fs_read (fal_path s) (fal_fs s) of
       (Inl e, w) \<Rightarrow> (Inl e, s\<lparr>fal_fs := w\<rparr>)
     | (Inr c, w) \<Rightarrow> (verify_lines X L 0 genesis (buf_lines c), s\<lparr>fal_fs := w\<rparr>))"

fun history_lines :: "log_codec \<Rightarrow> string \<Rightarrow> string res list \<Rightarrow> action_record list res" where
  "history_lines L did [] = Inr []"
| "history_lines L did (line # ls) =
     (case parse_line L line of
        Inl e \<Rightarrow> Inl e
      | Inr rec \<Rightarrow>
          (case history_lines L did ls of
             Inl e \<Rightarrow> Inl e
           | Inr rs \<Rightarrow>
               Inr (if al_agent_did rec = did \<and> al_outcome rec = Permitted
                    then \<lparr>ar_action = al_action rec, ar_timestamp = al_timestamp rec,
                          ar_resource_category = al_resource_category rec\<rparr> # rs
                    else rs)))"

definition fal_load_history ::
  "log_codec \<Rightarrow> file_action_log \<Rightarrow> string \<Rightarrow> action_record list res \<times> file_action_log" where
  "fal_load_history L s agent_did = (case fs_read (fal_path s) (fal_fs s) of
       (Inl e, w) \<Rightarrow> (Inl e, s\<lparr>fal_fs := w\<rparr>)
     | (Inr c, w) \<Rightarrow> (history_lines L agent_did (buf_lines c), s\<lparr>fal_fs := w\<rparr>))"

fun replay_lines :: "log_codec \<Rightarrow> datetime \<Rightarrow> string res list \<Rightarrow> action_log_record list res" where
  "replay_lines L since [] = Inr []"
| "replay_lines L since (line # ls) =
     (case parse_line L line of
        Inl e \<Rightarrow> Inl e
      | Inr rec \<Rightarrow>
          (case replay_lines L since ls of
             Inl e \<Rightarrow> Inl e
           | Inr rs \<Rightarrow> Inr (if since \<le> al_timestamp rec then rec # rs else rs)))"

definition fal_replay_since ::
  "log_codec \<Rightarrow> file_action_log \<Rightarrow> datetime \<Rightarrow> action_log_record list res \<times> file_action_log" where
  "fal_replay_since L s since = (case fs_read (fal_path s) (fal_fs s) of
       (Inl e, w) \<Rightarrow> (Inl e, s\<lparr>fal_fs := w\<rparr>)
     | (Inr c, w) \<Rightarrow> (replay_lines L since (buf_lines c), s\<lparr>fal_fs := w\<rparr>))"

section \<open>The log as a list of records\<close>

text \<open>The abstract view: violations, history and replay of a list of records.\<close>

fun violations :: "ext \<Rightarrow> log_codec \<Rightarrow> nat \<Rightarrow> string \<Rightarrow> action_log_record list \<Rightarrow> chain_violation list" where
  "violations X L i h [] = []"
| "violations X L i h (r # rs) =
     (if al_prev_hash r \<noteq> h
      then [\<lparr>cv_index = i, cv_record_id = al_record_id r, cv_expected_prev_hash = h,
             cv_actual_prev_hash = al_prev_hash r\<rparr>] else [])
     @ violations X L (Suc i) (compute_hash X L r) rs"

fun chain_end :: "ext \<Rightarrow> log_codec \<Rightarrow> string \<Rightarrow> action_log_record list \<Rightarrow> string" where
  "chain_end X L h [] = h"
| "chain_end X L h (r # rs) = chain_end X L (compute_hash X L r) rs"

definition history_of :: "string \<Rightarrow> action_log_record list \<Rightarrow> action_record list" where
  "history_of did rs = map (\<lambda>r. \<lparr>ar_action = al_action r, ar_timestamp = al_timestamp r,
       ar_resource_category = al_resource_category r\<rparr>)
     (filter (\<lambda>r. al_agent_did r = did \<and> al_outcome r = Permitted) rs)"

lemma violations_append:
  "violations X L i h (rs @ ss) =
     violations X L i h rs @ violations X L (i + length rs) (chain_end X L h rs) ss"
  by (induction rs arbitrary: i h) auto

lemma chain_end_append [simp]:
  "chain_end X L h (rs @ ss) = chain_end X L (chain_end X L h rs) ss"
  by (induction rs arbitrary: h) auto

abbreviation log_json :: "log_codec \<Rightarrow> action_log_record \<Rightarrow> string" where
  "log_json L \<equiv> json_text (lc_to_json L)"

abbreviation log_json_ok :: "log_codec \<Rightarrow> action_log_record \<Rightarrow> bool" where
  "log_json_ok L \<equiv> json_ok (lc_to_json L) (lc_of_json L)"

lemma parse_line_json: "log_json_ok L r \<Longrightarrow> parse_line L (Inr (log_json L r)) = Inr r"
  by (simp add: parse_line_def json_okD)

lemma lines_of_json:
  assumes "\<forall>r\<in>set rs. log_json_ok L r"
  shows "verify_lines X L i h (map (Inr \<circ> log_json L) rs) = Inr (violations X L i h rs)"
    and "history_lines L did (map (Inr \<circ> log_json L) rs) = Inr (history_of did rs)"
    and "replay_lines L since (map (Inr \<circ> log_json L) rs) = Inr (filter (\<lambda>r. since \<le> al_timestamp r) rs)"
proof -
  show "verify_lines X L i h (map (Inr \<circ> log_json L) rs) = Inr (violations X L i h rs)"
    using assms by (induction rs arbitrary: i h) (simp_all add: parse_line_json)
  show "history_lines L did (map (Inr \<circ> log_json L) rs) = Inr (history_of did rs)"
    using assms by (induction rs) (simp_all add: parse_line_json history_of_def)
  show "replay_lines L since (map (Inr \<circ> log_json L) rs) = Inr (filter (\<lambda>r. since \<le> al_timestamp r) rs)"
    using assms by (induction rs) (simp_all add: parse_line_json)
qed

text \<open>The log file holds exactly the records \<open>rs\<close>, whatever their hashes.\<close>

definition fal_holds :: "log_codec \<Rightarrow> action_log_record list \<Rightarrow> file_action_log \<Rightarrow> bool" where
  "fal_holds L rs s \<longleftrightarrow> (\<forall>r\<in>set rs. log_json_ok L r) \<and> script (fal_fs s) = [] \<and>
     files (fal_fs s) (fal_path s) = Some (unlines (map (log_json L) rs))"

lemma fal_holds_reads:
  assumes "fal_holds L rs s"
  shows "fal_verify_chain X L s = (Inr (violations X L 0 genesis rs), s)"
    and "fal_load_history L s did = (Inr (history_of did rs), s)"
    and "fal_replay_since L s since = (Inr (filter (\<lambda>r. since \<le> al_timestamp r) rs), s)"
proof -
  have ok: "\<forall>r\<in>set rs. log_json_ok L r" using assms by (simp add: fal_holds_def)
  note lines = buf_lines_json [OF ok] lines_of_json [OF ok]
  show "fal_verify_chain X L s = (Inr (violations X L 0 genesis rs), s)"
    and "fal_load_history L s did = (Inr (history_of did rs), s)"
    and "fal_replay_since L s since = (Inr (filter (\<lambda>r. since \<le> al_timestamp r) rs), s)"
    using assms lines
    by (simp_all add: fal_holds_def fal_verify_chain_def fal_load_history_def fal_replay_since_def
        fs_read_def)
qed

section \<open>Appending\<close>

lemma write_line_quiet:
  assumes "script w = []" "files w (bw_path bw) \<noteq> None"
  shows "\<exists>bw' w'. write_line json bw w = (Inr (), bw', w') \<and> script w' = [] \<and>
    bw_path bw' = bw_path bw \<and> bw_buf bw' = [] \<and>
    files w' (bw_path bw) = Some (bw_contents bw w @ json @ [nl]) \<and>
    (\<forall>q. q \<noteq> bw_path bw \<longrightarrow> files w' q = files w q)"
proof -
  obtain bw1 w1 where 1: "bw_write_all json bw w = (Inr (), bw1, w1)" "script w1 = []"
      "bw_path bw1 = bw_path bw" "files w1 (bw_path bw) \<noteq> None"
      "bw_contents bw1 w1 = bw_contents bw w @ json"
      "\<forall>q. q \<noteq> bw_path bw \<longrightarrow> files w1 q = files w q"
    using bw_write_all_quiet [OF assms] by blast
  then obtain bw2 w2 where 2: "bw_write_all [nl] bw1 w1 = (Inr (), bw2, w2)" "script w2 = []"
      "bw_path bw2 = bw_path bw" "files w2 (bw_path bw) \<noteq> None"
      "bw_contents bw2 w2 = bw_contents bw w @ json @ [nl]"
      "\<forall>q. q \<noteq> bw_path bw \<longrightarrow> files w2 q = files w q"
    using bw_write_all_quiet [of w1 bw1 "[nl]"] by auto
  then obtain bw3 w3 where "bw_flush bw2 w2 = (Inr (), bw3, w3)" "script w3 = []"
      "bw_path bw3 = bw_path bw" "bw_buf bw3 = []"
      "files w3 (bw_path bw) = Some (bw_contents bw w @ json @ [nl])"
      "\<forall>q. q \<noteq> bw_path bw \<longrightarrow> files w3 q = files w q"
    using bw_flush_quiet [of w2 bw2] by auto
  with 1 2 show ?thesis by (simp add: write_line_def)
qed

text \<open>A short line whose flush fails: nothing is lost, part of it waits in the buffer.\<close>

lemma write_line_fails:
  assumes "script w = Io_err e k # rest" "bw_buf bw = []" "length json + 1 < buf_capacity"
  shows "\<exists>bw' w'. write_line json bw w = (Inl e, bw', w') \<and> script w' = rest \<and>
    bw_path bw' = bw_path bw \<and> files w' (bw_path bw) \<noteq> None \<and>
    bw_contents bw' w' = bw_contents bw w @ json @ [nl] \<and>
    (\<forall>q. q \<noteq> bw_path bw \<longrightarrow> files w' q = files w q)"
  using assms
  by (auto simp: write_line_def bw_defs fs_append_def fs_next_def bw_contents_def
      simp del: take_append drop_append)

text \<open>Checkpoints that can be written and read back.\<close>

definition cps_ok :: "ext \<Rightarrow> log_codec \<Rightarrow> bool" where
  "cps_ok X L \<longleftrightarrow> (\<forall>r n. \<exists>t. lc_cp_to_json L (compute_hash X L r, n) = Inr t \<and> utf8_valid t \<and>
     lc_cp_of_json L t = Inr (compute_hash X L r, n))"

text \<open>
  A log that appends without failures: the file holds \<open>rs\<close>, nothing is buffered, and the last
  hash in memory and the one in the checkpoint are the hash of the last record. Whether the
  links in \<open>rs\<close> are intact is left open.
\<close>

definition fal_in_step :: "ext \<Rightarrow> log_codec \<Rightarrow> action_log_record list \<Rightarrow> file_action_log \<Rightarrow> bool" where
  "fal_in_step X L rs s \<longleftrightarrow>
     fal_holds L rs s \<and> fal_last_hash s = chain_end X L genesis rs \<and>
     bw_path (fal_writer s) = fal_path s \<and> bw_buf (fal_writer s) = [] \<and>
     \<not> fal_last_hash_poisoned s \<and> \<not> fal_writer_poisoned s \<and>
     fal_checkpoint_path s = with_extension ''checkpoint'' (fal_path s) \<and>
     fal_checkpoint_path s \<noteq> fal_path s \<and>
     (case files (fal_fs s) (fal_checkpoint_path s) of
        None \<Rightarrow> rs = []
      | Some t \<Rightarrow> utf8_valid t \<and> (\<exists>n. lc_cp_of_json L t = Inr (chain_end X L genesis rs, n)))"

text \<open>The state after an uninterrupted sequence of appends: the chain is intact as well.\<close>

definition fal_synced :: "ext \<Rightarrow> log_codec \<Rightarrow> action_log_record list \<Rightarrow> file_action_log \<Rightarrow> bool" where
  "fal_synced X L rs s \<longleftrightarrow> fal_in_step X L rs s \<and> violations X L 0 genesis rs = []"

lemmas fal_synced_defs = fal_synced_def fal_in_step_def

lemma fal_synced_open_new:
  assumes "files w path = None" "files w (with_extension ''checkpoint'' path) = None"
    "script w = []" "with_extension ''checkpoint'' path \<noteq> path"
  shows "\<exists>s w'. fal_open L path w = (Inr s, w') \<and> fal_synced X L [] s \<and> fal_path s = path"
  using assms
  by (simp add: fal_open_def fs_defs fal_synced_defs fal_holds_def bw_new_def Let_def)

lemma fal_in_step_reopen:
  assumes "fal_in_step X L rs s"
  shows "\<exists>s' w'. fal_open L (fal_path s) (fal_fs s) = (Inr s', w') \<and> fal_in_step X L rs s' \<and>
    fal_path s' = fal_path s \<and> last_hash s' = last_hash s"
  using assms
  by (auto simp: fal_open_def fs_defs fs_read_to_string_def fal_in_step_def fal_holds_def bw_new_def
      Let_def last_hash_def map_upd_triv split: option.splits)

lemma fal_synced_reopen:
  assumes "fal_synced X L rs s"
  shows "\<exists>s' w'. fal_open L (fal_path s) (fal_fs s) = (Inr s', w') \<and> fal_synced X L rs s' \<and>
    fal_path s' = fal_path s \<and> last_hash s' = last_hash s"
  using fal_in_step_reopen [of X L rs s] assms by (auto simp: fal_synced_def)

lemma fal_append_in_step:
  assumes sy: "fal_in_step X L rs s" and js: "log_json_ok L (r\<lparr>al_prev_hash := fal_last_hash s\<rparr>)"
    and cp: "cps_ok X L"
  shows "\<exists>s'. fal_append X L s r = (Inr (), s') \<and> fal_path s' = fal_path s \<and>
    fal_in_step X L (rs @ [r\<lparr>al_prev_hash := fal_last_hash s\<rparr>]) s'"
proof -
  let ?r = "r\<lparr>al_prev_hash := fal_last_hash s\<rparr>" and ?p = "fal_path s" and ?c = "fal_checkpoint_path s"
  have holds: "files (fal_fs s) ?p = Some (unlines (map (log_json L) rs))" "script (fal_fs s) = []"
    "\<forall>r\<in>set rs. log_json_ok L r" using sy by (auto simp: fal_in_step_def fal_holds_def)
  have bw: "bw_path (fal_writer s) = ?p" "bw_buf (fal_writer s) = []" "?c \<noteq> ?p"
    using sy by (auto simp: fal_in_step_def)
  obtain bw' w where wl: "write_line (log_json L ?r) (fal_writer s) (fal_fs s) = (Inr (), bw', w)"
      "script w = []" "bw_path bw' = ?p" "bw_buf bw' = []"
      "files w ?p = Some (unlines (map (log_json L) (rs @ [?r])))"
    using write_line_quiet [of "fal_fs s" "fal_writer s" "log_json L ?r"] holds bw
    by (auto simp: bw_contents_def)
  obtain t where t: "lc_cp_to_json L (compute_hash X L r, length (the (files w ?p))) = Inr t"
      "utf8_valid t" "lc_cp_of_json L t = Inr (compute_hash X L r, length (the (files w ?p)))"
    using cp unfolding cps_ok_def by blast
  show ?thesis
    using sy holds(3) bw(3) wl t js json_okD(1) [OF js]
    by (auto simp: fal_append_def fal_in_step_def fal_holds_def fs_defs Let_def)
qed

lemma fal_append_synced:
  assumes "fal_synced X L rs s" and "log_json_ok L (r\<lparr>al_prev_hash := fal_last_hash s\<rparr>)" and "cps_ok X L"
  shows "\<exists>s'. fal_append X L s r = (Inr (), s') \<and> fal_path s' = fal_path s \<and>
    fal_synced X L (rs @ [r\<lparr>al_prev_hash := fal_last_hash s\<rparr>]) s'"
  using fal_append_in_step [of X L rs s r] assms
  by (auto simp: fal_synced_def violations_append fal_in_step_def)

fun fal_append_all ::
  "ext \<Rightarrow> log_codec \<Rightarrow> action_log_record list \<Rightarrow> file_action_log \<Rightarrow> unit res \<times> file_action_log" where
  "fal_append_all X L [] s = (Inr (), s)"
| "fal_append_all X L (r # rs) s =
     (case fal_append X L s r of
        (Inl e, s') \<Rightarrow> (Inl e, s') | (Inr _, s') \<Rightarrow> fal_append_all X L rs s')"

text \<open>The records as they are written: each with the hash of the one before it.\<close>

fun seal :: "ext \<Rightarrow> log_codec \<Rightarrow> string \<Rightarrow> action_log_record list \<Rightarrow> action_log_record list" where
  "seal X L h [] = []"
| "seal X L h (r # rs) = r\<lparr>al_prev_hash := h\<rparr> # seal X L (compute_hash X L r) rs"

lemma seal_append: "seal X L h (rs @ ss) = seal X L h rs @ seal X L (chain_end X L h (seal X L h rs)) ss"
  by (induction rs arbitrary: h) auto

lemma history_of_seal [simp]: "history_of did (seal X L h rs) = history_of did rs"
  by (induction rs arbitrary: h) (auto simp: history_of_def)

text \<open>Records whose JSON reads back, whichever link the log gives them.\<close>

definition writable :: "ext \<Rightarrow> log_codec \<Rightarrow> action_log_record list \<Rightarrow> bool" where
  "writable X L rs \<longleftrightarrow> (\<forall>r\<in>set rs. \<forall>h\<in>insert genesis (range (compute_hash X L)).
     log_json_ok L (r\<lparr>al_prev_hash := h\<rparr>))"

lemma chain_end_range: "chain_end X L genesis rs \<in> insert genesis (range (compute_hash X L))"
  by (cases rs rule: rev_cases) auto

lemma fal_in_step_link: "fal_in_step X L rs s \<Longrightarrow> fal_last_hash s \<in> insert genesis (range (compute_hash X L))"
  using chain_end_range by (metis fal_in_step_def)

lemma fal_synced_link: "fal_synced X L rs s \<Longrightarrow> fal_last_hash s \<in> insert genesis (range (compute_hash X L))"
  using fal_in_step_link fal_synced_def by blast

lemma violations_seal [simp]: "violations X L i h (seal X L h rs) = []"
  by (induction rs arbitrary: i h) simp_all

lemma fal_append_all_in_step:
  "fal_in_step X L done s \<Longrightarrow> writable X L rs \<Longrightarrow> cps_ok X L \<Longrightarrow>
   \<exists>s'. fal_append_all X L rs s = (Inr (), s') \<and> fal_path s' = fal_path s \<and>
     fal_in_step X L (done @ seal X L (fal_last_hash s) rs) s'"
proof (induction rs arbitrary: s "done")
  case (Cons r rs)
  then obtain s1 where s1: "fal_append X L s r = (Inr (), s1)" "fal_path s1 = fal_path s"
      "fal_in_step X L (done @ [r\<lparr>al_prev_hash := fal_last_hash s\<rparr>]) s1"
    using fal_append_in_step [of X L "done" s r] fal_in_step_link [OF Cons.prems(1)]
    by (auto simp: writable_def)
  from s1(3) have "fal_last_hash s1 = compute_hash X L r" by (simp add: fal_in_step_def)
  with Cons.IH [OF s1(3)] Cons.prems(2,3) s1 show ?case by (auto simp: writable_def)
qed simp

lemma fal_append_all_synced:
  assumes "fal_synced X L done s" "writable X L rs" "cps_ok X L"
  shows "\<exists>s'. fal_append_all X L rs s = (Inr (), s') \<and> fal_path s' = fal_path s \<and>
     fal_synced X L (done @ seal X L (fal_last_hash s) rs) s'"
proof -
  have "fal_last_hash s = chain_end X L genesis done" using assms(1) by (simp add: fal_synced_defs)
  with fal_append_all_in_step [of X L "done" s rs] assms show ?thesis
    by (auto simp: fal_synced_def violations_append)
qed

section \<open>Positions of violations\<close>

definition expected_prev :: "ext \<Rightarrow> log_codec \<Rightarrow> string \<Rightarrow> action_log_record list \<Rightarrow> nat \<Rightarrow> string" where
  "expected_prev X L h rs j = (if j = 0 then h else compute_hash X L (rs ! (j - 1)))"

lemma violation_indices:
  "map cv_index (violations X L i h rs) =
     map (\<lambda>j. i + j) (filter (\<lambda>j. al_prev_hash (rs ! j) \<noteq> expected_prev X L h rs j) [0..<length rs])"
proof (induction rs arbitrary: i h)
  case (Cons r rs)
  have shift: "filter P [Suc 0..<Suc n] = map Suc (filter (P \<circ> Suc) [0..<n])" for P n
    by (simp add: map_Suc_upt [symmetric] filter_map del: upt_Suc)
  have "expected_prev X L h (r # rs) \<circ> Suc = expected_prev X L (compute_hash X L r) rs"
    by (rule ext) (auto simp: expected_prev_def nth_Cons split: nat.splits)
  then have "(\<lambda>j. al_prev_hash ((r # rs) ! j) \<noteq> expected_prev X L h (r # rs) j) \<circ> Suc =
      (\<lambda>j. al_prev_hash (rs ! j) \<noteq> expected_prev X L (compute_hash X L r) rs j)"
    by (auto simp: fun_eq_iff)
  with Cons.IH [of "Suc i" "compute_hash X L r"] show ?case
    by (simp add: upt_conv_Cons shift expected_prev_def del: upt_Suc)
qed simp

lemma no_violations_iff:
  "violations X L i h rs = [] \<longleftrightarrow>
     (\<forall>j<length rs. al_prev_hash (rs ! j) = expected_prev X L h rs j)"
  using arg_cong [where f = length, OF violation_indices [of X L i h rs]]
  by (auto simp: filter_empty_conv)

text \<open>\<open>tamper i r rs\<close> puts the contents of \<open>r\<close> in place of record \<open>i\<close>, keeping its link.\<close>

definition tamper :: "nat \<Rightarrow> action_log_record \<Rightarrow> action_log_record list \<Rightarrow> action_log_record list" where
  "tamper i r rs = rs[i := r\<lparr>al_prev_hash := al_prev_hash (rs ! i)\<rparr>]"

definition relink :: "ext \<Rightarrow> log_codec \<Rightarrow> nat \<Rightarrow> action_log_record list \<Rightarrow> action_log_record list" where
  "relink X L i rs = rs[i := (rs ! i)\<lparr>al_prev_hash := compute_hash X L (rs ! (i - 1))\<rparr>]"

lemma length_tamper [simp]: "length (tamper i r rs) = length rs"
  by (simp add: tamper_def)

lemma length_relink [simp]: "length (relink X L i rs) = length rs"
  by (simp add: relink_def)

lemma tamper_prev: "j < length rs \<Longrightarrow> al_prev_hash (tamper i r rs ! j) = al_prev_hash (rs ! j)"
  by (cases "j = i") (simp_all add: tamper_def)

lemma tamper_expected:
  "j < length rs \<Longrightarrow> i < length rs \<Longrightarrow>
   expected_prev X L h (tamper i r rs) j =
     (if j = Suc i then compute_hash X L r else expected_prev X L h rs j)"
  by (auto simp: tamper_def expected_prev_def nth_list_update)

lemma filter_eq_upt: "k < n \<Longrightarrow> filter (\<lambda>j. j = k) [0..<n] = [k]"
  by (induction n) auto

lemma tamper_indices:
  assumes "violations X L 0 h rs = []" "Suc i < length rs"
    "compute_hash X L r \<noteq> compute_hash X L (rs ! i)"
  shows "map cv_index (violations X L 0 h (tamper i r rs)) = [Suc i]"
proof -
  have "(al_prev_hash (tamper i r rs ! j) \<noteq> expected_prev X L h (tamper i r rs) j) \<longleftrightarrow> j = Suc i"
    if "j < length rs" for j
    using assms that
    by (auto simp: no_violations_iff tamper_prev tamper_expected) (auto simp: expected_prev_def)
  then have "filter (\<lambda>j. al_prev_hash (tamper i r rs ! j) \<noteq> expected_prev X L h (tamper i r rs) j)
      [0..<length rs] = filter (\<lambda>j. j = Suc i) [0..<length rs]"
    by (intro filter_cong) auto
  with assms(2) show ?thesis by (simp add: violation_indices filter_eq_upt)
qed

lemma relink_tamper_intact:
  assumes "violations X L 0 h rs = []" "i < length rs"
  shows "violations X L 0 h (relink X L (Suc i) (tamper i r rs)) = []"
proof -
  let ?rs = "relink X L (Suc i) (tamper i r rs)"
  have "al_prev_hash (?rs ! j) = expected_prev X L h ?rs j" if j: "j < length rs" for j
  proof -
    have "expected_prev X L h ?rs j = expected_prev X L h (tamper i r rs) j"
      using j by (cases "j = Suc (Suc i)") (auto simp: expected_prev_def relink_def)
    moreover have "al_prev_hash (?rs ! j) =
        (if j = Suc i then compute_hash X L r else al_prev_hash (rs ! j))"
      using j assms(2) by (auto simp: relink_def nth_list_update tamper_prev)
        (simp add: tamper_def)
    ultimately show ?thesis
      using assms j by (simp add: no_violations_iff tamper_expected)
  qed
  then show ?thesis by (simp add: no_violations_iff)
qed

section \<open>A concrete codec, for witnesses\<close>

definition bar :: char where "bar = CHR ''|''"

definition sample_record :: "string \<Rightarrow> action_log_record" where
  "sample_record action = \<lparr>al_record_id = 0, al_agent_did = ''a'', al_action = action,
     al_resource_category = PersonalData, al_timestamp = 0, al_outcome = Permitted, al_prev_hash = []\<rparr>"

definition toy_hash :: "bytes \<Rightarrow> string" where
  "toy_hash b = (if b = ''x'' then ''h1'' else ''h2'')"

definition log_ext :: ext where "log_ext = toy_ext\<lparr>sha256_hex := toy_hash\<rparr>"

definition sample_log_codec :: log_codec where
  "sample_log_codec = \<lparr>lc_hashable = hr_action,
     lc_to_json = (\<lambda>r. Inr (al_action r @ bar # al_prev_hash r)),
     lc_of_json = (\<lambda>s. Inr ((sample_record (takeWhile (\<lambda>c. c \<noteq> bar) s))
        \<lparr>al_prev_hash := tl (dropWhile (\<lambda>c. c \<noteq> bar) s)\<rparr>)),
     lc_cp_to_json = (\<lambda>(h, n). Inr (replicate n CHR ''.'' @ bar # h)),
     lc_cp_of_json = (\<lambda>s. Inr (tl (dropWhile (\<lambda>c. c \<noteq> bar) s), length (takeWhile (\<lambda>c. c \<noteq> bar) s)))\<rparr>"

lemma log_ext_hash: "compute_hash log_ext sample_log_codec r = (if al_action r = ''x'' then ''h1'' else ''h2'')"
  by (simp add: compute_hash_def canonical_bytes_def hashable_def log_ext_def toy_hash_def sample_log_codec_def)

lemma sample_cps_ok: "cps_ok log_ext sample_log_codec"
proof -
  have "utf8_valid (replicate n CHR ''.'' @ bar # ''h1'')"
    "utf8_valid (replicate n CHR ''.'' @ bar # ''h2'')" for n
    by (rule utf8_ascii; auto simp: byte_in_def bar_def)+
  then show ?thesis
    by (simp add: cps_ok_def log_ext_hash) (simp add: sample_log_codec_def bar_def dropWhile_append takeWhile_append)
qed

lemma sample_json_ok:
  assumes "a \<in> {''x'', ''y''}" "h \<in> {genesis, ''h1'', ''h2''}"
  shows "log_json_ok sample_log_codec ((sample_record a)\<lparr>al_prev_hash := h\<rparr>)"
  using assms
  by (auto simp: json_ok_def sample_log_codec_def sample_record_def genesis_def bar_def
      one_line_def nl_def cr_def byte_in_def)

lemma sample_writable:
  assumes "set rs \<subseteq> {sample_record ''x'', sample_record ''y''}"
  shows "writable log_ext sample_log_codec rs"
  unfolding writable_def
proof (intro ballI)
  fix r h
  assume r: "r \<in> set rs" and h: "h \<in> insert genesis (range (compute_hash log_ext sample_log_codec))"
  from r assms obtain a where "a \<in> {''x'', ''y''}" "r = sample_record a" by auto
  moreover from h have "h \<in> {genesis, ''h1'', ''h2''}" by (auto simp: log_ext_hash)
  ultimately show "log_json_ok sample_log_codec (r\<lparr>al_prev_hash := h\<rparr>)"
    using sample_json_ok by simp
qed

definition empty_fs :: fs where "empty_fs = \<lparr>files = Map.empty, script = []\<rparr>"

lemma log_checkpoint_path: "with_extension ''checkpoint'' ''log'' = ''log.checkpoint''"
  by (simp add: with_extension_def file_stem_def)

lemma sample_synced: "\<exists>s. fal_synced log_ext sample_log_codec [] s"
proof -
  have "files empty_fs ''log'' = None" "files empty_fs (with_extension ''checkpoint'' ''log'') = None"
    "script empty_fs = []" "with_extension ''checkpoint'' ''log'' \<noteq> ''log''"
    by (simp_all add: empty_fs_def log_checkpoint_path)
  from fal_synced_open_new [OF this] show ?thesis by blast
qed

text \<open>A log that holds given records, whatever their links.\<close>

definition log_holding :: "action_log_record list \<Rightarrow> file_action_log" where
  "log_holding rs = \<lparr>fal_path = ''log'', fal_checkpoint_path = ''log.checkpoint'',
     fal_writer = bw_new ''log'', fal_writer_poisoned = False, fal_last_hash = genesis,
     fal_last_hash_poisoned = False,
     fal_fs = \<lparr>files = [''log'' \<mapsto> unlines (map (log_json sample_log_codec) rs)], script = []\<rparr>\<rparr>"

lemma fal_holds_log_holding:
  assumes "\<forall>r\<in>set rs. \<exists>a\<in>{''x'', ''y''}. \<exists>h\<in>{genesis, ''h1'', ''h2''}.
    r = (sample_record a)\<lparr>al_prev_hash := h\<rparr>"
  shows "fal_holds sample_log_codec rs (log_holding rs)"
proof -
  have "log_json_ok sample_log_codec r" if "r \<in> set rs" for r
  proof -
    from assms that obtain a h where "a \<in> {''x'', ''y''}" "h \<in> {genesis, ''h1'', ''h2''}"
      "r = (sample_record a)\<lparr>al_prev_hash := h\<rparr>" by metis
    with sample_json_ok [of a h] show ?thesis by simp
  qed
  then show ?thesis by (simp add: fal_holds_def log_holding_def)
qed

section \<open>Properties\<close>

text \<open>
  C4: the log keeps an intact chain and a complete history across restarts. A log opened on
  new files, given any sequence of appends, reopened and given more, accepts them all, has
  the same last hash before and after the restart, verifies without a violation, and its
  history of an agent is that agent's permitted actions in the order they were appended.
\<close>

theorem action_log_intact_across_restart:
  assumes "files w path = None" and "files w (with_extension ''checkpoint'' path) = None"
    and "script w = []" and "with_extension ''checkpoint'' path \<noteq> path"
    and "writable X L (rs @ ts)" and "cps_ok X L"
  shows "\<exists>s0 w0 s1 s2 w2 s3. fal_open L path w = (Inr s0, w0) \<and>
    fal_append_all X L rs s0 = (Inr (), s1) \<and>
    fal_open L path (fal_fs s1) = (Inr s2, w2) \<and> last_hash s2 = last_hash s1 \<and>
    fal_append_all X L ts s2 = (Inr (), s3) \<and>
    fst (fal_verify_chain X L s3) = Inr [] \<and>
    (\<forall>did. fst (fal_load_history L s3 did) = Inr (history_of did (rs @ ts)))"
proof -
  have wr: "writable X L rs" "writable X L ts" using assms(5) by (auto simp: writable_def)
  obtain s0 w0 where s0: "fal_open L path w = (Inr s0, w0)" "fal_synced X L [] s0" "fal_path s0 = path"
    using fal_synced_open_new [OF assms(1-4)] by blast
  obtain s1 where s1: "fal_append_all X L rs s0 = (Inr (), s1)" "fal_path s1 = path"
      "fal_synced X L (seal X L (fal_last_hash s0) rs) s1"
    using fal_append_all_synced [OF s0(2) wr(1) assms(6)] s0(3) by auto
  obtain s2 w2 where s2: "fal_open L path (fal_fs s1) = (Inr s2, w2)"
      "fal_synced X L (seal X L (fal_last_hash s0) rs) s2" "last_hash s2 = last_hash s1"
    using fal_synced_reopen [OF s1(3)] s1(2) by auto
  obtain s3 where s3: "fal_append_all X L ts s2 = (Inr (), s3)"
      "fal_synced X L (seal X L (fal_last_hash s0) rs @ seal X L (fal_last_hash s2) ts) s3"
    using fal_append_all_synced [OF s2(2) wr(2) assms(6)] by blast
  have "fal_holds L (seal X L (fal_last_hash s0) rs @ seal X L (fal_last_hash s2) ts) s3"
    "violations X L 0 genesis (seal X L (fal_last_hash s0) rs @ seal X L (fal_last_hash s2) ts) = []"
    using s3(2) by (simp_all add: fal_synced_defs)
  from fal_holds_reads(1,2) [OF this(1)] this(2)
  have "fst (fal_verify_chain X L s3) = Inr []"
    "\<forall>did. fst (fal_load_history L s3 did) = Inr (history_of did (rs @ ts))"
    using history_of_seal by (simp_all add: history_of_def)
  with s0(1) s1(1) s2(1,3) s3(1) show ?thesis by blast
qed

theorem action_log_intact_across_restart_witness:
  "\<exists>s0 w0 s1 s2 w2 s3. fal_open sample_log_codec ''log'' empty_fs = (Inr s0, w0) \<and>
    fal_append_all log_ext sample_log_codec [sample_record ''x''] s0 = (Inr (), s1) \<and>
    fal_open sample_log_codec ''log'' (fal_fs s1) = (Inr s2, w2) \<and> last_hash s2 = last_hash s1 \<and>
    fal_append_all log_ext sample_log_codec [sample_record ''y''] s2 = (Inr (), s3) \<and>
    fst (fal_verify_chain log_ext sample_log_codec s3) = Inr [] \<and>
    (\<forall>did. fst (fal_load_history sample_log_codec s3 did) =
       Inr (history_of did ([sample_record ''x''] @ [sample_record ''y''])))"
  by (rule action_log_intact_across_restart)
    (simp_all add: empty_fs_def log_checkpoint_path sample_cps_ok sample_writable)

text \<open>
  \<open>verify_chain\<close> reports, in order, exactly the positions at which a record's link is
  not the hash of the record before it (\<open>genesis\<close> for the first).
\<close>

theorem verify_chain_reports_broken_links:
  assumes "fal_holds L rs s"
  shows "\<exists>vs. fal_verify_chain X L s = (Inr vs, s) \<and>
    map cv_index vs = filter (\<lambda>j. al_prev_hash (rs ! j) \<noteq>
      (if j = 0 then genesis else compute_hash X L (rs ! (j - 1)))) [0..<length rs]"
  using fal_holds_reads(1) [OF assms] violation_indices [of X L 0 genesis rs]
  by (simp add: expected_prev_def)

theorem verify_chain_reports_broken_links_witness:
  "\<exists>vs. fst (fal_verify_chain log_ext sample_log_codec
      (log_holding [(sample_record ''x'')\<lparr>al_prev_hash := ''h2''\<rparr>])) = Inr vs \<and> map cv_index vs = [0]"
  using verify_chain_reports_broken_links [OF fal_holds_log_holding,
      of "[(sample_record ''x'')\<lparr>al_prev_hash := ''h2''\<rparr>]" log_ext]
  by (auto simp: genesis_def)

text \<open>
  C37: changing the contents of one record of an intact log, other than the last, and
  nothing else, is detected: verification reports exactly one violation, at the record after
  it, as long as the two contents have different hashes.
\<close>

theorem tampering_detected_at_next_record:
  assumes "violations X L 0 genesis rs = []" and "Suc i < length rs"
    and "compute_hash X L r \<noteq> compute_hash X L (rs ! i)"
    and "fal_holds L (tamper i r rs) s"
  shows "\<exists>v. fst (fal_verify_chain X L s) = Inr [v] \<and> cv_index v = Suc i"
  using fal_holds_reads(1) [OF assms(4)] tamper_indices [OF assms(1-3)]
  by (auto simp: Cons_eq_map_conv)

definition intact_pair :: "action_log_record list" where
  "intact_pair = [(sample_record ''x'')\<lparr>al_prev_hash := genesis\<rparr>, (sample_record ''y'')\<lparr>al_prev_hash := ''h1''\<rparr>]"

theorem tampering_detected_at_next_record_witness:
  "\<exists>v. fst (fal_verify_chain log_ext sample_log_codec
      (log_holding (tamper 0 (sample_record ''y'') intact_pair))) = Inr [v] \<and> cv_index v = Suc 0"
proof (rule tampering_detected_at_next_record)
  show "violations log_ext sample_log_codec 0 genesis intact_pair = []"
    by (simp add: intact_pair_def log_ext_hash sample_record_def)
  show "fal_holds sample_log_codec (tamper 0 (sample_record ''y'') intact_pair)
      (log_holding (tamper 0 (sample_record ''y'') intact_pair))"
    by (rule fal_holds_log_holding) (auto simp: tamper_def intact_pair_def)
qed (simp_all add: intact_pair_def log_ext_hash sample_record_def)

text \<open>
  The chain is not cumulative, because a record's hash does not cover its own link.
  Replacing the contents of any record of an intact log and resetting the one link after it
  (none, for the last record) passes verification, with every other record as it was.
\<close>

theorem relinked_tampering_undetected:
  assumes "violations X L 0 genesis rs = []" and "i < length rs"
    and "fal_holds L (relink X L (Suc i) (tamper i r rs)) s"
  shows "fst (fal_verify_chain X L s) = Inr [] \<and>
    (\<forall>j < length rs. j \<noteq> i \<longrightarrow> j \<noteq> Suc i \<longrightarrow> relink X L (Suc i) (tamper i r rs) ! j = rs ! j)"
  using fal_holds_reads(1) [OF assms(3)] relink_tamper_intact [OF assms(1,2)]
  by (simp add: relink_def tamper_def)

theorem relinked_tampering_undetected_witness:
  "fst (fal_verify_chain log_ext sample_log_codec (log_holding
      (relink log_ext sample_log_codec (Suc 0) (tamper 0 (sample_record ''y'') intact_pair)))) = Inr []"
proof -
  let ?rs = "relink log_ext sample_log_codec (Suc 0) (tamper 0 (sample_record ''y'') intact_pair)"
  have v: "violations log_ext sample_log_codec 0 genesis intact_pair = []" "0 < length intact_pair"
    by (simp_all add: intact_pair_def log_ext_hash sample_record_def)
  have "fal_holds sample_log_codec ?rs (log_holding ?rs)"
    by (rule fal_holds_log_holding)
      (auto simp: tamper_def relink_def intact_pair_def log_ext_hash sample_record_def)
  from relinked_tampering_undetected [OF v this] show ?thesis by (rule conjunct1)
qed

text \<open>
  What comes after a failed append: its line stays buffered, and the next append writes both,
  linked to the same predecessor.
\<close>

lemma append_after_failure:
  assumes "fal_synced X L rs s0" and "s = s0\<lparr>fal_fs := (fal_fs s0)\<lparr>script := [Io_err e k]\<rparr>\<rparr>"
    and "writable X L [r1, r2]" and "cps_ok X L"
    and "length (log_json L (r1\<lparr>al_prev_hash := fal_last_hash s0\<rparr>)) + 1 < buf_capacity"
  obtains s1 s2 where "fal_append X L s r1 = (Inl e, s1)" "fal_append X L s1 r2 = (Inr (), s2)"
    "fal_path s2 = fal_path s0"
    "fal_in_step X L (rs @ [r1\<lparr>al_prev_hash := fal_last_hash s0\<rparr>, r2\<lparr>al_prev_hash := fal_last_hash s0\<rparr>]) s2"
proof -
  let ?p = "fal_path s0" and ?r1 = "r1\<lparr>al_prev_hash := fal_last_hash s0\<rparr>"
    and ?r2 = "r2\<lparr>al_prev_hash := fal_last_hash s0\<rparr>"
  have js: "log_json_ok L ?r1" "log_json_ok L ?r2"
    using assms(3) fal_synced_link [OF assms(1)] by (auto simp: writable_def simp del: insert_iff)
  have sy: "files (fal_fs s0) ?p = Some (unlines (map (log_json L) rs))" "\<forall>r\<in>set rs. log_json_ok L r"
    "bw_path (fal_writer s0) = ?p" "bw_buf (fal_writer s0) = []" "fal_checkpoint_path s0 \<noteq> ?p"
    "\<not> fal_last_hash_poisoned s0" "\<not> fal_writer_poisoned s0"
    "fal_checkpoint_path s0 = with_extension ''checkpoint'' ?p"
    using assms(1) by (auto simp: fal_synced_defs fal_holds_def)
  obtain bw1 w1 where w1: "write_line (log_json L ?r1) (fal_writer s) (fal_fs s) = (Inl e, bw1, w1)"
      "script w1 = []" "bw_path bw1 = ?p" "files w1 ?p \<noteq> None"
      "bw_contents bw1 w1 = unlines (map (log_json L) (rs @ [?r1]))"
    using write_line_fails [of "fal_fs s" e k "[]" "fal_writer s" "log_json L ?r1"] assms(2,5) sy(1,3,4)
    by (auto simp: bw_contents_def)
  let ?s1 = "s\<lparr>fal_writer := bw1, fal_fs := w1\<rparr>"
  have a1: "fal_append X L s r1 = (Inl e, ?s1)"
    using w1(1) json_okD(1) [OF js(1)] sy(6,7) assms(2) by (simp add: fal_append_def Let_def)
  obtain bw2 w2 where w2: "write_line (log_json L ?r2) bw1 w1 = (Inr (), bw2, w2)" "script w2 = []"
      "bw_path bw2 = ?p" "bw_buf bw2 = []" "files w2 ?p = Some (unlines (map (log_json L) (rs @ [?r1, ?r2])))"
    using write_line_quiet [of w1 bw1 "log_json L ?r2"] w1(2-5) by auto
  obtain t where t: "lc_cp_to_json L (compute_hash X L r2, length (the (files w2 ?p))) = Inr t"
      "utf8_valid t" "lc_cp_of_json L t = Inr (compute_hash X L r2, length (the (files w2 ?p)))"
    using assms(4) unfolding cps_ok_def by blast
  obtain s2 where a2: "fal_append X L ?s1 r2 = (Inr (), s2)" "fal_path s2 = ?p"
    and h: "fal_in_step X L (rs @ [?r1, ?r2]) s2"
    using w2 t json_okD(1) [OF js(2)] sy(2,5-8) js assms(2)
    by (simp add: fal_append_def fal_in_step_def fal_holds_def fs_defs Let_def)
  from a1 a2(1,2) h show thesis by (rule that)
qed

text \<open>
  C38: one failed write breaks the chain for good without any tampering. If the flush of an
  append fails, the append reports the error but its line stays buffered; the next append
  writes both lines, linked to the same predecessor. From then on verification always reports
  the second one, and nothing else: after any further appends, after the log is opened again,
  and after any appends to the log so opened, all of which succeed.
\<close>

theorem failed_append_breaks_chain:
  assumes "fal_synced X L rs s0" and "s = s0\<lparr>fal_fs := (fal_fs s0)\<lparr>script := [Io_err e k]\<rparr>\<rparr>"
    and "writable X L ([r1, r2] @ ts @ us)" and "cps_ok X L"
    and "length (log_json L (r1\<lparr>al_prev_hash := fal_last_hash s0\<rparr>)) + 1 < buf_capacity"
    and "compute_hash X L r1 \<noteq> fal_last_hash s0"
    and "v = \<lparr>cv_index = length rs + 1, cv_record_id = al_record_id r2,
      cv_expected_prev_hash = compute_hash X L r1, cv_actual_prev_hash = fal_last_hash s0\<rparr>"
  shows "\<exists>s1 s2 s3 s4 w4 s5. fal_append X L s r1 = (Inl e, s1) \<and> fal_append X L s1 r2 = (Inr (), s2) \<and>
    fal_append_all X L ts s2 = (Inr (), s3) \<and> fst (fal_verify_chain X L s3) = Inr [v] \<and>
    fal_open L (fal_path s3) (fal_fs s3) = (Inr s4, w4) \<and>
    fal_append_all X L us s4 = (Inr (), s5) \<and> fst (fal_verify_chain X L s5) = Inr [v]"
proof -
  let ?rs = "rs @ [r1\<lparr>al_prev_hash := fal_last_hash s0\<rparr>, r2\<lparr>al_prev_hash := fal_last_hash s0\<rparr>]"
  have wr: "writable X L [r1, r2]" "writable X L ts" "writable X L us"
    using assms(3) by (auto simp: writable_def)
  obtain s1 s2 where a: "fal_append X L s r1 = (Inl e, s1)" "fal_append X L s1 r2 = (Inr (), s2)"
    "fal_in_step X L ?rs s2"
    using append_after_failure [OF assms(1,2) wr(1) assms(4,5)] by metis
  have v: "violations X L 0 genesis ?rs = [v]"
    using assms(1,6,7) by (simp add: violations_append fal_synced_defs)
  obtain s3 where s3: "fal_append_all X L ts s2 = (Inr (), s3)"
    "fal_in_step X L (?rs @ seal X L (fal_last_hash s2) ts) s3"
    using fal_append_all_in_step [OF a(3) wr(2) assms(4)] by blast
  obtain s4 w4 where s4: "fal_open L (fal_path s3) (fal_fs s3) = (Inr s4, w4)"
    "fal_in_step X L (?rs @ seal X L (fal_last_hash s2) ts) s4"
    using fal_in_step_reopen [OF s3(2)] by blast
  obtain s5 where s5: "fal_append_all X L us s4 = (Inr (), s5)"
    "fal_in_step X L ((?rs @ seal X L (fal_last_hash s2) ts) @ seal X L (fal_last_hash s4) us) s5"
    using fal_append_all_in_step [OF s4(2) wr(3) assms(4)] by blast
  have ends: "fal_last_hash s2 = chain_end X L genesis ?rs"
    "fal_last_hash s4 = chain_end X L genesis (?rs @ seal X L (fal_last_hash s2) ts)"
    using a(3) s4(2) by (simp_all only: fal_in_step_def)
  have "violations X L 0 genesis (?rs @ seal X L (fal_last_hash s2) ts) = [v]"
    unfolding violations_append [of X L 0 genesis ?rs] v ends(1) by simp
  moreover from this
  have "violations X L 0 genesis ((?rs @ seal X L (fal_last_hash s2) ts) @ seal X L (fal_last_hash s4) us) = [v]"
    unfolding violations_append [of X L 0 genesis "?rs @ seal X L (fal_last_hash s2) ts"] ends(2) by simp
  ultimately have "fst (fal_verify_chain X L s3) = Inr [v]" "fst (fal_verify_chain X L s5) = Inr [v]"
    using fal_holds_reads(1) [of L _ s3 X] fal_holds_reads(1) [of L _ s5 X] s3(2) s5(2)
    unfolding fal_in_step_def by (metis fst_conv)+
  with a(1,2) s3(1) s4(1) s5(1) show ?thesis by blast
qed

theorem failed_append_breaks_chain_witness:
  "\<exists>s s1 s2 s3 s4 w4 s5 v. fal_append log_ext sample_log_codec s (sample_record ''x'') = (Inl ''disk full'', s1) \<and>
    fal_append log_ext sample_log_codec s1 (sample_record ''y'') = (Inr (), s2) \<and>
    fal_append_all log_ext sample_log_codec [sample_record ''x''] s2 = (Inr (), s3) \<and>
    fal_open sample_log_codec (fal_path s3) (fal_fs s3) = (Inr s4, w4) \<and>
    fal_append_all log_ext sample_log_codec [sample_record ''y'', sample_record ''x''] s4 = (Inr (), s5) \<and>
    fst (fal_verify_chain log_ext sample_log_codec s5) = Inr [v] \<and> cv_index v = 1"
proof -
  obtain s0 where s0: "fal_synced log_ext sample_log_codec [] s0" using sample_synced by blast
  then have h: "fal_last_hash s0 = genesis" by (simp add: fal_synced_defs)
  have w: "writable log_ext sample_log_codec ([sample_record ''x'', sample_record ''y''] @ [sample_record ''x''] @
      [sample_record ''y'', sample_record ''x''])"
    by (rule sample_writable) simp
  have l: "length (log_json sample_log_codec ((sample_record ''x'')\<lparr>al_prev_hash := fal_last_hash s0\<rparr>)) + 1
      < buf_capacity"
    by (simp add: h json_text_def sample_log_codec_def sample_record_def genesis_def buf_capacity_def)
  have n: "compute_hash log_ext sample_log_codec (sample_record ''x'') \<noteq> fal_last_hash s0"
    by (simp add: h log_ext_hash sample_record_def genesis_def)
  from failed_append_breaks_chain [OF s0 refl w sample_cps_ok l n refl, of "''disk full''" 2]
  show ?thesis by fastforce
qed

end
