(* ===== verification/Escalation.thy ===== *)
theory Escalation
  imports Registry Action_Log
begin

text \<open>
  Privilege escalation: the request and event types and the signed payload of
  \<open>crates/core/mesh/src/identity/escalation.rs\<close>, and the \<open>EscalationManager\<close> of
  \<open>crates/core/runtime/src/rings/escalation.rs\<close>. The registry it asks is an argument, as two
  functions: the answers of the lookups \<open>approve\<close> makes, which another task may have changed
  between the two. Exported events are those handed to the SIEM exporter, whose result the
  manager ignores.
\<close>

section \<open>Requests and events\<close>

record escalation_request =
  er_agent_did :: string
  er_current_ring :: privilege_ring
  er_requested_ring :: privilege_ring
  er_reason :: string
  er_timestamp :: datetime

datatype escalation_outcome = Approved | EscalationDenied (denied_cause: string)

record escalation_event =
  ee_event_id :: uuid
  ee_agent_did :: string
  ee_approver_did :: string
  ee_from_ring :: privilege_ring
  ee_to_ring :: privilege_ring
  ee_outcome :: escalation_outcome
  ee_reason :: string
  ee_timestamp :: datetime

definition approval_payload :: "ext \<Rightarrow> uuid \<Rightarrow> string \<Rightarrow> privilege_ring \<Rightarrow> bytes" where
  "approval_payload X event_id agent_did requested_ring =
     uuid_str X event_id @ '':'' @ agent_did @ '':'' @ ring_display requested_ring"

section \<open>The manager\<close>

type_synonym event_json = "escalation_event \<Rightarrow> string res"

record escalation_manager =
  em_pending :: "uuid \<rightharpoonup> escalation_request"
  em_audit_log :: "bufwriter option"
  em_audit_poisoned :: bool
  em_siem_exporter :: bool
  em_exported :: "escalation_event list"
  em_registry_pubkey :: string
  em_fs :: fs

definition em_new :: "string option \<Rightarrow> string \<Rightarrow> bool \<Rightarrow> fs \<Rightarrow> escalation_manager res \<times> fs" where
  "em_new audit_log_path registry_pubkey siem_exporter w =
     (let manager = (\<lambda>log w. \<lparr>em_pending = Map.empty, em_audit_log = log, em_audit_poisoned = False,
            em_siem_exporter = siem_exporter, em_exported = [],
            em_registry_pubkey = registry_pubkey, em_fs = w\<rparr>)
      in case audit_log_path of
           None \<Rightarrow> (Inr (manager None w), w)
         | Some path \<Rightarrow>
             (case fs_open_append path w of
                (Inl e, w') \<Rightarrow> (Inl e, w')
              | (Inr _, w') \<Rightarrow> (Inr (manager (Some (bw_new path)) w'), w')))"

text \<open>\<open>event_id\<close> is the fresh \<open>Uuid::new_v4()\<close>.\<close>

definition request_escalation ::
  "uuid \<Rightarrow> escalation_request \<Rightarrow> escalation_manager \<Rightarrow> uuid \<times> escalation_manager" where
  "request_escalation event_id request m =
     (event_id, m\<lparr>em_pending := (em_pending m)(event_id \<mapsto> request)\<rparr>)"

definition em_log_event ::
  "event_json \<Rightarrow> escalation_event \<Rightarrow> escalation_manager \<Rightarrow> unit res \<times> escalation_manager" where
  "em_log_event EJ event m =
     (case em_audit_log m of
        None \<Rightarrow> (Inr (), m)
      | Some writer \<Rightarrow>
          if em_audit_poisoned m then (Inl ''Audit log lock poisoned'', m)
          else case EJ event of
            Inl e \<Rightarrow> (Inl e, m)
          | Inr json \<Rightarrow>
              (case write_line json writer (em_fs m) of
                 (r, bw, w) \<Rightarrow> (r, m\<lparr>em_audit_log := Some bw, em_fs := w\<rparr>)))"

definition em_export_to_siem :: "escalation_event \<Rightarrow> escalation_manager \<Rightarrow> escalation_manager" where
  "em_export_to_siem event m =
     (if em_siem_exporter m then m\<lparr>em_exported := em_exported m @ [event]\<rparr> else m)"

text \<open>\<open>let _ = self.log_event(..); let _ = self.export_to_siem(..).await\<close>\<close>

definition em_publish :: "event_json \<Rightarrow> escalation_event \<Rightarrow> escalation_manager \<Rightarrow> escalation_manager" where
  "em_publish EJ event m = em_export_to_siem event (snd (em_log_event EJ event m))"

definition event_for ::
  "uuid \<Rightarrow> escalation_request \<Rightarrow> string \<Rightarrow> escalation_outcome \<Rightarrow> datetime \<Rightarrow> escalation_event" where
  "event_for event_id request approver_did outcome now =
     \<lparr>ee_event_id = event_id, ee_agent_did = er_agent_did request, ee_approver_did = approver_did,
      ee_from_ring = er_current_ring request, ee_to_ring = er_requested_ring request,
      ee_outcome = outcome, ee_reason = er_reason request, ee_timestamp = now\<rparr>"

definition create_denied_event ::
  "uuid \<Rightarrow> escalation_request \<Rightarrow> string \<Rightarrow> string \<Rightarrow> datetime \<Rightarrow> escalation_event" where
  "create_denied_event event_id request approver_did cause now =
     event_for event_id request approver_did (EscalationDenied cause) now"

text \<open>The identity whose only content is a public key, as signatures are checked with.\<close>

definition identity_stub :: "string \<Rightarrow> agent_identity" where
  "identity_stub public_key = \<lparr>ai_did = \<lparr>did_method = [], did_unique_id = []\<rparr>, ai_name = [],
     ai_public_key = public_key, ai_sponsor_email = [], ai_capabilities = [], ai_status = [],
     ai_parent_did = None, ai_delegation_depth = 0, ai_private_key = None\<rparr>"

type_synonym ring_lookup = "string \<Rightarrow> privilege_ring option res"
type_synonym attestation_lookup = "string \<Rightarrow> signed_attestation option res"

text \<open>
  \<open>approve\<close>: \<open>t\<close> is the pair of clock readings, at the check of the attestation and for the
  event's timestamp.
\<close>

definition em_approve ::
  "ext \<Rightarrow> claim_json \<Rightarrow> event_json \<Rightarrow> readings \<Rightarrow> uuid \<Rightarrow> string \<Rightarrow> bytes \<Rightarrow>
     ring_lookup \<Rightarrow> attestation_lookup \<Rightarrow> escalation_manager \<Rightarrow> escalation_event res \<times> escalation_manager" where
  "em_approve X J EJ t event_id approver_did signature get_ring get_attestation m =
     (case em_pending m event_id of
        None \<Rightarrow> (Inl ''Escalation request not found'', m)
      | Some request \<Rightarrow>
          let m1 = m\<lparr>em_pending := (em_pending m)(event_id := None)\<rparr>;
              deny = (\<lambda>cause. let event = create_denied_event event_id request approver_did cause (snd t)
                in (Inr event, em_publish EJ event m1))
          in case res_bind (get_ring approver_did) (ok_or ''Approver DID not in registry'') of
            Inl e \<Rightarrow> (Inl e, m1)
          | Inr approver_ring \<Rightarrow>
              if approver_ring \<noteq> System
              then deny ''Only System-ring agents can approve escalation''
              else case res_bind (get_attestation approver_did) (ok_or ''Approver attestation not found'') of
                Inl e \<Rightarrow> (Inl e, m1)
              | Inr attestation \<Rightarrow>
                  (case sa_verify X J (fst t) attestation (em_registry_pubkey m) of
                     Inl e \<Rightarrow> (Inl (''Registry attestation verification failed: ''
                                  @ attestation_error_display e), m1)
                   | Inr _ \<Rightarrow>
                       let pubkey_b64 = ac_public_key_b64 (sa_claim attestation);
                           payload = approval_payload X event_id (er_agent_did request) (er_requested_ring request)
                       in if \<not> verify_signature X (identity_stub pubkey_b64) payload signature
                          then deny ''Approval signature invalid''
                          else if er_current_ring request \<le> er_requested_ring request
                          then deny ''Requested ring must be more privileged''
                          else let event = event_for event_id request approver_did Approved (snd t)
                            in (Inr event, em_publish EJ event m1)))"

definition em_deny ::
  "event_json \<Rightarrow> datetime \<Rightarrow> uuid \<Rightarrow> string \<Rightarrow> string \<Rightarrow> escalation_manager \<Rightarrow>
     escalation_event res \<times> escalation_manager" where
  "em_deny EJ now event_id approver_did cause m =
     (case em_pending m event_id of
        None \<Rightarrow> (Inl ''Escalation request not found'', m)
      | Some request \<Rightarrow>
          let event = event_for event_id request approver_did (EscalationDenied cause) now in
          (Inr event, em_publish EJ event (m\<lparr>em_pending := (em_pending m)(event_id := None)\<rparr>)))"

text \<open>The pending requests, in the order \<open>ids\<close> the map is iterated in.\<close>

definition pending_requests ::
  "uuid list \<Rightarrow> escalation_manager \<Rightarrow> (uuid \<times> escalation_request) list" where
  "pending_requests ids m =
     List.map_filter (\<lambda>i. map_option (Pair i) (em_pending m i)) ids"

section \<open>What a call leaves\<close>

lemma publish_pending [simp]: "em_pending (em_publish EJ ev m) = em_pending m"
  by (simp add: em_publish_def em_export_to_siem_def em_log_event_def
      split: option.splits sum.splits prod.splits)

lemma publish_exported:
  "em_exported (em_publish EJ ev m) = (if em_siem_exporter m then em_exported m @ [ev] else em_exported m)"
  by (simp add: em_publish_def em_export_to_siem_def em_log_event_def
      split: option.splits sum.splits prod.splits)

lemma event_for_simps [simp]:
  "ee_event_id (event_for i q a out now) = i" "ee_outcome (event_for i q a out now) = out"
  "ee_from_ring (event_for i q a out now) = er_current_ring q"
  "ee_to_ring (event_for i q a out now) = er_requested_ring q"
  "ee_agent_did (event_for i q a out now) = er_agent_did q"
  "ee_approver_did (event_for i q a out now) = a"
  by (simp_all add: event_for_def)

text \<open>The conditions under which an approval takes effect.\<close>

definition may_approve ::
  "ext \<Rightarrow> claim_json \<Rightarrow> datetime \<Rightarrow> string \<Rightarrow> uuid \<Rightarrow> escalation_request \<Rightarrow> string \<Rightarrow> bytes \<Rightarrow>
     ring_lookup \<Rightarrow> attestation_lookup \<Rightarrow> bool" where
  "may_approve X J now pub event_id request approver signature get_ring get_attestation \<longleftrightarrow>
     get_ring approver = Inr (Some System) \<and>
     (\<exists>a. get_attestation approver = Inr (Some a) \<and> sa_verify X J now a pub = Inr () \<and>
        verify_signature X (identity_stub (ac_public_key_b64 (sa_claim a)))
          (approval_payload X event_id (er_agent_did request) (er_requested_ring request)) signature) \<and>
     er_requested_ring request < er_current_ring request"

lemma approve_not_found:
  "em_pending m i = None \<Longrightarrow> em_approve X J EJ t i a sig gr ga m = (Inl ''Escalation request not found'', m)"
  by (simp add: em_approve_def)

lemma deny_not_found:
  "em_pending m i = None \<Longrightarrow> em_deny EJ now i a cause m = (Inl ''Escalation request not found'', m)"
  by (simp add: em_deny_def)

lemma approve_pending:
  "em_approve X J EJ t i a sig gr ga m = (r, m') \<Longrightarrow> em_pending m' = (em_pending m)(i := None)"
  by (auto simp: em_approve_def Let_def fun_upd_idem
      split: option.splits sum.splits if_splits prod.splits)

lemma approve_event:
  assumes "em_approve X J EJ t i a sig gr ga m = (Inr ev, m')"
  shows "\<exists>q. em_pending m i = Some q \<and> ev = event_for i q a (ee_outcome ev) (snd t) \<and>
    m' = em_publish EJ ev (m\<lparr>em_pending := (em_pending m)(i := None)\<rparr>) \<and>
    (ee_outcome ev = Approved \<longleftrightarrow>
       may_approve X J (fst t) (em_registry_pubkey m) i q a sig gr ga)"
  using assms
  by (auto simp: em_approve_def Let_def create_denied_event_def may_approve_def res_bind_eq_Inr
      split: option.splits sum.splits if_splits)

lemma approve_succeeds:
  assumes "em_pending m i = Some q" "may_approve X J (fst t) (em_registry_pubkey m) i q a sig gr ga"
  shows "em_approve X J EJ t i a sig gr ga m = (Inr (event_for i q a Approved (snd t)),
    em_publish EJ (event_for i q a Approved (snd t)) (m\<lparr>em_pending := (em_pending m)(i := None)\<rparr>))"
  using assms by (auto simp: em_approve_def may_approve_def Let_def)

lemma approve_error:
  assumes "em_approve X J EJ t i a sig gr ga m = (Inl e, m')"
  shows "m' = m\<lparr>em_pending := (em_pending m)(i := None)\<rparr>"
  using assms
  by (auto simp: em_approve_def Let_def fun_upd_idem split: option.splits sum.splits if_splits)

lemma deny_event:
  assumes "em_deny EJ now i a cause m = (Inr ev, m')"
  shows "\<exists>q. em_pending m i = Some q \<and> ev = event_for i q a (EscalationDenied cause) now \<and>
    m' = em_publish EJ ev (m\<lparr>em_pending := (em_pending m)(i := None)\<rparr>)"
  using assms by (auto simp: em_deny_def Let_def split: option.splits)

lemma deny_error: "em_deny EJ now i a cause m = (Inl e, m') \<Longrightarrow> m' = m"
  by (auto simp: em_deny_def Let_def split: option.splits)

section \<open>Runs\<close>

text \<open>
  A manager that starts with nothing pending and answers calls in any order; \<open>reqs\<close> are the
  requests made so far, \<open>evs\<close> the events returned, both latest last. Each request gets an
  event id not used before.
\<close>

inductive em_run ::
  "ext \<Rightarrow> claim_json \<Rightarrow> event_json \<Rightarrow> (uuid \<times> escalation_request) list \<Rightarrow> escalation_event list \<Rightarrow>
     escalation_manager \<Rightarrow> bool" for X J EJ where
  start: "em_new log pub siem w = (Inr m, w') \<Longrightarrow> em_run X J EJ [] [] m"
| request: "em_run X J EJ reqs evs m \<Longrightarrow> i \<notin> fst ` set reqs \<Longrightarrow>
    request_escalation i q m = (i', m') \<Longrightarrow> em_run X J EJ (reqs @ [(i, q)]) evs m'"
| answer_approve: "em_run X J EJ reqs evs m \<Longrightarrow>
    em_approve X J EJ t i a sig gr ga m = (Inr ev, m') \<Longrightarrow> em_run X J EJ reqs (evs @ [ev]) m'"
| fail_approve: "em_run X J EJ reqs evs m \<Longrightarrow>
    em_approve X J EJ t i a sig gr ga m = (Inl e, m') \<Longrightarrow> em_run X J EJ reqs evs m'"
| answer_deny: "em_run X J EJ reqs evs m \<Longrightarrow>
    em_deny EJ now i a cause m = (Inr ev, m') \<Longrightarrow> em_run X J EJ reqs (evs @ [ev]) m'"
| fail_deny: "em_run X J EJ reqs evs m \<Longrightarrow>
    em_deny EJ now i a cause m = (Inl e, m') \<Longrightarrow> em_run X J EJ reqs evs m'"

text \<open>An event reports a request that was made, under its id.\<close>

definition reports :: "(uuid \<times> escalation_request) list \<Rightarrow> escalation_event \<Rightarrow> bool" where
  "reports reqs ev \<longleftrightarrow> (\<exists>q. (ee_event_id ev, q) \<in> set reqs \<and> ee_agent_did ev = er_agent_did q \<and>
     ee_from_ring ev = er_current_ring q \<and> ee_to_ring ev = er_requested_ring q \<and>
     (ee_outcome ev = Approved \<longrightarrow> er_requested_ring q < er_current_ring q))"

definition em_inv ::
  "(uuid \<times> escalation_request) list \<Rightarrow> escalation_event list \<Rightarrow> escalation_manager \<Rightarrow> bool" where
  "em_inv reqs evs m \<longleftrightarrow>
     distinct (map ee_event_id evs) \<and> (\<forall>ev\<in>set evs. reports reqs ev) \<and>
     (\<forall>i q. em_pending m i = Some q \<longrightarrow> (i, q) \<in> set reqs \<and> i \<notin> ee_event_id ` set evs) \<and>
     (em_siem_exporter m \<longrightarrow> em_exported m = evs)"

lemma reports_more: "reports reqs ev \<Longrightarrow> set reqs \<subseteq> set reqs' \<Longrightarrow> reports reqs' ev"
  by (auto simp: reports_def)

lemma reports_id: "reports reqs ev \<Longrightarrow> ee_event_id ev \<in> fst ` set reqs"
  by (force simp: reports_def)

lemma em_new_inv: "em_new log pub siem w = (Inr m, w') \<Longrightarrow> em_inv [] [] m"
  by (auto simp: em_new_def em_inv_def split: option.splits sum.splits prod.splits)

lemma publish_siem [simp]: "em_siem_exporter (em_publish EJ ev m) = em_siem_exporter m"
  by (simp add: em_publish_def em_export_to_siem_def em_log_event_def
      split: option.splits sum.splits prod.splits)

lemma em_inv_request:
  assumes "em_inv reqs evs m" "i \<notin> fst ` set reqs"
  shows "em_inv (reqs @ [(i, q)]) evs (snd (request_escalation i q m))"
proof -
  have "i \<notin> ee_event_id ` set evs" using assms reports_id by (fastforce simp: em_inv_def)
  then show ?thesis
    using assms reports_more [where reqs = reqs and reqs' = "reqs @ [(i, q)]"]
    by (auto simp: em_inv_def request_escalation_def)
qed

text \<open>Deciding a pending request, either way.\<close>

lemma em_inv_decide:
  assumes "em_inv reqs evs m" "em_pending m i = Some q" "ev = event_for i q a (ee_outcome ev) now"
    and "ee_outcome ev = Approved \<longrightarrow> er_requested_ring q < er_current_ring q"
  shows "em_inv reqs (evs @ [ev]) (em_publish EJ ev (m\<lparr>em_pending := (em_pending m)(i := None)\<rparr>))"
proof -
  have ev: "ee_event_id ev = i" "ee_agent_did ev = er_agent_did q" "ee_from_ring ev = er_current_ring q"
    "ee_to_ring ev = er_requested_ring q" by (subst assms(3), simp)+
  have "(i, q) \<in> set reqs" "i \<notin> ee_event_id ` set evs" using assms(1,2) by (auto simp: em_inv_def)
  then have "reports reqs ev" "i \<notin> ee_event_id ` set evs" using ev assms(4) by (auto simp: reports_def)
  with assms(1) ev show ?thesis by (auto simp: em_inv_def publish_exported)
qed

lemma em_inv_drop: "em_inv reqs evs m \<Longrightarrow> em_inv reqs evs (m\<lparr>em_pending := (em_pending m)(i := None)\<rparr>)"
  by (auto simp: em_inv_def)

lemma em_run_inv: "em_run X J EJ reqs evs m \<Longrightarrow> em_inv reqs evs m"
proof (induction rule: em_run.induct)
  case (start log pub siem w m w')
  then show ?case by (rule em_new_inv)
next
  case (request reqs evs m i q i' m')
  then show ?case using em_inv_request [of reqs evs m i q] by simp
next
  case (answer_approve reqs evs m t i a sig gr ga ev m')
  from approve_event [OF answer_approve.hyps(2)] obtain q where
    q: "em_pending m i = Some q" "ev = event_for i q a (ee_outcome ev) (snd t)"
      "m' = em_publish EJ ev (m\<lparr>em_pending := (em_pending m)(i := None)\<rparr>)"
      "ee_outcome ev = Approved \<longrightarrow> er_requested_ring q < er_current_ring q"
    by (auto simp: may_approve_def)
  show ?case unfolding q(3) by (rule em_inv_decide [OF answer_approve.IH q(1,2,4)])
next
  case (fail_approve reqs evs m t i a sig gr ga e m')
  show ?case
    using em_inv_drop [OF fail_approve.IH] approve_error [OF fail_approve.hyps(2)] by simp
next
  case (answer_deny reqs evs m now i a cause ev m')
  from deny_event [OF answer_deny.hyps(2)] obtain q where
    q: "em_pending m i = Some q" "ev = event_for i q a (EscalationDenied cause) now"
      "m' = em_publish EJ ev (m\<lparr>em_pending := (em_pending m)(i := None)\<rparr>)" by blast
  then have out: "ee_outcome ev = EscalationDenied cause" by simp
  show ?case unfolding q(3)
    by (rule em_inv_decide [OF answer_deny.IH q(1)]) (use q(2) out in simp_all)
next
  case (fail_deny reqs evs m now i a cause e m')
  then show ?case using deny_error by metis
qed

section \<open>The signed payload\<close>

lemma ring_display_no_colon [simp]: "CHR '':'' \<notin> set (ring_display r)"
  by (cases r) (simp_all add: ring_display_def)

lemma ring_display_inj: "ring_display r = ring_display r' \<Longrightarrow> r = r'"
  by (cases r; cases r') (simp_all add: ring_display_def)

lemma last_colon_inj:
  assumes "CHR '':'' \<notin> set b" "CHR '':'' \<notin> set b'" "a @ '':'' @ b = a' @ '':'' @ b'"
  shows "a = a' \<and> b = b'"
proof -
  have "rev b @ CHR '':'' # rev a = rev b' @ CHR '':'' # rev a'"
    using arg_cong [where f = rev, OF assms(3)] by simp
  then have "str_split (CHR '':'') (rev b @ CHR '':'' # rev a) =
      str_split (CHR '':'') (rev b' @ CHR '':'' # rev a')" by simp
  then have "rev b = rev b'" using assms(1,2) by (simp add: str_split_append)
  with assms(3) show ?thesis by simp
qed

lemma approval_payload_inj:
  assumes "uuid_ok X" "approval_payload X i d r = approval_payload X i' d' r'"
  shows "i = i' \<and> d = d' \<and> r = r'"
proof -
  have "length (uuid_str X i) = length (uuid_str X i')" using assms(1) by (simp add: uuid_ok_def)
  with assms(2) have "uuid_str X i = uuid_str X i'" "d @ '':'' @ ring_display r = d' @ '':'' @ ring_display r'"
    by (simp_all add: approval_payload_def)
  then show ?thesis
    using last_colon_inj [of "ring_display r" "ring_display r'" d d'] assms(1)
    by (auto simp: uuid_ok_def inj_def dest: ring_display_inj)
qed

lemma verify_signature_signed:
  assumes "only_signed X pub msgs" "verify_signature X (identity_stub pub) m sig"
    "\<And>b. b64_decode X pub = Inr b \<Longrightarrow> length b = 32"
  shows "m \<in> msgs"
  using assms by (auto simp: only_signed_def verify_signature_def identity_stub_def split: sum.splits)

section \<open>Properties\<close>

text \<open>
  C5: an approval takes effect exactly when the request is pending, the approver is
  registered at ring System, the registry's attestation of the approver verifies under the
  registry key the manager was given, the signature over event id, agent and requested ring
  verifies under the attested key, and the requested ring is more privileged than the current
  one. The request is no longer pending afterwards, whatever the answer.
\<close>

theorem approved_iff:
  assumes "em_approve X J EJ t i a sig gr ga m = (r, m')"
  shows "((\<exists>ev. r = Inr ev \<and> ee_outcome ev = Approved) \<longleftrightarrow>
      (\<exists>q att. em_pending m i = Some q \<and> gr a = Inr (Some System) \<and> ga a = Inr (Some att) \<and>
         sa_verify X J (fst t) att (em_registry_pubkey m) = Inr () \<and>
         verify_signature X (identity_stub (ac_public_key_b64 (sa_claim att)))
           (approval_payload X i (er_agent_did q) (er_requested_ring q)) sig \<and>
         er_requested_ring q < er_current_ring q)) \<and>
    em_pending m' = (em_pending m)(i := None)"
proof -
  have "(\<exists>ev. r = Inr ev \<and> ee_outcome ev = Approved) \<longleftrightarrow>
      (\<exists>q. em_pending m i = Some q \<and> may_approve X J (fst t) (em_registry_pubkey m) i q a sig gr ga)"
    using assms
    by (auto simp: em_approve_def Let_def create_denied_event_def may_approve_def res_bind_eq_Inr
        split: option.splits sum.splits if_splits)
  then show ?thesis using approve_pending [OF assms] by (auto simp: may_approve_def)
qed

text \<open>
  An agent registered at ring System that signs the payload with its registered key
  gets its approval through, on any registry in memory whose key the manager trusts, within
  24 hours of the attestation's issue.
\<close>

theorem system_agent_approves:
  assumes "crypto_ok X" and "\<not> mr_poisoned s"
    and "mr_entries s a = Some (b64_encode X (public_bytes X k), System)"
    and "em_pending m i = Some q" and "er_requested_ring q < er_current_ring q"
    and "em_registry_pubkey m = b64_encode X (public_bytes X (mr_identity s))"
    and "fst t \<le> dt_add X (snd rt) (hours 24)"
    and "sig = ed_sign X k (approval_payload X i (er_agent_did q) (er_requested_ring q))"
  shows "\<exists>m'. em_approve X J EJ t i a sig
      (\<lambda>d. fst (reg_get_ring (memory_registry_ops X J) s d))
      (\<lambda>d. fst (reg_get_attestation (memory_registry_ops X J) rt s d)) m =
    (Inr (event_for i q a Approved (snd t)), m') \<and>
    em_exported m' = em_exported m @ (if em_siem_exporter m then [event_for i q a Approved (snd t)] else [])"
proof -
  obtain att where att: "reg_get_attestation (memory_registry_ops X J) rt s a = (Inr (Some att), s)"
    "ac_public_key_b64 (sa_claim att) = b64_encode X (public_bytes X k)"
    "sa_verify X J (fst t) att (em_registry_pubkey m) = Inr ()"
    using mr.attestation_verifies [OF assms(2,1,3,7)] assms(6) by auto
  have sig: "verify_signature X (identity_stub (b64_encode X (public_bytes X k)))
      (approval_payload X i (er_agent_did q) (er_requested_ring q)) sig"
    unfolding assms(8) by (rule verify_attested_key [OF assms(1)]) (simp add: identity_stub_def)
  have "may_approve X J (fst t) (em_registry_pubkey m) i q a sig
      (\<lambda>d. fst (reg_get_ring (memory_registry_ops X J) s d))
      (\<lambda>d. fst (reg_get_attestation (memory_registry_ops X J) rt s d))"
    using att sig assms(3,5) mr.get_ring [where s = s and X = X and J = J, OF assms(2)]
    by (simp add: may_approve_def)
  from approve_succeeds [OF assms(4) this, of EJ] show ?thesis by (simp add: publish_exported)
qed

text \<open>
  In every run each request is decided at most once, an event reports the agent and the
  rings of a request that was made, an approval only ever raises the privilege, and the SIEM
  exporter is handed exactly the events returned, in order.
\<close>

theorem decided_at_most_once:
  assumes "em_run X J EJ reqs evs m"
  shows "distinct (map ee_event_id evs) \<and>
    (\<forall>i\<in>dom (em_pending m). i \<notin> ee_event_id ` set evs) \<and>
    (\<forall>ev\<in>set evs. \<exists>q. (ee_event_id ev, q) \<in> set reqs \<and> ee_agent_did ev = er_agent_did q \<and>
       ee_from_ring ev = er_current_ring q \<and> ee_to_ring ev = er_requested_ring q) \<and>
    (\<forall>ev\<in>set evs. ee_outcome ev = Approved \<longrightarrow> ee_to_ring ev < ee_from_ring ev) \<and>
    (em_siem_exporter m \<longrightarrow> em_exported m = evs)"
  using em_run_inv [OF assms] by (fastforce simp: em_inv_def reports_def)

text \<open>
  An \<open>approve\<close> that fails because the approver is unknown or the registry cannot be
  asked drops the request without a trace: nothing is logged or exported, and every later
  approval or denial of the request, by anyone, finds no request.
\<close>

theorem failed_approval_drops_request:
  assumes "em_pending m i = Some q" and "\<not> (\<exists>ring. gr a = Inr (Some ring))"
  shows "\<exists>e m'. em_approve X J EJ t i a sig gr ga m = (Inl e, m') \<and>
    em_exported m' = em_exported m \<and> em_fs m' = em_fs m \<and> em_audit_log m' = em_audit_log m \<and>
    (\<forall>t' b sig' gr' ga'. em_approve X J EJ t' i b sig' gr' ga' m' = (Inl ''Escalation request not found'', m')) \<and>
    (\<forall>now b cause. em_deny EJ now i b cause m' = (Inl ''Escalation request not found'', m'))"
proof -
  have "\<exists>e. res_bind (gr a) (ok_or ''Approver DID not in registry'') = Inl e"
    using assms(2) by (auto simp: res_bind_def ok_or_def split: sum.splits option.splits)
  then obtain e where "em_approve X J EJ t i a sig gr ga m =
      (Inl e, m\<lparr>em_pending := (em_pending m)(i := None)\<rparr>)"
    using assms(1) by (auto simp: em_approve_def Let_def)
  then show ?thesis by (auto simp: approve_not_found deny_not_found)
qed

text \<open>
  An approval signature is bound to its request. If nothing verifies under the attested
  key but the payloads its owner signed, for the requests in \<open>approvals\<close>, an approval that
  takes effect is for one of them: event id, agent and ring.
\<close>

theorem approval_was_signed:
  assumes "uuid_ok X"
    and "em_approve X J EJ t i a sig gr ga m = (Inr ev, m')" and "ee_outcome ev = Approved"
    and "ga a = Inr (Some att)" and "b64_decode X (ac_public_key_b64 (sa_claim att)) = Inr b" and "length b = 32"
    and "only_signed X (ac_public_key_b64 (sa_claim att))
      ((\<lambda>(j, d, r). approval_payload X j d r) ` approvals)"
  shows "(ee_event_id ev, ee_agent_did ev, ee_to_ring ev) \<in> approvals"
proof -
  from approve_event [OF assms(2)] assms(3) obtain q where q: "ev = event_for i q a Approved (snd t)"
    "may_approve X J (fst t) (em_registry_pubkey m) i q a sig gr ga" by auto
  then have v: "verify_signature X (identity_stub (ac_public_key_b64 (sa_claim att)))
      (approval_payload X i (er_agent_did q) (er_requested_ring q)) sig"
    using assms(4) by (auto simp: may_approve_def)
  have "approval_payload X i (er_agent_did q) (er_requested_ring q) \<in>
      (\<lambda>(j, d, r). approval_payload X j d r) ` approvals"
    by (rule verify_signature_signed [OF assms(7) v]) (use assms(5,6) in simp)
  then show ?thesis using q(1) by (auto dest: approval_payload_inj [OF assms(1)])
qed

section \<open>Concrete inputs\<close>

definition sample_request :: escalation_request where
  "sample_request = \<lparr>er_agent_did = ''did:mesh:a'', er_current_ring = Standard,
     er_requested_ring = Trusted, er_reason = ''maintenance'', er_timestamp = 0\<rparr>"

definition sample_manager :: escalation_manager where
  "sample_manager = \<lparr>em_pending = [1 \<mapsto> sample_request], em_audit_log = None,
     em_audit_poisoned = False, em_siem_exporter = True, em_exported = [],
     em_registry_pubkey = pad32 ''rk'', em_fs = \<lparr>files = Map.empty, script = []\<rparr>\<rparr>"

definition sample_registry :: memory_registry where
  "sample_registry = \<lparr>mr_entries = [''root'' \<mapsto> (pad32 ''k'', System)], mr_poisoned = False,
     mr_identity = ''rk'', mr_did = ''did:mesh:registry''\<rparr>"

definition sample_attestation :: signed_attestation where
  "sample_attestation =
     issue_attestation toy_ext ac_subject_did ''rk'' ''did:mesh:registry'' (0, 0) ''root'' (pad32 ''k'')"

definition sample_signature :: bytes where
  "sample_signature = ed_sign toy_ext ''k'' (approval_payload toy_ext 1 ''did:mesh:a'' Trusted)"

lemma trusted_standard: "Trusted < Standard"
  by simp

lemma sample_verified:
  "sa_verify toy_ext ac_subject_did 5 sample_attestation (pad32 ''rk'') = Inr ()"
  "verify_signature toy_ext (identity_stub (pad32 ''k''))
     (approval_payload toy_ext 1 ''did:mesh:a'' Trusted) sample_signature"
proof -
  have "signed_by toy_ext ac_subject_did (b64_encode toy_ext (public_bytes toy_ext ''rk'')) sample_attestation"
    unfolding sample_attestation_def by (rule issued_signed_by) simp
  then show "sa_verify toy_ext ac_subject_did 5 sample_attestation (pad32 ''rk'') = Inr ()"
    by (simp add: sa_verify_ok_iff sample_attestation_def toy_ext_def)
  show "verify_signature toy_ext (identity_stub (pad32 ''k''))
     (approval_payload toy_ext 1 ''did:mesh:a'' Trusted) sample_signature"
    unfolding sample_signature_def
    by (rule verify_attested_key [OF crypto_ok_toy]) (simp add: identity_stub_def toy_ext_def)
qed

lemma sample_attested_key: "ac_public_key_b64 (sa_claim sample_attestation) = pad32 ''k''"
  by (simp add: sample_attestation_def)

theorem approved_iff_witness:
  "\<exists>ev m'. em_approve toy_ext ac_subject_did (\<lambda>_. Inr ''{}'') (5, 6) 1 ''root'' sample_signature
      (\<lambda>_. Inr (Some System)) (\<lambda>_. Inr (Some sample_attestation)) sample_manager = (Inr ev, m') \<and>
    ee_outcome ev = Approved \<and> em_pending m' 1 = None"
proof -
  obtain r m' where r: "em_approve toy_ext ac_subject_did (\<lambda>_. Inr ''{}'') (5, 6) 1 ''root'' sample_signature
      (\<lambda>_. Inr (Some System)) (\<lambda>_. Inr (Some sample_attestation)) sample_manager = (r, m')"
    by fastforce
  have "em_pending sample_manager 1 = Some sample_request" "em_registry_pubkey sample_manager = pad32 ''rk''"
    by (simp_all add: sample_manager_def)
  with approved_iff [OF r] r sample_verified sample_attested_key trusted_standard
  show ?thesis by (auto simp: sample_request_def)
qed

theorem system_agent_approves_witness:
  "\<exists>m'. em_approve toy_ext ac_subject_did (\<lambda>_. Inr ''{}'') (5, 6) 1 ''root'' sample_signature
      (\<lambda>d. fst (reg_get_ring (memory_registry_ops toy_ext ac_subject_did) sample_registry d))
      (\<lambda>d. fst (reg_get_attestation (memory_registry_ops toy_ext ac_subject_did) (0, 0) sample_registry d))
      sample_manager = (Inr (event_for 1 sample_request ''root'' Approved 6), m')"
proof -
  have h: "\<not> mr_poisoned sample_registry"
    "mr_entries sample_registry ''root'' = Some (b64_encode toy_ext (public_bytes toy_ext ''k''), System)"
    "em_pending sample_manager 1 = Some sample_request"
    "er_requested_ring sample_request < er_current_ring sample_request"
    "em_registry_pubkey sample_manager = b64_encode toy_ext (public_bytes toy_ext (mr_identity sample_registry))"
    "fst (5, 6 :: datetime) \<le> dt_add toy_ext (snd (0, 0)) (hours 24)"
    "sample_signature = ed_sign toy_ext ''k''
      (approval_payload toy_ext 1 (er_agent_did sample_request) (er_requested_ring sample_request))"
    by (simp_all add: sample_registry_def sample_manager_def sample_request_def sample_signature_def toy_ext_def)
  from system_agent_approves [OF crypto_ok_toy h, of ac_subject_did "\<lambda>_. Inr ''{}''"]
  show ?thesis by auto
qed

theorem decided_at_most_once_witness:
  "\<exists>ev m. em_run toy_ext ac_subject_did (\<lambda>_. Inr ''{}'') [(1, sample_request)] [ev] m \<and>
     ee_outcome ev = EscalationDenied ''no'' \<and> 1 \<notin> dom (em_pending m)"
proof -
  let ?run = "em_run toy_ext ac_subject_did (\<lambda>_. Inr ''{}'')"
  obtain m0 where m0: "em_new None ''pk'' False \<lparr>files = Map.empty, script = []\<rparr> =
      (Inr m0, \<lparr>files = Map.empty, script = []\<rparr>)" by (simp add: em_new_def Let_def)
  obtain i' m1 where m1: "request_escalation 1 sample_request m0 = (i', m1)" by fastforce
  have "?run [(1, sample_request)] [] m1"
    using em_run.request [OF em_run.start [OF m0] _ m1] by simp
  moreover have p1: "em_pending m1 1 = Some sample_request" using m1 by (auto simp: request_escalation_def)
  obtain ev m2 where d: "em_deny (\<lambda>_. Inr ''{}'') 7 1 ''anyone'' ''no'' m1 = (Inr ev, m2)"
    and out: "ee_outcome ev = EscalationDenied ''no''" and id: "ee_event_id ev = 1"
    using p1 by (simp add: em_deny_def Let_def)
  ultimately have r: "?run [(1, sample_request)] [ev] m2"
    using em_run.answer_deny [of toy_ext ac_subject_did "\<lambda>_. Inr ''{}''"] by fastforce
  from decided_at_most_once [OF r] id have "1 \<notin> dom (em_pending m2)" by fastforce
  with r out show ?thesis by blast
qed

theorem failed_approval_drops_request_witness:
  "\<exists>e m'. em_approve toy_ext ac_subject_did (\<lambda>_. Inr ''{}'') (5, 6) 1 ''nobody'' []
      (\<lambda>_. Inr None) (\<lambda>_. Inr None) sample_manager = (Inl e, m') \<and>
    fst (em_deny (\<lambda>_. Inr ''{}'') 7 1 ''root'' ''no'' m') = Inl ''Escalation request not found''"
proof -
  let ?gr = "\<lambda>_. Inr None :: privilege_ring option res"
  have p: "em_pending sample_manager 1 = Some sample_request" by (simp add: sample_manager_def)
  have n: "\<not> (\<exists>ring. ?gr ''nobody'' = Inr (Some ring))" by simp
  show ?thesis
    using failed_approval_drops_request [where gr = ?gr, OF p n] by (metis fst_conv)
qed

definition bound_ext :: ext where
  "bound_ext = toy_ext\<lparr>ed_verify := \<lambda>v m s. v = pad32 ''k'' \<longrightarrow>
     m = approval_payload toy_ext 1 ''did:mesh:a'' Trusted\<rparr>"

theorem approval_was_signed_witness:
  "\<exists>ev m'. em_approve bound_ext ac_subject_did (\<lambda>_. Inr ''{}'') (5, 6) 1 ''root'' []
      (\<lambda>_. Inr (Some System)) (\<lambda>_. Inr (Some sample_attestation)) sample_manager = (Inr ev, m') \<and>
    (ee_event_id ev, ee_agent_did ev, ee_to_ring ev) \<in> {(1, ''did:mesh:a'', Trusted)}"
proof -
  have pay: "approval_payload bound_ext = approval_payload toy_ext"
    by (simp add: fun_eq_iff approval_payload_def bound_ext_def toy_ext_def)
  have u: "uuid_ok bound_ext" using uuid_ok_toy by (simp add: uuid_ok_def bound_ext_def)
  have ne: "pad32 ''rk'' \<noteq> pad32 ''k''" by (simp add: pad32_def)
  have v: "sa_verify bound_ext ac_subject_did 5 sample_attestation (pad32 ''rk'') = Inr ()"
    "verify_signature bound_ext (identity_stub (pad32 ''k''))
      (approval_payload toy_ext 1 ''did:mesh:a'' Trusted) []"
    using ne by (simp_all add: sa_verify_def verify_signature_def identity_stub_def bound_ext_def
        sample_attestation_def) (simp_all add: toy_ext_def issue_attestation_def Let_def)
  have only: "only_signed bound_ext (ac_public_key_b64 (sa_claim sample_attestation))
      ((\<lambda>(j, d, r). approval_payload bound_ext j d r) ` {(1, ''did:mesh:a'', Trusted)})"
    by (simp add: only_signed_def sample_attested_key pay) (simp add: bound_ext_def toy_ext_def)
  have key: "b64_decode bound_ext (ac_public_key_b64 (sa_claim sample_attestation)) = Inr (pad32 ''k'')"
    by (simp add: sample_attested_key bound_ext_def toy_ext_def)
  have p: "em_pending sample_manager 1 = Some sample_request" by (simp add: sample_manager_def)
  have may: "may_approve bound_ext ac_subject_did (fst (5, 6 :: datetime)) (em_registry_pubkey sample_manager)
      1 sample_request ''root'' [] (\<lambda>_. Inr (Some System)) (\<lambda>_. Inr (Some sample_attestation))"
    using v by (simp add: may_approve_def sample_manager_def sample_attested_key pay sample_request_def)
  note a = approve_succeeds [OF p may, of "\<lambda>_. Inr ''{}''"]
  have out: "ee_outcome (event_for 1 sample_request ''root'' Approved (snd (5, 6 :: datetime))) = Approved" by simp
  show ?thesis
    using approval_was_signed [OF u a out refl key length_pad32 only] a by blast
qed

end
