(* ===== verification/Daemon_Auth.thy ===== *)
theory Daemon_Auth
  imports Escalation
begin

text \<open>
  Authentication of requests to the daemon: \<open>crates/daemon/src/grpc/auth.rs\<close>, and \<open>parse_did\<close>
  of \<open>crates/daemon/src/lib.rs\<close> (\<open>grpc/discovery.rs\<close> has the same function). A request
  carries the DID of the sender and its signature over the body; the registry attests the key.
\<close>

section \<open>Headers\<close>

text \<open>Header names are compared without regard to case; values are bytes.\<close>

type_synonym headers = "string \<rightharpoonup> bytes"

definition header_get :: "headers \<Rightarrow> string \<Rightarrow> bytes option" where
  "header_get h name = h (to_lowercase name)"

text \<open>\<open>HeaderValue::to_str\<close>: visible ASCII, blanks and tabs.\<close>

definition header_to_str :: "bytes \<Rightarrow> string option" where
  "header_to_str v = (if \<forall>c\<in>set v. byte_in 32 126 c \<or> byte_in 9 9 c then Some v else None)"

definition header_str :: "headers \<Rightarrow> string \<Rightarrow> string option" where
  "header_str h name = Option.bind (header_get h name) header_to_str"

section \<open>Request signatures\<close>

text \<open>
  \<open>t\<close> holds the readings of the clock: two when an attestation is issued, one when it is
  verified.
\<close>

definition agent_not_registered :: string where "agent_not_registered = ''Agent not registered''"

definition verify_request_signature ::
  "ext \<Rightarrow> claim_json \<Rightarrow> 'r registry_ops \<Rightarrow> readings \<times> datetime \<Rightarrow> string \<Rightarrow> bytes \<Rightarrow> bytes \<Rightarrow>
     string \<Rightarrow> 'r \<Rightarrow> unit res \<times> 'r" where
  "verify_request_signature X J R t did signature body registry_pubkey registry =
     (case reg_get_attestation R (fst t) registry did of
        (Inl e, registry') \<Rightarrow> (Inl e, registry')
      | (Inr None, registry') \<Rightarrow> (Inl agent_not_registered, registry')
      | (Inr (Some attestation), registry') \<Rightarrow>
          (case sa_verify X J (snd t) attestation registry_pubkey of
             Inl e \<Rightarrow> (Inl (''Registry attestation verification failed: ''
                          @ attestation_error_display e), registry')
           | Inr _ \<Rightarrow>
               if \<not> verify_signature X (identity_stub (ac_public_key_b64 (sa_claim attestation)))
                      body signature
               then (Inl ''Invalid signature'', registry')
               else (Inr (), registry')))"

text \<open>Errors of gRPC calls.\<close>

datatype grpc_code =
    Unauthenticated | Invalid_argument | Permission_denied | Not_found
  | Failed_precondition | Internal | Unimplemented

type_synonym grpc_status = "grpc_code \<times> string"

definition extract_grpc_auth :: "ext \<Rightarrow> headers \<Rightarrow> grpc_status + string \<times> bytes" where
  "extract_grpc_auth X metadata =
     (case header_get metadata ''x-agt-agent-did'' of
        None \<Rightarrow> Inl (Unauthenticated, ''Missing X-AGT-Agent-DID'')
      | Some dv \<Rightarrow> (case header_to_str dv of
          None \<Rightarrow> Inl (Unauthenticated, ''Invalid DID format'')
        | Some did \<Rightarrow> (case header_get metadata ''x-agt-signature'' of
            None \<Rightarrow> Inl (Unauthenticated, ''Missing X-AGT-Signature'')
          | Some sv \<Rightarrow> (case header_to_str sv of
              None \<Rightarrow> Inl (Unauthenticated, ''Invalid signature format'')
            | Some signature_b64 \<Rightarrow> (case b64_decode X signature_b64 of
                Inl _ \<Rightarrow> Inl (Invalid_argument, ''Invalid Base64 in signature'')
              | Inr signature \<Rightarrow> Inr (did, signature))))))"

section \<open>DIDs in text form\<close>

definition parse_did :: "string \<Rightarrow> agent_did res" where
  "parse_did s = (let parts = str_split CHR '':'' s in
     if length parts \<noteq> 3 \<or> parts ! 0 \<noteq> ''did'' \<or> parts ! 1 \<noteq> ''mesh''
     then Inl ''Invalid DID format''
     else Inr \<lparr>did_method = ''mesh'', did_unique_id = parts ! 2\<rparr>)"

lemma str_split_three:
  "CHR '':'' \<notin> set a \<Longrightarrow> CHR '':'' \<notin> set b \<Longrightarrow> CHR '':'' \<notin> set c \<Longrightarrow>
   str_split CHR '':'' (a @ CHR '':'' # b @ CHR '':'' # c) = [a, b, c]"
  by (simp add: str_split_append str_split_no_sep)

lemma length_three_conv: "length xs = 3 \<longleftrightarrow> (\<exists>a b c. xs = [a, b, c])"
  by (auto simp: length_Suc_conv numeral_3_eq_3)

section \<open>Authentication against a registry\<close>

context agent_registry
begin

text \<open>Who is let in: a registered agent whose registered key made the signature.\<close>

lemma authenticated_iff:
  assumes "usable s"
  shows "verify_request_signature X J R t did sig body pub s = (Inr (), s') \<longleftrightarrow>
    s' = s \<and> (\<exists>pk r. entries s did = Some (pk, r) \<and>
      sa_verify X J (snd t) (issue_attestation X J (rkey s) (rdid s) (fst t) did pk) pub = Inr () \<and>
      verify_signature X (identity_stub pk) body sig)"
  using get_attestation [OF assms, of "fst t" did]
  by (cases "entries s did") (auto simp: verify_request_signature_def split: sum.splits)

lemma authenticated_own_key:
  assumes "usable s" "crypto_ok X" "pub = b64_encode X (public_bytes X (rkey s))"
    and "snd t \<le> dt_add X (snd (fst t)) (hours 24)"
  shows "verify_request_signature X J R t did sig body pub s = (Inr (), s') \<longleftrightarrow>
    s' = s \<and> (\<exists>pk r. entries s did = Some (pk, r) \<and> verify_signature X (identity_stub pk) body sig)"
  using assms issued_signed_by
  by (simp add: authenticated_iff [OF assms(1)] sa_verify_ok_iff)

lemma verify_keeps_registry:
  "usable s \<Longrightarrow> verify_request_signature X J R t did sig body pub s = (r, s') \<Longrightarrow> s' = s"
  using get_attestation [of s "fst t" did]
  by (cases "entries s did") (auto simp: verify_request_signature_def split: sum.splits if_splits)

lemma unregistered_not_authenticated:
  "usable s \<Longrightarrow> entries s did = None \<Longrightarrow>
   verify_request_signature X J R t did sig body pub s = (Inl agent_not_registered, s)"
  by (simp add: verify_request_signature_def get_attestation)

end

section \<open>Properties\<close>

text \<open>
  A text is parsed as a DID exactly when it is the text form of a DID of method
  \<open>mesh\<close> whose identifier has no colon, and then that DID is returned.
\<close>

theorem parse_did_iff:
  "parse_did s = Inr d \<longleftrightarrow>
     s = did_display d \<and> did_method d = ''mesh'' \<and> CHR '':'' \<notin> set (did_unique_id d)"
proof
  assume p: "parse_did s = Inr d"
  then obtain c where c: "str_split CHR '':'' s = [''did'', ''mesh'', c]"
      "d = \<lparr>did_method = ''mesh'', did_unique_id = c\<rparr>"
    by (auto simp: parse_did_def Let_def length_three_conv split: if_splits)
  then have "CHR '':'' \<notin> set c" using str_split_pieces [of c "CHR '':''" s] by simp
  moreover have "s = ''did:mesh:'' @ c" using str_split_concat [of s "CHR '':''"] c(1) by simp
  ultimately show "s = did_display d \<and> did_method d = ''mesh'' \<and> CHR '':'' \<notin> set (did_unique_id d)"
    using c(2) by (simp add: did_display_def)
next
  assume d: "s = did_display d \<and> did_method d = ''mesh'' \<and> CHR '':'' \<notin> set (did_unique_id d)"
  then have "str_split CHR '':'' s = [''did'', ''mesh'', did_unique_id d]"
    using str_split_three [of "''did''" "''mesh''" "did_unique_id d"] by (simp add: did_display_def)
  with d show "parse_did s = Inr d" by (cases d) (simp add: parse_did_def Let_def)
qed

text \<open>
  C14: with a file registry whose public key the daemon is configured with, a request is
  authenticated exactly when its sender is registered and the signature over the body
  verifies under the key on record; nothing else about the request counts, and the registry
  is unchanged either way. Every agent that signs with its registered key is let in.
\<close>

theorem request_authenticated_iff:
  assumes "crypto_ok X" and "fr_usable C s"
    and "pub = b64_encode X (public_bytes X (mr_identity (fr_memory s)))"
    and "snd t \<le> dt_add X (snd (fst t)) (hours 24)"
  shows "((\<exists>s'. verify_request_signature X J (file_registry_ops X J C) t did sig body pub s = (Inr (), s')) \<longleftrightarrow>
      (\<exists>pk r. mr_entries (fr_memory s) did = Some (pk, r) \<and> verify_signature X (identity_stub pk) body sig)) \<and>
    snd (verify_request_signature X J (file_registry_ops X J C) t did sig body pub s) = s \<and>
    (\<forall>k r. mr_entries (fr_memory s) did = Some (b64_encode X (public_bytes X k), r) \<longrightarrow>
      verify_request_signature X J (file_registry_ops X J C) t did (ed_sign X k body) body pub s = (Inr (), s))"
proof -
  note iff = fr.authenticated_own_key [where C = C and J = J, OF assms(2,1,3,4)]
  have "verify_signature X (identity_stub (b64_encode X (public_bytes X k))) body (ed_sign X k body)" for k
    by (rule verify_attested_key [OF assms(1)]) (simp add: identity_stub_def)
  then show ?thesis
    using iff fr.verify_keeps_registry [where C = C and J = J, OF assms(2)]
    by (metis prod.exhaust_sel)
qed

theorem request_authenticated_iff_witness:
  "\<exists>s. verify_request_signature toy_ext ac_subject_did (file_registry_ops toy_ext ac_subject_did sample_codec)
     ((0, 0), 5) ''did:mesh:a'' (ed_sign toy_ext ''k'' ''hello'') ''hello'' (pad32 ''rk'') s = (Inr (), s)"
proof -
  let ?s = "\<lparr>fr_path = ''reg'', fr_memory = (mr_new ''rk'' ''did:mesh:registry'')
      \<lparr>mr_entries := [''did:mesh:a'' \<mapsto> (b64_encode toy_ext (public_bytes toy_ext ''k''), Standard)]\<rparr>,
    fr_fs = \<lparr>files = Map.empty, script = []\<rparr>\<rparr>"
  have u: "fr_usable sample_codec ?s" by (simp add: fr_usable_def mr_new_def sample_codec_def)
  have pub: "pad32 ''rk'' = b64_encode toy_ext (public_bytes toy_ext (mr_identity (fr_memory ?s)))"
    by (simp add: mr_new_def toy_ext_def)
  have t: "snd ((0 :: datetime, 0), 5) \<le> dt_add toy_ext (snd (fst ((0, 0), 5 :: datetime))) (hours 24)"
    by (simp add: toy_ext_def)
  from request_authenticated_iff [OF crypto_ok_toy u pub t, of ac_subject_did "''did:mesh:a''" _ "''hello''"]
  show ?thesis by (intro exI [of _ ?s]) simp
qed

end
