(* ===== verification/Hashed_Files.thy ===== *)
theory Hashed_Files
  imports Externals Filesystem
begin

text \<open>
  Directories with one JSON file per agent, named by the hash of the agent's DID and
  replaced by writing a temporary file and renaming it: what the key store and the policy
  store in files have in common.
\<close>

text \<open>Distinct agents have distinct files, and the temporary file is no agent's file.\<close>

lemma hashed_paths:
  assumes "sha_ok X"
  shows "with_extension ''tmp'' (path_join dir (sha256_hex X d @ ''.json'')) = path_join dir (sha256_hex X d @ ''.tmp'')"
    and "path_join dir (sha256_hex X d' @ ''.json'') \<noteq> with_extension ''tmp'' (path_join dir (sha256_hex X d @ ''.json''))"
    and "inj_on (sha256_hex X) D \<Longrightarrow> d \<in> D \<Longrightarrow> d' \<in> D \<Longrightarrow>
      path_join dir (sha256_hex X d @ ''.json'') = path_join dir (sha256_hex X d' @ ''.json'') \<longleftrightarrow> d = d'"
proof -
  have len: "length (sha256_hex X d) = 64" and hex: "set (sha256_hex X d) \<subseteq> set hex_digits"
    using assms by (simp_all add: sha_ok_def)
  have ne: "sha256_hex X d \<noteq> []" using len by auto
  have sl: "CHR ''/'' \<notin> set (sha256_hex X d)" using hex by (auto simp: hex_digits_def)
  show tmp: "with_extension ''tmp'' (path_join dir (sha256_hex X d @ ''.json'')) =
      path_join dir (sha256_hex X d @ ''.tmp'')"
    using with_extension_join [OF sl, of "''json''" "''tmp''" dir] ne by simp
  show "path_join dir (sha256_hex X d' @ ''.json'') \<noteq> with_extension ''tmp'' (path_join dir (sha256_hex X d @ ''.json''))"
    using assms unfolding tmp by (simp add: path_join_inj append_eq_append_conv sha_ok_def)
  show "inj_on (sha256_hex X) D \<Longrightarrow> d \<in> D \<Longrightarrow> d' \<in> D \<Longrightarrow>
      path_join dir (sha256_hex X d @ ''.json'') = path_join dir (sha256_hex X d' @ ''.json'') \<longleftrightarrow> d = d'"
    by (auto simp: path_join_inj inj_on_eq_iff)
qed

lemma fs_write_others: "fs_write p b w = (r, w') \<Longrightarrow> q \<noteq> p \<Longrightarrow> files w' q = files w q"
  by (auto simp: fs_write_def fs_append_def dest!: fs_next_eq split: prod.splits io_outcome.splits)

lemma fs_rename_fails: "fs_rename p q w = (Inl e, w') \<Longrightarrow> files w' = files w"
  by (auto simp: fs_rename_def dest!: fs_next_eq split: prod.splits io_outcome.splits option.splits)

text \<open>Without failing system calls, writing the temporary file and renaming it replaces the file.\<close>

lemma fs_replace:
  assumes "script w = []" "p \<noteq> tmp" "fs_write tmp b w = (r, w1)" "fs_rename tmp p w1 = (r', w2)"
  shows "r = Inr () \<and> r' = Inr () \<and> script w2 = [] \<and> files w2 = (files w)(p \<mapsto> b, tmp := None)"
  using assms by (auto simp: fs_defs split: if_splits)

lemma fs_remove_quiet:
  assumes "script w = []" "fs_remove p w = (r, w')" "files w p \<noteq> None"
  shows "r = Inr () \<and> script w' = [] \<and> files w' = (files w)(p := None)"
  using assms by (auto simp: fs_defs split: if_splits)

end
