(* ===== verification/Policy_Store.thy ===== *)
theory Policy_Store
  imports Hashed_Files Keystore
begin

text \<open>
  Policies of agents: \<open>McpPolicy\<close> of \<open>crates/ext/mcp-governance/src/lib.rs\<close> and the stores of
  \<open>store.rs\<close>: the trait \<open>PolicyStore\<close> as a record of operations over a state, its contract as
  the locale \<open>policy_store\<close>, and the implementations \<open>MemoryPolicyStore\<close> and
  \<open>FilePolicyStore\<close>, which interpret it. JSON (\<open>policy_codec\<close>) is a parameter.
\<close>

section \<open>Policies\<close>

record mcp_policy =
  mp_allowed_tools :: "string list"
  mp_denylist :: "string list"
  mp_allow_unknown_tools :: bool
  mp_max_requests_per_second :: u32

text \<open>What a policy read from JSON has when the field is missing.\<close>

definition default_rps :: u32 where "default_rps = 10"

text \<open>The derived \<open>Default\<close>, which \<open>default_rps\<close> does not take part in.\<close>

definition mcp_policy_default :: mcp_policy where
  "mcp_policy_default = \<lparr>mp_allowed_tools = [], mp_denylist = [],
     mp_allow_unknown_tools = False, mp_max_requests_per_second = 0\<rparr>"

section \<open>The trait and its contract\<close>

record 'p policy_ops =
  ps_save :: "'p \<Rightarrow> string \<Rightarrow> mcp_policy \<Rightarrow> unit res \<times> 'p"
  ps_load :: "'p \<Rightarrow> string \<Rightarrow> mcp_policy option res \<times> 'p"
  ps_delete :: "'p \<Rightarrow> string \<Rightarrow> unit res \<times> 'p"

text \<open>
  Any store that saves and loads, a remote one, too.
  \<open>policies s\<close> is the map a store in state \<open>s\<close> represents, \<open>usable s\<close> says that its operations
  do not fail, \<open>dids s\<close> are the agents and \<open>storable\<close> the policies the contract speaks about.
\<close>

locale policy_table =
  fixes P :: "'p policy_ops"
    and policies :: "'p \<Rightarrow> string \<rightharpoonup> mcp_policy"
    and usable :: "'p \<Rightarrow> bool"
    and dids :: "'p \<Rightarrow> string set"
    and storable :: "mcp_policy \<Rightarrow> bool"
  assumes save: "usable s \<Longrightarrow> d \<in> dids s \<Longrightarrow> storable p \<Longrightarrow>
      \<exists>s'. ps_save P s d p = (Inr (), s') \<and> usable s' \<and> dids s' = dids s \<and>
        (\<forall>d'\<in>dids s. policies s' d' = (if d' = d then Some p else policies s d'))"
    and load: "usable s \<Longrightarrow> d \<in> dids s \<Longrightarrow> \<exists>s'. ps_load P s d = (Inr (policies s d), s') \<and>
        usable s' \<and> dids s' = dids s \<and> (\<forall>d'\<in>dids s. policies s' d' = policies s d')"
begin

lemma load_after_save:
  assumes "usable s" "d \<in> dids s" "storable p" "ps_save P s d p = (r, s')" "d' \<in> dids s"
  shows "r = Inr () \<and>
    fst (ps_load P s' d') = Inr (if d' = d then Some p else policies s d')"
  using save [OF assms(1-3)] assms(4,5) load [of s' d'] by auto

end

text \<open>A local store: reading leaves it as it is, and policies can be deleted.\<close>

locale policy_store = policy_table +
  assumes load_same: "usable s \<Longrightarrow> d \<in> dids s \<Longrightarrow> ps_load P s d = (Inr (policies s d), s)"
    and delete: "usable s \<Longrightarrow> d \<in> dids s \<Longrightarrow>
      \<exists>s'. ps_delete P s d = (Inr (), s') \<and> usable s' \<and> dids s' = dids s \<and>
        (\<forall>d'\<in>dids s. policies s' d' = (if d' = d then None else policies s d'))"
begin

lemma load_after_delete:
  assumes "usable s" "d \<in> dids s" "ps_delete P s d = (r, s')" "d' \<in> dids s"
  shows "r = Inr () \<and> fst (ps_load P s' d') = Inr (if d' = d then None else policies s d')"
  using delete [OF assms(1,2)] assms(3,4) load [of s' d'] by auto

end

section \<open>\<open>MemoryPolicyStore\<close>\<close>

record memory_policy_store =
  mps_policies :: "string \<rightharpoonup> mcp_policy"
  mps_poisoned :: bool

definition mps_new :: memory_policy_store where
  "mps_new = \<lparr>mps_policies = Map.empty, mps_poisoned = False\<rparr>"

definition mps_save_policy ::
  "memory_policy_store \<Rightarrow> string \<Rightarrow> mcp_policy \<Rightarrow> unit res \<times> memory_policy_store" where
  "mps_save_policy s agent_did policy =
     (if mps_poisoned s then (Inl lock_poisoned, s)
      else (Inr (), s\<lparr>mps_policies := (mps_policies s)(agent_did \<mapsto> policy)\<rparr>))"

definition mps_load_policy ::
  "memory_policy_store \<Rightarrow> string \<Rightarrow> mcp_policy option res \<times> memory_policy_store" where
  "mps_load_policy s agent_did =
     (if mps_poisoned s then (Inl lock_poisoned, s) else (Inr (mps_policies s agent_did), s))"

definition mps_delete_policy ::
  "memory_policy_store \<Rightarrow> string \<Rightarrow> unit res \<times> memory_policy_store" where
  "mps_delete_policy s agent_did =
     (if mps_poisoned s then (Inl lock_poisoned, s)
      else (Inr (), s\<lparr>mps_policies := (mps_policies s)(agent_did := None)\<rparr>))"

definition mps_list_policies :: "memory_policy_store \<Rightarrow> (string \<rightharpoonup> mcp_policy) res" where
  "mps_list_policies s = (if mps_poisoned s then Inl lock_poisoned else Inr (mps_policies s))"

definition memory_policy_ops :: "memory_policy_store policy_ops" where
  "memory_policy_ops =
     \<lparr>ps_save = mps_save_policy, ps_load = mps_load_policy, ps_delete = mps_delete_policy\<rparr>"

lemmas mps_defs = mps_save_policy_def mps_load_policy_def mps_delete_policy_def memory_policy_ops_def

interpretation mps: policy_store memory_policy_ops mps_policies "\<lambda>s. \<not> mps_poisoned s" "\<lambda>_. UNIV"
    "\<lambda>_. True"
  by unfold_locales (auto simp: mps_defs)

section \<open>\<open>FilePolicyStore\<close>\<close>

record policy_codec =
  pc_to_json :: "mcp_policy \<Rightarrow> string res" \<comment> \<open>\<open>serde_json::to_string_pretty\<close>\<close>
  pc_of_json :: "string \<Rightarrow> mcp_policy res"

record file_policy_store =
  fps_base_dir :: string
  fps_fs :: fs

text \<open>\<open>dir_exists\<close> says what \<open>base_dir.exists()\<close> answered.\<close>

definition fps_new :: "bool \<Rightarrow> string \<Rightarrow> fs \<Rightarrow> file_policy_store res \<times> fs" where
  "fps_new dir_exists base_dir w =
     (case (if dir_exists then (Io_ok, w) else fs_next w) of
        (Io_err e _, w') \<Rightarrow> (Inl e, w')
      | (Io_ok, w') \<Rightarrow> (Inr \<lparr>fps_base_dir = base_dir, fps_fs = w'\<rparr>, w'))"

definition fps_get_path :: "ext \<Rightarrow> file_policy_store \<Rightarrow> string \<Rightarrow> string" where
  "fps_get_path X s agent_did = path_join (fps_base_dir s) (sha256_hex X agent_did @ ''.json'')"

definition fps_save_policy ::
  "ext \<Rightarrow> policy_codec \<Rightarrow> file_policy_store \<Rightarrow> string \<Rightarrow> mcp_policy \<Rightarrow> unit res \<times> file_policy_store" where
  "fps_save_policy X C s agent_did policy =
     (let path = fps_get_path X s agent_did in
      case pc_to_json C policy of
        Inl e \<Rightarrow> (Inl e, s)
      | Inr json \<Rightarrow>
          let tmp_path = with_extension ''tmp'' path in
          (case fs_write tmp_path json (fps_fs s) of
             (Inl e, w) \<Rightarrow> (Inl e, s\<lparr>fps_fs := w\<rparr>)
           | (Inr _, w) \<Rightarrow>
               (case fs_rename tmp_path path w of (r, w') \<Rightarrow> (r, s\<lparr>fps_fs := w'\<rparr>))))"

definition fps_load_policy ::
  "ext \<Rightarrow> policy_codec \<Rightarrow> file_policy_store \<Rightarrow> string \<Rightarrow> mcp_policy option res \<times> file_policy_store" where
  "fps_load_policy X C s agent_did =
     (let path = fps_get_path X s agent_did in
      case fs_exists path (fps_fs s) of
        (False, w) \<Rightarrow> (Inr None, s\<lparr>fps_fs := w\<rparr>)
      | (True, w) \<Rightarrow>
          (case fs_read_to_string path w of
             (Inl e, w') \<Rightarrow> (Inl e, s\<lparr>fps_fs := w'\<rparr>)
           | (Inr json, w') \<Rightarrow>
               (case pc_of_json C json of
                  Inl e \<Rightarrow> (Inl e, s\<lparr>fps_fs := w'\<rparr>)
                | Inr policy \<Rightarrow> (Inr (Some policy), s\<lparr>fps_fs := w'\<rparr>))))"

definition fps_delete_policy ::
  "ext \<Rightarrow> file_policy_store \<Rightarrow> string \<Rightarrow> unit res \<times> file_policy_store" where
  "fps_delete_policy X s agent_did =
     (let path = fps_get_path X s agent_did in
      case fs_exists path (fps_fs s) of
        (False, w) \<Rightarrow> (Inr (), s\<lparr>fps_fs := w\<rparr>)
      | (True, w) \<Rightarrow> (case fs_remove path w of (r, w') \<Rightarrow> (r, s\<lparr>fps_fs := w'\<rparr>)))"

text \<open>
  \<open>list_policies\<close>, from the file names \<open>read_dir\<close> yields: policies under the stems of their
  files, files that do not parse left out.
\<close>

fun fps_list_entries ::
  "policy_codec \<Rightarrow> string \<Rightarrow> string list \<Rightarrow> (string \<rightharpoonup> mcp_policy) \<Rightarrow> fs \<Rightarrow>
     (string \<rightharpoonup> mcp_policy) res \<times> fs" where
  "fps_list_entries C dir [] m w = (Inr m, w)"
| "fps_list_entries C dir (name # names) m w =
     (if path_extension name = Some ''json'' then
        (case fs_read_to_string (path_join dir name) w of
           (Inl e, w') \<Rightarrow> (Inl e, w')
         | (Inr json, w') \<Rightarrow>
             fps_list_entries C dir names
               (case pc_of_json C json of Inl _ \<Rightarrow> m | Inr policy \<Rightarrow> m(file_stem name \<mapsto> policy)) w')
      else fps_list_entries C dir names m w)"

definition fps_list_policies ::
  "policy_codec \<Rightarrow> file_policy_store \<Rightarrow> string list \<Rightarrow> (string \<rightharpoonup> mcp_policy) res \<times> file_policy_store" where
  "fps_list_policies C s names = (case fs_next (fps_fs s) of
       (Io_err e _, w) \<Rightarrow> (Inl e, s\<lparr>fps_fs := w\<rparr>)
     | (Io_ok, w) \<Rightarrow>
         (case fps_list_entries C (fps_base_dir s) names Map.empty w of (r, w') \<Rightarrow> (r, s\<lparr>fps_fs := w'\<rparr>)))"

definition file_policy_ops :: "ext \<Rightarrow> policy_codec \<Rightarrow> file_policy_store policy_ops" where
  "file_policy_ops X C =
     \<lparr>ps_save = fps_save_policy X C, ps_load = fps_load_policy X C, ps_delete = fps_delete_policy X\<rparr>"

text \<open>Distinct agents have distinct files, and the temporary file is no agent's file.\<close>

lemma fps_path_facts:
  assumes "sha_ok X"
  shows "with_extension ''tmp'' (fps_get_path X s d) = path_join (fps_base_dir s) (sha256_hex X d @ ''.tmp'')"
    and "fps_get_path X s d' \<noteq> with_extension ''tmp'' (fps_get_path X s d)"
    and "inj_on (sha256_hex X) D \<Longrightarrow> d \<in> D \<Longrightarrow> d' \<in> D \<Longrightarrow> fps_get_path X s d = fps_get_path X s d' \<longleftrightarrow> d = d'"
  using hashed_paths [OF assms] by (auto simp: fps_get_path_def)

text \<open>What a policy file holds: JSON that reads back as the policy.\<close>

definition policy_json_ok :: "policy_codec \<Rightarrow> mcp_policy \<Rightarrow> bool" where
  "policy_json_ok C p \<longleftrightarrow> (\<exists>j. pc_to_json C p = Inr j \<and> utf8_valid j \<and> pc_of_json C j = Inr p)"

definition fps_policies :: "ext \<Rightarrow> policy_codec \<Rightarrow> file_policy_store \<Rightarrow> string \<rightharpoonup> mcp_policy" where
  "fps_policies X C s d = (case files (fps_fs s) (fps_get_path X s d) of
       None \<Rightarrow> None
     | Some c \<Rightarrow> (case pc_of_json C c of Inl _ \<Rightarrow> None | Inr p \<Rightarrow> Some p))"

text \<open>
  The agents \<open>D\<close> have distinct hashes, the store's files parse and no system call fails.
\<close>

definition fps_usable :: "ext \<Rightarrow> policy_codec \<Rightarrow> string set \<Rightarrow> file_policy_store \<Rightarrow> bool" where
  "fps_usable X C D s \<longleftrightarrow> sha_ok X \<and> inj_on (sha256_hex X) D \<and> script (fps_fs s) = [] \<and>
     (\<forall>d\<in>D. \<forall>c. files (fps_fs s) (fps_get_path X s d) = Some c \<longrightarrow>
        utf8_valid c \<and> is_ok (pc_of_json C c))"

lemma fps_get_path_fs [simp]: "fps_get_path X (s\<lparr>fps_fs := w\<rparr>) d = fps_get_path X s d"
  by (simp add: fps_get_path_def)

lemma fps_save_usable:
  assumes "fps_usable X C D s" "d \<in> D" "policy_json_ok C p"
  shows "\<exists>s'. fps_save_policy X C s d p = (Inr (), s') \<and> fps_usable X C D s' \<and>
    (\<forall>d'\<in>D. fps_policies X C s' d' = (if d' = d then Some p else fps_policies X C s d'))"
proof -
  note paths = fps_path_facts(2,3) [where X = X and s = s]
  obtain j where j: "pc_to_json C p = Inr j" "utf8_valid j" "pc_of_json C j = Inr p"
    using assms(3) unfolding policy_json_ok_def by blast
  have u: "sha_ok X" "inj_on (sha256_hex X) D" "script (fps_fs s) = []"
    using assms(1) by (simp_all add: fps_usable_def)
  let ?f = "(files (fps_fs s))(fps_get_path X s d \<mapsto> j, with_extension ''tmp'' (fps_get_path X s d) := None)"
  have "fps_save_policy X C s d p = (Inr (), s\<lparr>fps_fs := (fps_fs s)\<lparr>files := ?f\<rparr>\<rparr>)"
    using j(1) u(3) paths(1) [OF u(1), of d d]
    by (simp add: fps_save_policy_def fs_defs Let_def fun_upd_twist)
  moreover have "?f (fps_get_path X s d') = (if d' = d then Some j else files (fps_fs s) (fps_get_path X s d'))"
    if "d' \<in> D" for d'
    using paths(1) [OF u(1), of d' d] paths(2) [OF u(1,2) that assms(2)] by auto
  ultimately show ?thesis
    using assms(1) j by (auto simp: fps_usable_def fps_policies_def)
qed

lemma fps_delete_usable:
  assumes "fps_usable X C D s" "d \<in> D"
  shows "\<exists>s'. fps_delete_policy X s d = (Inr (), s') \<and> fps_usable X C D s' \<and>
    (\<forall>d'\<in>D. fps_policies X C s' d' = (if d' = d then None else fps_policies X C s d'))"
proof (cases "files (fps_fs s) (fps_get_path X s d)")
  case None
  then show ?thesis using assms
    by (auto simp: fps_delete_policy_def fs_defs Let_def fps_usable_def fps_policies_def)
next
  case (Some c)
  have u: "sha_ok X" "inj_on (sha256_hex X) D" "script (fps_fs s) = []"
    using assms(1) by (simp_all add: fps_usable_def)
  let ?f = "(files (fps_fs s))(fps_get_path X s d := None)"
  have "fps_delete_policy X s d = (Inr (), s\<lparr>fps_fs := (fps_fs s)\<lparr>files := ?f\<rparr>\<rparr>)"
    using Some u(3) by (simp add: fps_delete_policy_def fs_defs Let_def)
  moreover have "?f (fps_get_path X s d') = (if d' = d then None else files (fps_fs s) (fps_get_path X s d'))"
    if "d' \<in> D" for d'
    using fps_path_facts(3) [OF u(1,2) that assms(2), of s] by auto
  ultimately show ?thesis using assms(1) by (auto simp: fps_usable_def fps_policies_def)
qed

text \<open>What a load without failures returns depends on the agent's file only.\<close>

lemma fps_load_quiet:
  "fst (fps_load_policy X C (s\<lparr>fps_fs := (fps_fs s)\<lparr>script := []\<rparr>\<rparr>) d) =
     (case files (fps_fs s) (fps_get_path X s d) of
        None \<Rightarrow> Inr None
      | Some c \<Rightarrow> if utf8_valid c then map_sum id Some (pc_of_json C c) else Inl invalid_utf8)"
proof -
  have "fps_get_path X (s\<lparr>fps_fs := w\<rparr>) d = fps_get_path X s d" for w by (simp add: fps_get_path_def)
  then show ?thesis
    by (simp add: fps_load_policy_def fs_exists_def fs_read_to_string_def fs_read_def Let_def
        split: option.split sum.split)
qed

lemma fps_load_usable:
  assumes "fps_usable X C D s" "d \<in> D"
  shows "fps_load_policy X C s d = (Inr (fps_policies X C s d), s)"
proof (cases "files (fps_fs s) (fps_get_path X s d)")
  case None
  then show ?thesis using assms
    by (simp add: fps_load_policy_def fs_defs Let_def fps_usable_def fps_policies_def)
next
  case (Some c)
  with assms have "utf8_valid c" "is_ok (pc_of_json C c)" "script (fps_fs s) = []"
    by (auto simp: fps_usable_def)
  with Some show ?thesis
    by (cases "pc_of_json C c")
      (simp_all add: fps_load_policy_def fs_defs fs_read_to_string_def Let_def fps_policies_def)
qed

interpretation fps: policy_store "file_policy_ops X C" "fps_policies X C" "fps_usable X C D" "\<lambda>_. D"
    "policy_json_ok C"
  for X C D
  by unfold_locales
    (simp_all add: file_policy_ops_def fps_load_usable fps_save_usable fps_delete_usable)

section \<open>Properties\<close>

text \<open>
  C31: a file policy store returns the policy saved last for each agent: after a save or a
  deletion the agent's policy is the new one or none, and every other agent's is untouched.
\<close>

theorem saved_policy_is_loaded:
  assumes "fps_usable X C D s" and "d \<in> D" and "d' \<in> D" and "policy_json_ok C p"
    and "fps_save_policy X C s d p = (r, s1)" and "fps_delete_policy X s1 d = (r', s2)"
  shows "r = Inr () \<and> r' = Inr () \<and>
    fst (fps_load_policy X C s1 d') = (if d' = d then Inr (Some p) else fst (fps_load_policy X C s d')) \<and>
    fst (fps_load_policy X C s2 d') = (if d' = d then Inr None else fst (fps_load_policy X C s d'))"
proof -
  have s1: "fps_usable X C D s1" "r = Inr ()"
    "\<forall>d'\<in>D. fps_policies X C s1 d' = (if d' = d then Some p else fps_policies X C s d')"
    using fps_save_usable [OF assms(1,2,4)] assms(5) by auto
  have s2: "fps_usable X C D s2" "r' = Inr ()"
    "\<forall>d'\<in>D. fps_policies X C s2 d' = (if d' = d then None else fps_policies X C s1 d')"
    using fps_delete_usable [OF s1(1) assms(2)] assms(6) by auto
  show ?thesis
    using s1(2,3) s2(2,3) assms(3) fps_load_usable [OF assms(1,3)] fps_load_usable [OF s1(1) assms(3)]
      fps_load_usable [OF s2(1) assms(3)] by simp
qed

text \<open>
  C13: a save that fails, at whatever system call and however much of the text was written by
  then, leaves every agent's stored policy as it was, the saved one's included: loading it without
  further failures gives what it gave before. The policy is written to a temporary file and moved
  into place only when it is complete.
\<close>

theorem failed_save_keeps_policies:
  assumes "sha_ok X" and "fps_save_policy X C s d p = (Inl e, s')"
  shows "files (fps_fs s') (fps_get_path X s d') = files (fps_fs s) (fps_get_path X s d') \<and>
    fst (fps_load_policy X C (s'\<lparr>fps_fs := (fps_fs s')\<lparr>script := []\<rparr>\<rparr>) d') =
      fst (fps_load_policy X C (s\<lparr>fps_fs := (fps_fs s)\<lparr>script := []\<rparr>\<rparr>) d')"
proof -
  have files: "files (fps_fs s') (fps_get_path X s d') = files (fps_fs s) (fps_get_path X s d')"
    and dir: "fps_base_dir s' = fps_base_dir s"
    using assms(2) fps_path_facts(2) [OF assms(1), of s d' d]
    by (auto simp: fps_save_policy_def Let_def dest!: fs_write_others fs_rename_fails
        split: sum.splits prod.splits)
  have "fps_get_path X s' d' = fps_get_path X s d'" using dir by (simp add: fps_get_path_def)
  with files show ?thesis by (simp add: fps_load_quiet)
qed

definition sample_policy :: mcp_policy where
  "sample_policy = \<lparr>mp_allowed_tools = [], mp_denylist = [''delete_secret''],
     mp_allow_unknown_tools = False, mp_max_requests_per_second = 10\<rparr>"

definition sample_policy_codec :: policy_codec where
  "sample_policy_codec = \<lparr>pc_to_json = (\<lambda>_. Inr ''{}''),
     pc_of_json = (\<lambda>_. Inr sample_policy)\<rparr>"

definition sample_policy_dir :: file_policy_store where
  "sample_policy_dir = \<lparr>fps_base_dir = ''policies'', fps_fs = \<lparr>files = Map.empty, script = []\<rparr>\<rparr>"

lemma toy_hash_ab: "sha256_hex toy_ext ''a'' \<noteq> sha256_hex toy_ext ''b''"
  by (simp add: toy_ext_def to_hex_def hex_digits_def)

theorem saved_policy_is_loaded_witness:
  "\<exists>r s1. fps_save_policy toy_ext sample_policy_codec sample_policy_dir ''a'' sample_policy = (r, s1) \<and>
     fst (fps_load_policy toy_ext sample_policy_codec s1 ''a'') = Inr (Some sample_policy)"
proof -
  have u: "fps_usable toy_ext sample_policy_codec {''a'', ''b''} sample_policy_dir"
    using toy_hash_ab by (simp add: fps_usable_def sample_policy_dir_def)
  have j: "policy_json_ok sample_policy_codec sample_policy"
    by (simp add: policy_json_ok_def sample_policy_codec_def byte_in_def)
  obtain r s1 where s1: "fps_save_policy toy_ext sample_policy_codec sample_policy_dir ''a'' sample_policy = (r, s1)"
    by fastforce
  obtain r' s2 where s2: "fps_delete_policy toy_ext s1 ''a'' = (r', s2)" by fastforce
  from saved_policy_is_loaded [OF u _ _ j s1 s2, of "''a''"] s1 show ?thesis by auto
qed

theorem failed_save_keeps_policies_witness:
  "\<exists>s e s'. fps_save_policy toy_ext sample_policy_codec s ''a'' sample_policy = (Inl e, s') \<and>
     fst (fps_load_policy toy_ext sample_policy_codec (s'\<lparr>fps_fs := (fps_fs s')\<lparr>script := []\<rparr>\<rparr>) ''a'') =
       Inr (Some sample_policy)"
proof -
  let ?path = "fps_get_path toy_ext sample_policy_dir ''a''"
  let ?s = "sample_policy_dir\<lparr>fps_fs := \<lparr>files = [?path \<mapsto> ''{}''], script = [Io_ok, Io_err ''disk full'' 1]\<rparr>\<rparr>"
  obtain s' where s': "fps_save_policy toy_ext sample_policy_codec ?s ''a'' sample_policy = (Inl ''disk full'', s')"
    by (simp add: fps_save_policy_def sample_policy_codec_def fs_defs fs_next_def Let_def)
  have "utf8_valid ''{}''" by (rule utf8_ascii) (auto simp: byte_in_def)
  then have "fst (fps_load_policy toy_ext sample_policy_codec (?s\<lparr>fps_fs := (fps_fs ?s)\<lparr>script := []\<rparr>\<rparr>) ''a'') =
      Inr (Some sample_policy)"
    unfolding fps_load_quiet by (simp add: fps_get_path_def sample_policy_codec_def)
  with failed_save_keeps_policies [OF sha_ok_toy s', of "''a''"] s' show ?thesis by metis
qed

section \<open>Saves that overlap\<close>

text \<open>
  Nothing is held between the two steps of a save, and both use the one temporary file of the
  agent.
\<close>

definition fps_stage ::
  "ext \<Rightarrow> policy_codec \<Rightarrow> string \<Rightarrow> mcp_policy \<Rightarrow> file_policy_store \<Rightarrow> unit res \<times> file_policy_store" where
  "fps_stage X C agent_did policy s =
     (case pc_to_json C policy of
        Inl e \<Rightarrow> (Inl e, s)
      | Inr json \<Rightarrow>
          (case fs_write (with_extension ''tmp'' (fps_get_path X s agent_did)) json (fps_fs s) of
             (r, w) \<Rightarrow> (r, s\<lparr>fps_fs := w\<rparr>)))"

definition fps_move :: "ext \<Rightarrow> string \<Rightarrow> file_policy_store \<Rightarrow> unit res \<times> file_policy_store" where
  "fps_move X agent_did s =
     (let path = fps_get_path X s agent_did in
      case fs_rename (with_extension ''tmp'' path) path (fps_fs s) of (r, w) \<Rightarrow> (r, s\<lparr>fps_fs := w\<rparr>))"

lemma fps_save_steps:
  "fps_save_policy X C s did p =
     (case fps_stage X C did p s of (Inl e, s1) \<Rightarrow> (Inl e, s1) | (Inr _, s1) \<Rightarrow> fps_move X did s1)"
  by (simp add: fps_save_policy_def fps_stage_def fps_move_def fps_get_path_def Let_def
      split: sum.split prod.split)

text \<open>
  Two saves for one agent whose steps alternate: the first is told that its policy was saved,
  but the other's is stored; the second is told that it failed, though its policy is the one
  in force.
\<close>

theorem overlapping_saves_mislead:
  assumes "sha_ok X" and "script (fps_fs s) = []"
    and "pc_to_json C p = Inr j" and "pc_to_json C q = Inr k"
    and "fps_stage X C did p s = (r1, s1)" and "fps_stage X C did q s1 = (r2, s2)"
    and "fps_move X did s2 = (r3, s3)" and "fps_move X did s3 = (r4, s4)"
  shows "r1 = Inr () \<and> r2 = Inr () \<and> r3 = Inr () \<and> r4 = Inl enoent \<and>
    files (fps_fs s4) (fps_get_path X s did) = Some k"
proof -
  have "fps_get_path X s did \<noteq> with_extension ''tmp'' (fps_get_path X s did)"
    using fps_path_facts(2) [OF assms(1)] by auto
  then show ?thesis
    using assms(2-)
    by (auto simp: fps_stage_def fps_move_def fps_get_path_def fs_defs Let_def)
qed

theorem overlapping_saves_mislead_witness:
  "\<exists>s1 s2 s3 s4. fps_stage toy_ext sample_policy_codec ''a'' sample_policy sample_policy_dir = (Inr (), s1) \<and>
     fps_stage toy_ext sample_policy_codec ''a'' sample_policy s1 = (Inr (), s2) \<and>
     fps_move toy_ext ''a'' s2 = (Inr (), s3) \<and> fps_move toy_ext ''a'' s3 = (Inl enoent, s4)"
proof -
  obtain r1 s1 r2 s2 r3 s3 r4 s4 where
    "fps_stage toy_ext sample_policy_codec ''a'' sample_policy sample_policy_dir = (r1, s1)"
    "fps_stage toy_ext sample_policy_codec ''a'' sample_policy s1 = (r2, s2)"
    "fps_move toy_ext ''a'' s2 = (r3, s3)" "fps_move toy_ext ''a'' s3 = (r4, s4)"
    by (meson surj_pair)
  with overlapping_saves_mislead [OF sha_ok_toy _ _ _ this] show ?thesis
    by (simp add: sample_policy_dir_def sample_policy_codec_def)
qed

end
