(* ===== verification/Json.thy ===== *)
theory Json
  imports Prelude_AGT
begin

text \<open>
  JSON values (\<open>serde_json::Value\<close>), where the code inspects them: the arguments of a tool
  call, the policies and states of the kernel. A number is kept as its text, the members
  of an object in the order of its keys.
\<close>

datatype json =
    Jnull | Jbool bool | Jnum string | Jstr string
  | Jarr "json list" | Jobj "(string \<times> json) list"

text \<open>\<open>Value::get\<close> with a string, and \<open>Value::as_str\<close>.\<close>

fun json_get :: "json \<Rightarrow> string \<Rightarrow> json option" where
  "json_get (Jobj members) k = map_of members k"
| "json_get _ k = None"

fun json_as_str :: "json \<Rightarrow> string option" where
  "json_as_str (Jstr s) = Some s"
| "json_as_str _ = None"

fun json_as_array :: "json \<Rightarrow> json list option" where
  "json_as_array (Jarr vs) = Some vs"
| "json_as_array _ = None"

fun json_as_object :: "json \<Rightarrow> (string \<times> json) list option" where
  "json_as_object (Jobj members) = Some members"
| "json_as_object _ = None"

text \<open>A \<open>HashMap<String, Value>\<close>.\<close>

type_synonym json_map = "string \<rightharpoonup> json"

end
