(* ===== verification/Mcp_Governance.thy ===== *)
theory Mcp_Governance
  imports Privilege Policy_Store Json
begin

text \<open>
  The policy enforcer for MCP tool calls, \<open>crates/ext/mcp-governance/src/lib.rs\<close>: the tools
  it knows, the classification of a call by its arguments, and the decision. It runs on any
  policy store. The arguments of a call are JSON values, which the code inspects.
\<close>

section \<open>Tools and decisions\<close>

record classification_rule =
  cr_param_name :: string
  cr_pattern :: string
  cr_override_category :: data_category

record mcp_tool =
  mt_name :: string
  mt_description :: string
  mt_required_ring :: privilege_ring
  mt_default_category :: data_category
  mt_classification_rules :: "classification_rule list"

datatype enforcement_decision =
    Allow | Deny (deny_reason: string) | EscalateRequired (requested_ring: privilege_ring)

section \<open>The enforcer\<close>

text \<open>The tools; the store of policies is passed to the calls that use it.\<close>

type_synonym policy_enforcer = "string \<rightharpoonup> mcp_tool"

definition enforcer_new :: policy_enforcer where
  "enforcer_new = Map.empty"

definition register_tool :: "policy_enforcer \<Rightarrow> mcp_tool \<Rightarrow> policy_enforcer" where
  "register_tool tools tool = tools(mt_name tool \<mapsto> tool)"

definition get_tool :: "policy_enforcer \<Rightarrow> string \<Rightarrow> mcp_tool option" where
  "get_tool tools name = tools name"

definition set_policy :: "'p policy_ops \<Rightarrow> 'p \<Rightarrow> string \<Rightarrow> mcp_policy \<Rightarrow> unit res \<times> 'p" where
  "set_policy P store agent_did policy = ps_save P store agent_did policy"

text \<open>A rule that fires: its parameter is a string argument that contains its pattern.\<close>

definition rule_matches :: "json \<Rightarrow> classification_rule \<Rightarrow> bool" where
  "rule_matches args rule =
     (case json_get args (cr_param_name rule) of
        None \<Rightarrow> False
      | Some v \<Rightarrow> (case json_as_str v of
            None \<Rightarrow> False
          | Some val \<Rightarrow> str_contains val (cr_pattern rule)))"

fun apply_rules :: "json \<Rightarrow> classification_rule list \<Rightarrow> data_category \<Rightarrow> data_category" where
  "apply_rules args [] category = category"
| "apply_rules args (rule # rules) category =
     (if rule_matches args rule then cr_override_category rule else apply_rules args rules category)"

definition classify :: "policy_enforcer \<Rightarrow> string \<Rightarrow> json \<Rightarrow> data_category" where
  "classify tools tool_name args =
     (case tools tool_name of
        None \<Rightarrow> Unknown
      | Some tool \<Rightarrow> apply_rules args (mt_classification_rules tool) (mt_default_category tool))"

definition not_registered :: string where
  "not_registered = ''Tool not registered in AGT mesh (fail-closed)''"

text \<open>The check of an agent's policy, once the tool is known and the ring suffices.\<close>

definition check_policy :: "mcp_policy option res \<Rightarrow> string \<Rightarrow> enforcement_decision" where
  "check_policy loaded tool_name = (case loaded of
       Inr (Some policy) \<Rightarrow>
         if tool_name \<in> set (mp_denylist policy)
         then Deny ''Tool explicitly denied by policy''
         else if mp_allowed_tools policy \<noteq> [] \<and> tool_name \<notin> set (mp_allowed_tools policy)
         then Deny ''Tool not in agent allowlist''
         else Allow
     | Inr None \<Rightarrow> Deny ''No policy registered for agent''
     | Inl e \<Rightarrow> Deny (''Policy store error: '' @ e))"

definition enforcer_evaluate ::
  "'p policy_ops \<Rightarrow> policy_enforcer \<Rightarrow> 'p \<Rightarrow> string \<Rightarrow> privilege_ring \<Rightarrow> string \<Rightarrow> json \<Rightarrow>
     enforcement_decision \<times> 'p" where
  "enforcer_evaluate P tools store agent_did agent_ring tool_name args =
     (case tools tool_name of
        None \<Rightarrow>
          (case ps_load P store agent_did of
             (Inr (Some policy), store') \<Rightarrow>
               if mp_allow_unknown_tools policy then (Allow, store')
               else (Deny not_registered, store')
           | (_, store') \<Rightarrow> (Deny not_registered, store'))
      | Some tool \<Rightarrow>
          if \<not> fst (can_execute agent_did agent_ring (mt_required_ring tool) tool_name)
          then if mt_required_ring tool < agent_ring
            then (EscalateRequired (mt_required_ring tool), store)
            else (Deny (''Insufficient privilege ring: agent is '' @ ring_display agent_ring @
                        '', tool requires '' @ ring_display (mt_required_ring tool)), store)
          else (case ps_load P store agent_did of
                  (loaded, store') \<Rightarrow> (check_policy loaded tool_name, store')))"

definition can_call_tool ::
  "'p policy_ops \<Rightarrow> policy_enforcer \<Rightarrow> 'p \<Rightarrow> string \<Rightarrow> privilege_ring \<Rightarrow> string \<Rightarrow> bool \<times> 'p" where
  "can_call_tool P tools store agent_did agent_ring tool_name =
     (case enforcer_evaluate P tools store agent_did agent_ring tool_name Jnull of
        (d, store') \<Rightarrow> (d = Allow, store'))"

section \<open>Decisions against a store that answers\<close>

text \<open>The specification: what is decided from the tool, the ring and the policy on record.\<close>

definition decision ::
  "policy_enforcer \<Rightarrow> mcp_policy option \<Rightarrow> privilege_ring \<Rightarrow> string \<Rightarrow> enforcement_decision" where
  "decision tools policy ring name =
     (case tools name of
        None \<Rightarrow> if \<exists>p. policy = Some p \<and> mp_allow_unknown_tools p then Allow else Deny not_registered
      | Some tool \<Rightarrow>
          if mt_required_ring tool < ring then EscalateRequired (mt_required_ring tool)
          else check_policy (Inr policy) name)"

context policy_store
begin

lemma evaluate_decision:
  assumes "usable s" "d \<in> dids s"
  shows "enforcer_evaluate P tools s d ring name args = (decision tools (policies s d) ring name, s)"
  using assms
  by (auto simp: enforcer_evaluate_def decision_def load_same not_le split: option.splits)

lemma evaluate_after_save:
  assumes "usable s" "d \<in> dids s" "storable p" "set_policy P s d p = (r, s')" "d' \<in> dids s"
  shows "r = Inr () \<and> fst (enforcer_evaluate P tools s' d' ring name args) =
    decision tools (if d' = d then Some p else policies s d') ring name"
proof -
  from save [OF assms(1-3)] assms(4,5)
  have s': "r = Inr ()" "usable s'" "d' \<in> dids s'"
    "policies s' d' = (if d' = d then Some p else policies s d')" by (auto simp: set_policy_def)
  then show ?thesis by (simp add: evaluate_decision)
qed

end

lemma decision_allow_iff:
  "decision tools policy ring name = Allow \<longleftrightarrow>
     (\<exists>p. policy = Some p \<and> (case tools name of
        None \<Rightarrow> mp_allow_unknown_tools p
      | Some tool \<Rightarrow> ring \<le> mt_required_ring tool \<and> name \<notin> set (mp_denylist p) \<and>
          (mp_allowed_tools p = [] \<or> name \<in> set (mp_allowed_tools p))))"
  by (auto simp: decision_def check_policy_def not_less split: option.splits)

lemma apply_rules_first:
  "apply_rules args rules c =
     (case filter (rule_matches args) rules of [] \<Rightarrow> c | rule # _ \<Rightarrow> cr_override_category rule)"
  by (induction rules) auto

section \<open>Properties\<close>

text \<open>
  A call of an agent is allowed exactly when the agent has a policy that can be loaded
  and, for a registered tool, the agent's ring suffices, the tool is not on the denylist and
  the allowlist is empty or names it; for a tool that is not registered, when the policy
  allows unknown tools, whatever its lists and the agent's ring are.
\<close>

theorem allowed_iff:
  "fst (enforcer_evaluate P tools s d ring name args) = Allow \<longleftrightarrow>
     (\<exists>p. fst (ps_load P s d) = Inr (Some p) \<and>
        (case tools name of
           None \<Rightarrow> mp_allow_unknown_tools p
         | Some tool \<Rightarrow> ring \<le> mt_required_ring tool \<and> name \<notin> set (mp_denylist p) \<and>
             (mp_allowed_tools p = [] \<or> name \<in> set (mp_allowed_tools p))))"
  by (auto simp: enforcer_evaluate_def check_policy_def split: option.splits prod.splits sum.splits)

text \<open>
  An agent is asked to escalate exactly when the tool is registered and needs a more
  privileged ring, to the ring the tool needs, and then the policy is not consulted; so the
  denial for an insufficient ring is never given.
\<close>

theorem escalation_iff:
  "(fst (enforcer_evaluate P tools s d ring name args) = EscalateRequired req \<longleftrightarrow>
      (\<exists>tool. tools name = Some tool \<and> mt_required_ring tool < ring \<and> req = mt_required_ring tool)) \<and>
   fst (enforcer_evaluate P tools s d ring name args) \<noteq>
     Deny (''Insufficient privilege ring: agent is '' @ w)"
  by (auto simp: enforcer_evaluate_def check_policy_def not_registered_def not_le
      split: option.splits prod.splits sum.splits)

text \<open>
  A call is classified by the first rule, in the order of the tool's list, whose
  parameter is a string argument that contains the rule's pattern, and by the tool's default
  category when no rule fires; a tool that is not registered is classified as unknown.
\<close>

theorem classified_by_first_match:
  "classify tools name args =
     (case tools name of
        None \<Rightarrow> Unknown
      | Some tool \<Rightarrow>
          (case filter (\<lambda>rule. \<exists>val pre post. json_get args (cr_param_name rule) = Some (Jstr val) \<and>
                   val = pre @ cr_pattern rule @ post) (mt_classification_rules tool) of
             [] \<Rightarrow> mt_default_category tool
           | rule # _ \<Rightarrow> cr_override_category rule))"
proof -
  have "rule_matches args rule \<longleftrightarrow> (\<exists>val pre post. json_get args (cr_param_name rule) = Some (Jstr val) \<and>
      val = pre @ cr_pattern rule @ post)" for rule
    by (auto simp: rule_matches_def sublist_def elim!: json_as_str.elims split: option.splits)
  then have "rule_matches args = (\<lambda>rule. \<exists>val pre post. json_get args (cr_param_name rule) = Some (Jstr val) \<and>
      val = pre @ cr_pattern rule @ post)" by (intro ext)
  then show ?thesis by (simp add: classify_def apply_rules_first split: option.splits)
qed

text \<open>
  C23: a policy set through the enforcer takes effect at the next call, also across processes
  that share a policy directory: with a file store the decisions for the agent follow the
  policy set, those for every other agent are unchanged.
\<close>

theorem policy_takes_effect:
  assumes "fps_usable X C D s" and "d \<in> D" and "d' \<in> D" and "policy_json_ok C p"
    and "set_policy (file_policy_ops X C) s d p = (r, s')"
  shows "r = Inr () \<and>
    fst (enforcer_evaluate (file_policy_ops X C) tools s' d' ring name args) =
      (if d' = d
       then (case tools name of
          None \<Rightarrow> if mp_allow_unknown_tools p then Allow else Deny not_registered
        | Some tool \<Rightarrow>
            if mt_required_ring tool < ring then EscalateRequired (mt_required_ring tool)
            else if name \<in> set (mp_denylist p) then Deny ''Tool explicitly denied by policy''
            else if mp_allowed_tools p = [] then Allow
            else if name \<in> set (mp_allowed_tools p) then Allow
            else Deny ''Tool not in agent allowlist'')
       else fst (enforcer_evaluate (file_policy_ops X C) tools s d' ring name args))"
  using fps.evaluate_after_save [OF assms(1,2,4,5,3), of tools ring name args]
    fps.evaluate_decision [OF assms(1,3), of tools ring name args]
  by (simp add: decision_def check_policy_def split: option.splits)

theorem policy_takes_effect_witness:
  "\<exists>s'. set_policy (file_policy_ops toy_ext sample_policy_codec) sample_policy_dir ''a'' sample_policy = (Inr (), s') \<and>
     fst (enforcer_evaluate (file_policy_ops toy_ext sample_policy_codec)
       (register_tool enforcer_new \<lparr>mt_name = ''delete_secret'', mt_description = [],
          mt_required_ring = Trusted, mt_default_category = SystemConfig, mt_classification_rules = []\<rparr>)
       s' ''a'' System ''delete_secret'' Jnull) = Deny ''Tool explicitly denied by policy''"
proof -
  let ?tools = "register_tool enforcer_new \<lparr>mt_name = ''delete_secret'', mt_description = [],
          mt_required_ring = Trusted, mt_default_category = SystemConfig, mt_classification_rules = []\<rparr>"
  have u: "fps_usable toy_ext sample_policy_codec {''a'', ''b''} sample_policy_dir"
    using toy_hash_ab by (simp add: fps_usable_def sample_policy_dir_def)
  have j: "policy_json_ok sample_policy_codec sample_policy"
    by (simp add: policy_json_ok_def sample_policy_codec_def byte_in_def)
  obtain r s' where s': "set_policy (file_policy_ops toy_ext sample_policy_codec) sample_policy_dir ''a''
      sample_policy = (r, s')" by fastforce
  from policy_takes_effect [OF u _ _ j s', of "''a''" ?tools System "''delete_secret''" Jnull] s'
  show ?thesis by (simp add: register_tool_def enforcer_new_def sample_policy_def)
qed

end
