(* ===== verification/Compliance.thy ===== *)
theory Compliance
  imports Action_Log
begin

text \<open>
  The compliance rules of \<open>crates/ext/compliance/src/lib.rs\<close>: the trait \<open>ComplianceRule\<close> as
  a record of functions with its contract as the locale \<open>compliance_law\<close>, the two rules that
  interpret it, and \<open>ComplianceVerifier\<close>. A rule that reads the clock does so when it is
  evaluated, so evaluation takes a reading.
\<close>

section \<open>Inputs, results, rules\<close>

record compliance_input =
  ci_agent_did :: string
  ci_agent_ring :: privilege_ring
  ci_agent_capabilities :: "string list"
  ci_action :: string
  ci_resource_category :: data_category
  ci_action_history :: "action_record list"
  ci_jurisdiction :: "string option"

datatype compliance_result = Compliant | NotApplicable | Violation (violated_rule: string) (violation_reason: string)

definition is_violation :: "compliance_result \<Rightarrow> bool" where
  "is_violation r = (case r of Violation _ _ \<Rightarrow> True | _ \<Rightarrow> False)"

lemma is_violation_iff: "is_violation r \<longleftrightarrow> (\<exists>n why. r = Violation n why)"
  by (simp add: is_violation_def split: compliance_result.splits)

record compliance_rule =
  rule_name :: string
  rule_evaluate :: "datetime \<Rightarrow> compliance_input \<Rightarrow> compliance_result"

definition gdpr_data_export_rule :: compliance_rule where
  "gdpr_data_export_rule = \<lparr>rule_name = ''GDPR-001'',
     rule_evaluate = (\<lambda>_ input.
       if ci_action input \<noteq> ''data_export'' then NotApplicable
       else if ci_resource_category input \<noteq> PersonalData then NotApplicable
       else if ci_jurisdiction input = Some ''US'' then NotApplicable
       else if ''gdpr_data_processor'' \<notin> set (ci_agent_capabilities input) then
         Violation ''GDPR-001'' ''Agent lacks gdpr_data_processor capability for PersonalData export''
       else Compliant)\<rparr>"

text \<open>A write the audit-log rule counts: to financial records or audit logs, after the cutoff.\<close>

definition recent_write :: "datetime \<Rightarrow> action_record \<Rightarrow> bool" where
  "recent_write cutoff r \<longleftrightarrow> cutoff < ar_timestamp r \<and>
     ar_resource_category r \<in> {FinancialRecord, AuditLog} \<and>
     (starts_with (ar_action r) ''write'' \<or> starts_with (ar_action r) ''delete'' \<or>
      starts_with (ar_action r) ''update'')"

definition sox_audit_immutability_rule :: "ext \<Rightarrow> duration \<Rightarrow> compliance_rule" where
  "sox_audit_immutability_rule X isolation_window = \<lparr>rule_name = ''SOX-001'',
     rule_evaluate = (\<lambda>now input.
       if ci_resource_category input \<noteq> AuditLog then NotApplicable
       else if ci_action input \<notin> {''read'', ''read_audit_log''} then NotApplicable
       else if (\<exists>r\<in>set (ci_action_history input). recent_write (dt_sub X now isolation_window) r) then
         Violation ''SOX-001''
           (''Agent has recent write history within window ('' @ dur_debug X isolation_window @
            ''); audit log read denied'')
       else Compliant)\<rparr>"

section \<open>The contract of a rule\<close>

text \<open>
  A violation carries the rule's own name, and where time is subtracted monotonically a rule
  that is violated at some instant was violated at every earlier one for the same input: as
  time passes, obligations only lapse.
\<close>

definition sub_mono :: "ext \<Rightarrow> bool" where
  "sub_mono X \<longleftrightarrow> (\<forall>t t' w. t \<le> t' \<longrightarrow> dt_sub X t w \<le> dt_sub X t' w)"

locale compliance_law =
  fixes X :: ext and r :: compliance_rule
  assumes violation_name: "rule_evaluate r t i = Violation n why \<Longrightarrow> n = rule_name r"
    and lapses: "sub_mono X \<Longrightarrow> t \<le> t' \<Longrightarrow> is_violation (rule_evaluate r t' i) \<Longrightarrow>
      is_violation (rule_evaluate r t i)"
begin

lemma compliance_persists:
  "sub_mono X \<Longrightarrow> t \<le> t' \<Longrightarrow> \<not> is_violation (rule_evaluate r t i) \<Longrightarrow>
   \<not> is_violation (rule_evaluate r t' i)"
  using lapses by blast

end

interpretation gdpr: compliance_law X gdpr_data_export_rule for X
  by unfold_locales (auto simp: gdpr_data_export_rule_def split: if_splits)

lemma recent_write_mono: "recent_write c' r \<Longrightarrow> c \<le> c' \<Longrightarrow> recent_write c r"
  by (auto simp: recent_write_def)

interpretation sox: compliance_law X "sox_audit_immutability_rule X window" for X window
proof unfold_locales
  fix t t' i
  assume "sub_mono X" "t \<le> t'" "is_violation (rule_evaluate (sox_audit_immutability_rule X window) t' i)"
  then show "is_violation (rule_evaluate (sox_audit_immutability_rule X window) t i)"
    using recent_write_mono
    by (auto simp: sox_audit_immutability_rule_def is_violation_def sub_mono_def split: if_splits)
qed (auto simp: sox_audit_immutability_rule_def split: if_splits)

section \<open>The verifier\<close>

text \<open>
  \<open>ComplianceVerifier\<close> is its list of rules. The \<open>k\<close>-th rule sees the \<open>k\<close>-th reading of
  the clock.
\<close>

type_synonym compliance_verifier = "compliance_rule list"
type_synonym clock = "nat \<Rightarrow> datetime"

definition default_policy :: "ext \<Rightarrow> compliance_verifier" where
  "default_policy X = [gdpr_data_export_rule, sox_audit_immutability_rule X (hours 24)]"

fun evaluate_from :: "nat \<Rightarrow> clock \<Rightarrow> compliance_verifier \<Rightarrow> compliance_input \<Rightarrow> compliance_result list" where
  "evaluate_from k clk [] input = []"
| "evaluate_from k clk (r # rs) input =
     rule_evaluate r (clk k) input # evaluate_from (Suc k) clk rs input"

definition verifier_evaluate ::
  "clock \<Rightarrow> compliance_verifier \<Rightarrow> compliance_input \<Rightarrow> compliance_result list" where
  "verifier_evaluate clk rules input = evaluate_from 0 clk rules input"

definition is_compliant :: "clock \<Rightarrow> compliance_verifier \<Rightarrow> compliance_input \<Rightarrow> bool" where
  "is_compliant clk rules input = list_all (\<lambda>r. \<not> is_violation r) (verifier_evaluate clk rules input)"

lemma verifier_evaluate_default:
  "verifier_evaluate clk (default_policy X) i =
     [rule_evaluate gdpr_data_export_rule (clk 0) i,
      rule_evaluate (sox_audit_immutability_rule X (hours 24)) (clk 1) i]"
  by (simp add: verifier_evaluate_def default_policy_def)

text \<open>
  A second evaluation, no earlier than the first, finds no violation that the first did not.
\<close>

lemma default_violation_persists_back:
  assumes "sub_mono X" "\<forall>k. clk k \<le> clk' k" "\<not> is_compliant clk' (default_policy X) i"
  shows "\<exists>r\<in>set (verifier_evaluate clk (default_policy X) i). is_violation r"
  using assms gdpr.lapses [OF assms(1), of "clk 0" "clk' 0" i]
    sox.lapses [OF assms(1), of "clk 1" "clk' 1" "hours 24" i]
  by (auto simp: is_compliant_def verifier_evaluate_default)

lemma default_violation_names:
  "Violation n why \<in> set (verifier_evaluate clk (default_policy X) i) \<Longrightarrow>
     n \<in> {''GDPR-001'', ''SOX-001''}"
  using gdpr.violation_name sox.violation_name
  by (auto simp: verifier_evaluate_default gdpr_data_export_rule_def sox_audit_immutability_rule_def
      split: if_splits)

section \<open>Properties\<close>

text \<open>
  Under the default policy an action is compliant unless it exports personal data, for
  a jurisdiction other than the US, by an agent without the capability
  \<open>gdpr_data_processor\<close>, or reads an audit log although the agent's history holds a write,
  delete or update of financial records or audit logs later than 24 hours before the reading
  of the clock.
\<close>

theorem default_policy_compliant_iff:
  "is_compliant clk (default_policy X) i \<longleftrightarrow>
     \<not> (ci_action i = ''data_export'' \<and> ci_resource_category i = PersonalData \<and>
        ci_jurisdiction i \<noteq> Some ''US'' \<and> ''gdpr_data_processor'' \<notin> set (ci_agent_capabilities i)) \<and>
     \<not> (ci_action i \<in> {''read'', ''read_audit_log''} \<and> ci_resource_category i = AuditLog \<and>
        (\<exists>r\<in>set (ci_action_history i). dt_sub X (clk 1) (hours 24) < ar_timestamp r \<and>
           ar_resource_category r \<in> {FinancialRecord, AuditLog} \<and>
           (\<exists>verb\<in>{''write'', ''delete'', ''update''}. starts_with (ar_action r) verb)))"
  by (auto simp: is_compliant_def verifier_evaluate_default gdpr_data_export_rule_def
      sox_audit_immutability_rule_def is_violation_def recent_write_def)

end
