(* ===== verification/Discovery.thy ===== *)
theory Discovery
  imports Identity
begin

text \<open>
  The discovery manager, \<open>crates/ext/discovery/src/lib.rs\<close>: the agents seen in the mesh,
  whether they are registered, and the events sent to subscribers. The events are kept as
  the list of all events handed to the broadcast channel, oldest first. Clock readings are
  arguments; none of the operations panics while it holds the lock, so it is never poisoned.
\<close>

section \<open>State\<close>

datatype discovery_source = Active | Passive

record discovered_agent =
  da_did :: agent_did
  da_name :: string
  da_first_seen :: datetime
  da_last_seen :: datetime
  da_transport_address :: string
  da_is_registered :: bool
  da_source :: discovery_source

datatype discovery_event = Presence discovered_agent | Shadow discovered_agent

record discovery_manager =
  dm_agents :: "string \<rightharpoonup> discovered_agent"
  dm_events :: "discovery_event list"

definition dm_new :: discovery_manager where
  "dm_new = \<lparr>dm_agents = Map.empty, dm_events = []\<rparr>"

section \<open>Operations\<close>

text \<open>\<open>t0\<close> and \<open>t1\<close> are the readings when an entry is made, \<open>now\<close> the one at its update.\<close>

definition report_presence ::
  "datetime \<times> datetime \<times> datetime \<Rightarrow> agent_did \<Rightarrow> string \<Rightarrow> string \<Rightarrow> discovery_source \<Rightarrow>
     discovery_manager \<Rightarrow> discovery_manager" where
  "report_presence t did name address source m =
     (case t of (t0, t1, now) \<Rightarrow>
      let did_str = did_display did;
          is_new = dm_agents m did_str = None;
          entry = (case dm_agents m did_str of
              Some a \<Rightarrow> a
            | None \<Rightarrow> \<lparr>da_did = did, da_name = name, da_first_seen = t0, da_last_seen = t1,
                da_transport_address = address, da_is_registered = False, da_source = source\<rparr>);
          entry1 = entry\<lparr>da_last_seen := now, da_transport_address := address\<rparr>;
          was_passive = (source = Active \<and> da_source entry1 = Passive);
          entry2 = (if was_passive then entry1\<lparr>da_source := Active, da_name := name\<rparr> else entry1);
          event = (if da_is_registered entry2 then Presence entry2 else Shadow entry2)
      in \<lparr>dm_agents = (dm_agents m)(did_str \<mapsto> entry2),
          dm_events = (if is_new \<or> was_passive then dm_events m @ [event] else dm_events m)\<rparr>)"

definition register_agent :: "string \<Rightarrow> discovery_manager \<Rightarrow> discovery_manager" where
  "register_agent did m =
     (case dm_agents m did of
        None \<Rightarrow> m
      | Some agent \<Rightarrow>
          let agent1 = agent\<lparr>da_is_registered := True\<rparr>
          in \<lparr>dm_agents = (dm_agents m)(did \<mapsto> agent1), dm_events = dm_events m @ [Presence agent1]\<rparr>)"

text \<open>The shadow agents, in the order \<open>ks\<close> the map is iterated in.\<close>

definition detect_shadow_agents :: "string list \<Rightarrow> discovery_manager \<Rightarrow> discovered_agent list" where
  "detect_shadow_agents ks m = filter (\<lambda>a. \<not> da_is_registered a) (map_values ks (dm_agents m))"

section \<open>Histories of calls\<close>

datatype discovery_call =
    Report "datetime \<times> datetime \<times> datetime" agent_did string string discovery_source
  | Registration string

fun dm_call :: "discovery_call \<Rightarrow> discovery_manager \<Rightarrow> discovery_manager" where
  "dm_call (Report t did name address source) m = report_presence t did name address source m"
| "dm_call (Registration did) m = register_agent did m"

definition dm_after :: "discovery_call list \<Rightarrow> discovery_manager" where
  "dm_after calls = fold dm_call calls dm_new"

lemma dm_after_simps [simp]:
  "dm_after [] = dm_new"
  "dm_after (calls @ [c]) = dm_call c (dm_after calls)"
  by (simp_all add: dm_after_def)

text \<open>The call reports the agent \<open>k\<close>.\<close>

fun reports_agent :: "string \<Rightarrow> discovery_call \<Rightarrow> bool" where
  "reports_agent k (Report t did name address source) = (did_display did = k)"
| "reports_agent k (Registration d) = False"

fun reports_active :: "string \<Rightarrow> discovery_call \<Rightarrow> bool" where
  "reports_active k (Report t did name address source) = (did_display did = k \<and> source = Active)"
| "reports_active k (Registration d) = False"

text \<open>The agent \<open>k\<close> was reported, and registered at some later call.\<close>

definition registered_after_report :: "string \<Rightarrow> discovery_call list \<Rightarrow> bool" where
  "registered_after_report k calls \<longleftrightarrow>
     (\<exists>j<length calls. calls ! j = Registration k \<and> (\<exists>i<j. reports_agent k (calls ! i)))"

lemma registered_after_report_snoc:
  "registered_after_report k (calls @ [c]) \<longleftrightarrow>
     registered_after_report k calls \<or> c = Registration k \<and> (\<exists>c\<in>set calls. reports_agent k c)"
proof -
  let ?P = "\<lambda>xs j. xs ! j = Registration k \<and> (\<exists>i<j. reports_agent k (xs ! i))"
  have all: "(\<exists>c\<in>set calls. reports_agent k c) \<longleftrightarrow> (\<exists>i<length calls. reports_agent k (calls ! i))"
    by (metis in_set_conv_nth)
  have old: "(\<exists>i<j. reports_agent k ((calls @ [c]) ! i)) \<longleftrightarrow> (\<exists>i<j. reports_agent k (calls ! i))"
    if "j \<le> length calls" for j
    by (rule ex_cong1) (use that in \<open>simp add: nth_append\<close>)
  have "?P (calls @ [c]) j \<longleftrightarrow> ?P calls j" if "j < length calls" for j
    using that old [of j] by (simp add: nth_append_left)
  moreover have "?P (calls @ [c]) (length calls) \<longleftrightarrow>
      c = Registration k \<and> (\<exists>c\<in>set calls. reports_agent k c)"
    using old [of "length calls"] by (simp only: nth_append_length all)
  ultimately show ?thesis
    unfolding registered_after_report_def length_append_singleton Ex_less_Suc by blast
qed

lemma not_registered_after_report_Nil [simp]: "\<not> registered_after_report k []"
  by (simp add: registered_after_report_def)

text \<open>What the manager knows of the agent \<open>k\<close> after the calls.\<close>

definition dm_knows :: "discovery_call list \<Rightarrow> string \<Rightarrow> bool" where
  "dm_knows calls k \<longleftrightarrow>
     (case dm_agents (dm_after calls) k of
        None \<Rightarrow> \<not> (\<exists>c\<in>set calls. reports_agent k c)
      | Some a \<Rightarrow> (\<exists>c\<in>set calls. reports_agent k c) \<and> did_display (da_did a) = k \<and>
          (da_is_registered a \<longleftrightarrow> registered_after_report k calls) \<and>
          (da_source a = Active \<longleftrightarrow> (\<exists>c\<in>set calls. reports_active k c)) \<and>
          (\<exists>b. Shadow b \<in> set (dm_events (dm_after calls)) \<and> did_display (da_did b) = k))"

lemma no_report_no_registration:
  "\<not> (\<exists>c\<in>set calls. reports_agent k c) \<Longrightarrow> \<not> registered_after_report k calls"
  unfolding registered_after_report_def by (meson less_trans nth_mem)

lemma no_report_no_active:
  "\<not> (\<exists>c\<in>set calls. reports_agent k c) \<Longrightarrow> \<not> (\<exists>c\<in>set calls. reports_active k c)"
  by (metis reports_active.elims(2) reports_agent.simps(1))

lemma report_entry:
  assumes "m' = report_presence t did name address source m"
  shows "\<exists>a. dm_agents m' (did_display did) = Some a \<and>
    (\<forall>k. k \<noteq> did_display did \<longrightarrow> dm_agents m' k = dm_agents m k) \<and>
    (case dm_agents m (did_display did) of
       None \<Rightarrow> da_did a = did \<and> \<not> da_is_registered a \<and> da_source a = source \<and> Shadow a \<in> set (dm_events m')
     | Some b \<Rightarrow> da_did a = da_did b \<and> da_is_registered a = da_is_registered b \<and>
         (da_source a = Active \<longleftrightarrow> source = Active \<or> da_source b = Active))"
proof -
  obtain t0 t1 now where t: "t = (t0, t1, now)" by (cases t)
  show ?thesis
  proof (cases "dm_agents m (did_display did)")
    case None
    then show ?thesis
      by (cases source) (simp_all add: assms t report_presence_def Let_def)
  next
    case (Some b)
    then show ?thesis
      by (cases source; cases "da_source b") (simp_all add: assms t report_presence_def Let_def)
  qed
qed

lemma dm_call_events: "set (dm_events m) \<subseteq> set (dm_events (dm_call c m))"
  by (cases c) (auto simp: report_presence_def register_agent_def Let_def split: option.splits prod.splits)

lemma dm_knows_report:
  assumes "dm_knows calls k"
  shows "dm_knows (calls @ [Report t did name address source]) k"
proof -
  let ?c = "Report t did name address source"
  obtain a where a: "dm_agents (dm_call ?c (dm_after calls)) (did_display did) = Some a \<and>
      (\<forall>k. k \<noteq> did_display did \<longrightarrow> dm_agents (dm_call ?c (dm_after calls)) k = dm_agents (dm_after calls) k)"
    "case dm_agents (dm_after calls) (did_display did) of
       None \<Rightarrow> da_did a = did \<and> \<not> da_is_registered a \<and> da_source a = source \<and>
         Shadow a \<in> set (dm_events (dm_call ?c (dm_after calls)))
     | Some b \<Rightarrow> da_did a = da_did b \<and> da_is_registered a = da_is_registered b \<and>
         (da_source a = Active \<longleftrightarrow> source = Active \<or> da_source b = Active)"
    using report_entry [OF dm_call.simps(1), of t did name address source "dm_after calls"] by blast
  note mono = dm_call_events [of "dm_after calls" ?c]
  show ?thesis
  proof (cases "did_display did = k")
    case False
    with a(1) assms mono show ?thesis
      by (auto simp: dm_knows_def registered_after_report_snoc simp del: dm_call.simps split: option.splits)
  next
    case k: True
    show ?thesis
    proof (cases "dm_agents (dm_after calls) k")
      case None
      with assms have n: "\<not> (\<exists>c\<in>set calls. reports_agent k c)" by (simp add: dm_knows_def)
      with None a k no_report_no_registration [OF n] no_report_no_active [OF n] show ?thesis
        by (auto simp: dm_knows_def registered_after_report_snoc simp del: dm_call.simps)
    next
      case (Some b)
      with a k assms mono show ?thesis
        by (auto simp: dm_knows_def registered_after_report_snoc simp del: dm_call.simps)
    qed
  qed
qed

lemma dm_knows_registration:
  assumes "dm_knows calls k"
  shows "dm_knows (calls @ [Registration d]) k"
proof (cases "d = k")
  case False
  then have "dm_agents (register_agent d m) k = dm_agents m k" for m
    by (simp add: register_agent_def Let_def split: option.splits)
  with False assms dm_call_events [of "dm_after calls" "Registration d"] show ?thesis
    by (auto simp: dm_knows_def registered_after_report_snoc split: option.splits)
next
  case True
  with assms show ?thesis
    by (auto simp: dm_knows_def registered_after_report_snoc register_agent_def Let_def
        split: option.splits)
qed

lemma dm_knows: "dm_knows calls k"
proof (induction calls rule: rev_induct)
  case (snoc c calls)
  then show ?case by (cases c) (simp_all only: dm_knows_report dm_knows_registration)
qed (simp add: dm_knows_def dm_new_def)

lemma dm_agents_known:
  assumes "dm_agents (dm_after calls) k = Some a"
  shows "did_display (da_did a) = k" "da_is_registered a \<longleftrightarrow> registered_after_report k calls"
    "da_source a = Active \<longleftrightarrow> (\<exists>c\<in>set calls. reports_active k c)"
    "\<exists>b. Shadow b \<in> set (dm_events (dm_after calls)) \<and> did_display (da_did b) = k"
  using dm_knows [of calls k] assms by (simp_all add: dm_knows_def)

lemma dm_agents_dom: "dm_agents (dm_after calls) k \<noteq> None \<longleftrightarrow> (\<exists>c\<in>set calls. reports_agent k c)"
  using dm_knows [of calls k] by (auto simp: dm_knows_def split: option.splits)

lemma set_detect_shadow_agents:
  "enumerates ks (dm_agents m) \<Longrightarrow>
     set (detect_shadow_agents ks m) = {a \<in> ran (dm_agents m). \<not> da_is_registered a}"
  by (auto simp: detect_shadow_agents_def set_map_values_enumerates)

section \<open>Properties\<close>

text \<open>
  C30: the shadow agents, whatever order the map is iterated in, are exactly the agents that
  have been reported and not registered since they were first reported. A registration that
  comes before the first report does not count.
\<close>

theorem shadow_iff:
  assumes "enumerates ks (dm_agents (dm_after calls))"
  shows "k \<in> did_display ` da_did ` set (detect_shadow_agents ks (dm_after calls)) \<longleftrightarrow>
    (\<exists>c\<in>set calls. reports_agent k c) \<and>
    \<not> (\<exists>j<length calls. calls ! j = Registration k \<and> (\<exists>i<j. reports_agent k (calls ! i)))"
proof -
  have "k \<in> did_display ` da_did ` set (detect_shadow_agents ks (dm_after calls)) \<longleftrightarrow>
      (\<exists>a. dm_agents (dm_after calls) k = Some a \<and> \<not> da_is_registered a)"
    unfolding set_detect_shadow_agents [OF assms] ran_def using dm_agents_known(1) by force
  also have "\<dots> \<longleftrightarrow> dm_agents (dm_after calls) k \<noteq> None \<and> \<not> registered_after_report k calls"
    using dm_agents_known(2) by blast
  finally show ?thesis unfolding dm_agents_dom registered_after_report_def .
qed

theorem shadow_iff_witness:
  "\<exists>ks. enumerates ks (dm_agents (dm_after
      [Registration ''did:mesh:a'', Report (1, 2, 3) \<lparr>did_method = ''mesh'', did_unique_id = ''a''\<rparr> ''A'' ''h'' Active])) \<and>
    ''did:mesh:a'' \<in> did_display ` da_did ` set (detect_shadow_agents ks (dm_after
      [Registration ''did:mesh:a'', Report (1, 2, 3) \<lparr>did_method = ''mesh'', did_unique_id = ''a''\<rparr> ''A'' ''h'' Active]))"
proof -
  let ?calls = "[Registration ''did:mesh:a'',
    Report (1, 2, 3) \<lparr>did_method = ''mesh'', did_unique_id = ''a''\<rparr> ''A'' ''h'' Active]"
  have e: "enumerates [''did:mesh:a''] (dm_agents (dm_after ?calls))"
    by (simp add: enumerates_def dm_after_def dm_new_def register_agent_def report_presence_def
        did_display_def Let_def)
  have "\<not> (\<exists>j<length ?calls. ?calls ! j = Registration ''did:mesh:a'' \<and>
      (\<exists>i<j. reports_agent ''did:mesh:a'' (?calls ! i)))"
    by (auto simp: nth_Cons split: nat.splits)
  moreover have "\<exists>c\<in>set ?calls. reports_agent ''did:mesh:a'' c" by (simp add: did_display_def)
  ultimately show ?thesis using shadow_iff [OF e, of "''did:mesh:a''"] e by blast
qed

text \<open>
  No agent enters the manager's records silently: every agent on record was announced to
  the subscribers as a shadow agent, and its source is self-reported exactly when it once
  reported itself; both survive all later calls.
\<close>

theorem every_agent_announced:
  assumes "dm_agents (dm_after calls) k = Some a"
  shows "did_display (da_did a) = k \<and>
    (\<exists>b. Shadow b \<in> set (dm_events (dm_after (calls @ later))) \<and> did_display (da_did b) = k) \<and>
    (\<exists>a'. dm_agents (dm_after (calls @ later)) k = Some a' \<and>
      (da_source a' = Active \<longleftrightarrow> (\<exists>c\<in>set (calls @ later). reports_active k c)))"
proof -
  have "dm_agents (dm_after (calls @ later)) k \<noteq> None"
    using dm_agents_dom [of calls k] dm_agents_dom [of "calls @ later" k] assms by auto
  then obtain a' where "dm_agents (dm_after (calls @ later)) k = Some a'" by blast
  from this dm_agents_known(1) [OF assms] dm_agents_known [OF this] show ?thesis by blast
qed

theorem every_agent_announced_witness:
  "\<exists>b. Shadow b \<in> set (dm_events (dm_after
      [Report (1, 2, 3) \<lparr>did_method = ''mesh'', did_unique_id = ''a''\<rparr> ''A'' ''h'' Passive])) \<and>
     did_display (da_did b) = ''did:mesh:a''"
proof -
  let ?calls = "[Report (1, 2, 3) \<lparr>did_method = ''mesh'', did_unique_id = ''a''\<rparr> ''A'' ''h'' Passive]"
  obtain a where "dm_agents (dm_after ?calls) ''did:mesh:a'' = Some a"
    by (simp add: dm_after_def dm_new_def report_presence_def did_display_def Let_def)
  from every_agent_announced [OF this, of "[]"] show ?thesis by simp
qed

end
