(* ===== verification/Daemon.thy ===== *)
theory Daemon
  imports Daemon_Auth Mcp_Governance Compliance Discovery
begin

text \<open>
  The HTTP server of the daemon, \<open>crates/daemon/src/lib.rs\<close>: the server's state, one
  definition per handler, the routes, the authentication in front of them, and the worker that
  copies discovery events into the action log. Routing and the extraction of path parameters
  and JSON bodies are done by \<open>axum\<close> and \<open>serde_json\<close>, the parameter \<open>axum\<close>. The registry, the
  key store and the policy store are any implementations of their traits.
\<close>

section \<open>State and services\<close>

record ('r, 'k, 'p) services =
  sv_ext :: ext
  sv_claims :: claim_json
  sv_event_json :: event_json
  sv_log_codec :: log_codec
  sv_registry :: "'r registry_ops"
  sv_keys :: "'k keystore_ops"
  sv_policies :: "'p policy_ops"

record ('r, 'k, 'p) server_state =
  ss_registry :: 'r
  ss_key_store :: 'k
  ss_policy_store :: 'p
  ss_escalation_manager :: escalation_manager
  ss_discovery_manager :: discovery_manager
  ss_compliance_verifier :: compliance_verifier
  ss_action_log :: file_action_log
  ss_siem_exporter :: bool
  ss_exported :: "action_log_record list" \<comment> \<open>what the exporter was handed, oldest first\<close>
  ss_registry_pubkey :: string

text \<open>What a request reads of the clock, draws of identifiers, and finds of map orders.\<close>

record moment =
  mo_auth :: "readings \<times> datetime"
  mo_attest :: readings
  mo_approve :: readings
  mo_seen :: "datetime \<times> datetime \<times> datetime"
  mo_evaluate :: clock
  mo_is_compliant :: clock
  mo_now :: datetime
  mo_uuid :: uuid
  mo_pending_order :: "uuid list"
  mo_agent_order :: "string list"

section \<open>Requests and responses\<close>

record register_request =
  rr_identity :: agent_identity
  rr_ring :: privilege_ring

record approve_request =
  apr_approver_did :: string
  apr_signature :: string

record presence_report =
  pr_name :: string
  pr_address :: string

record execute_request =
  exr_action :: string
  exr_resource_category :: data_category
  exr_jurisdiction :: "string option"

record attested_key_response =
  akr_key_b64 :: string
  akr_attestation :: signed_attestation

datatype http_body =
    No_body
  | Text string
  | Attestation_json "signed_attestation option"
  | Ring_json "privilege_ring option"
  | Policy_json "mcp_policy option"
  | Key_json "attested_key_response option"
  | Pending_json "(uuid \<times> escalation_request) list"
  | Shadows_json "discovered_agent list"
  | Execute_json bool "compliance_result list"

abbreviation OK :: nat where "OK \<equiv> 200"
abbreviation CREATED :: nat where "CREATED \<equiv> 201"
abbreviation BAD_REQUEST :: nat where "BAD_REQUEST \<equiv> 400"
abbreviation UNAUTHORIZED :: nat where "UNAUTHORIZED \<equiv> 401"
abbreviation FORBIDDEN :: nat where "FORBIDDEN \<equiv> 403"
abbreviation NOT_FOUND :: nat where "NOT_FOUND \<equiv> 404"
abbreviation METHOD_NOT_ALLOWED :: nat where "METHOD_NOT_ALLOWED \<equiv> 405"
abbreviation INTERNAL_SERVER_ERROR :: nat where "INTERNAL_SERVER_ERROR \<equiv> 500"

text \<open>\<open>Result<_, (StatusCode, String)>\<close>, with the status and body of a success.\<close>

type_synonym http_result = "nat \<times> string + nat \<times> http_body"

text \<open>\<open>.map(body).map_err(|e| (INTERNAL_SERVER_ERROR, e.to_string()))\<close>\<close>

definition or_internal :: "'a res \<Rightarrow> ('a \<Rightarrow> nat \<times> http_body) \<Rightarrow> http_result" where
  "or_internal r f = (case r of Inl e \<Rightarrow> Inl (INTERNAL_SERVER_ERROR, e) | Inr v \<Rightarrow> Inr (f v))"

lemma or_internal_simps [simp]:
  "or_internal (Inl e) f = Inl (INTERNAL_SERVER_ERROR, e)" "or_internal (Inr v) f = Inr (f v)"
  by (simp_all add: or_internal_def)

abbreviation agent_did_header :: string where "agent_did_header \<equiv> ''X-AGT-Agent-DID''"
abbreviation signature_header :: string where "signature_header \<equiv> ''X-AGT-Signature''"

section \<open>Handlers\<close>

definition register_agent_handler ::
  "('r, 'k, 'p) services \<Rightarrow> register_request \<Rightarrow> ('r, 'k, 'p) server_state \<Rightarrow>
     http_result \<times> ('r, 'k, 'p) server_state" where
  "register_agent_handler sv req st =
     (case reg_register (sv_registry sv) (ss_registry st) (rr_identity req) (rr_ring req) of
        (Inl e, reg) \<Rightarrow> (Inl (INTERNAL_SERVER_ERROR, e), st\<lparr>ss_registry := reg\<rparr>)
      | (Inr _, reg) \<Rightarrow>
          (Inr (CREATED, No_body),
           st\<lparr>ss_registry := reg,
              ss_discovery_manager := register_agent (did_display (ai_did (rr_identity req)))
                (ss_discovery_manager st)\<rparr>))"

definition get_attestation_handler ::
  "('r, 'k, 'p) services \<Rightarrow> moment \<Rightarrow> string \<Rightarrow> ('r, 'k, 'p) server_state \<Rightarrow>
     http_result \<times> ('r, 'k, 'p) server_state" where
  "get_attestation_handler sv mo did st =
     (case reg_get_attestation (sv_registry sv) (mo_attest mo) (ss_registry st) did of
        (r, reg) \<Rightarrow> (or_internal r (\<lambda>a. (OK, Attestation_json a)), st\<lparr>ss_registry := reg\<rparr>))"

definition get_ring_handler ::
  "('r, 'k, 'p) services \<Rightarrow> string \<Rightarrow> ('r, 'k, 'p) server_state \<Rightarrow>
     http_result \<times> ('r, 'k, 'p) server_state" where
  "get_ring_handler sv did st =
     (case reg_get_ring (sv_registry sv) (ss_registry st) did of
        (r, reg) \<Rightarrow> (or_internal r (\<lambda>a. (OK, Ring_json a)), st\<lparr>ss_registry := reg\<rparr>))"

definition get_policy_handler ::
  "('r, 'k, 'p) services \<Rightarrow> string \<Rightarrow> ('r, 'k, 'p) server_state \<Rightarrow>
     http_result \<times> ('r, 'k, 'p) server_state" where
  "get_policy_handler sv did st =
     (case ps_load (sv_policies sv) (ss_policy_store st) did of
        (r, ps) \<Rightarrow> (or_internal r (\<lambda>p. (OK, Policy_json p)), st\<lparr>ss_policy_store := ps\<rparr>))"

definition save_policy_handler ::
  "('r, 'k, 'p) services \<Rightarrow> string \<Rightarrow> mcp_policy \<Rightarrow> ('r, 'k, 'p) server_state \<Rightarrow>
     http_result \<times> ('r, 'k, 'p) server_state" where
  "save_policy_handler sv did policy st =
     (case ps_save (sv_policies sv) (ss_policy_store st) did policy of
        (r, ps) \<Rightarrow> (or_internal r (\<lambda>_. (OK, No_body)), st\<lparr>ss_policy_store := ps\<rparr>))"

definition get_key_handler ::
  "('r, 'k, 'p) services \<Rightarrow> moment \<Rightarrow> string \<Rightarrow> ('r, 'k, 'p) server_state \<Rightarrow>
     http_result \<times> ('r, 'k, 'p) server_state" where
  "get_key_handler sv mo did st =
     (case ks_load (sv_keys sv) (ss_key_store st) did of
        (Inl e, ks) \<Rightarrow> (Inl (INTERNAL_SERVER_ERROR, e), st\<lparr>ss_key_store := ks\<rparr>)
      | (Inr key, ks) \<Rightarrow>
          (case reg_get_attestation (sv_registry sv) (mo_attest mo) (ss_registry st) did of
             (r, reg) \<Rightarrow>
               (case r of
                  Inl e \<Rightarrow> Inl (INTERNAL_SERVER_ERROR, e)
                | Inr None \<Rightarrow> Inl (NOT_FOUND, ''Agent not in registry'')
                | Inr (Some attestation) \<Rightarrow>
                    (case key of
                       Some k \<Rightarrow> Inr (OK, Key_json (Some \<lparr>akr_key_b64 = b64_encode (sv_ext sv) k,
                                   akr_attestation = attestation\<rparr>))
                     | None \<Rightarrow> Inr (OK, Key_json None)),
                st\<lparr>ss_key_store := ks, ss_registry := reg\<rparr>)))"

definition save_key_handler ::
  "('r, 'k, 'p) services \<Rightarrow> string \<Rightarrow> string \<Rightarrow> ('r, 'k, 'p) server_state \<Rightarrow>
     http_result \<times> ('r, 'k, 'p) server_state" where
  "save_key_handler sv did key_b64 st =
     (case b64_decode (sv_ext sv) key_b64 of
        Inl _ \<Rightarrow> (Inl (BAD_REQUEST, ''Invalid Base64''), st)
      | Inr key_bytes \<Rightarrow>
          if length key_bytes \<noteq> 32 then (Inl (BAD_REQUEST, ''Invalid key length''), st)
          else case ks_save (sv_keys sv) (ss_key_store st) did key_bytes of
            (r, ks) \<Rightarrow> (or_internal r (\<lambda>_. (OK, No_body)), st\<lparr>ss_key_store := ks\<rparr>))"

definition list_pending_handler ::
  "moment \<Rightarrow> ('r, 'k, 'p) server_state \<Rightarrow> http_result \<times> ('r, 'k, 'p) server_state" where
  "list_pending_handler mo st =
     (Inr (OK, Pending_json (pending_requests (mo_pending_order mo) (ss_escalation_manager st))), st)"

text \<open>
  The lookups of the escalation manager see the registry as it is; registries in memory and
  in files are not changed by lookups.
\<close>

definition approve_escalation_handler ::
  "('r, 'k, 'p) services \<Rightarrow> moment \<Rightarrow> uuid \<Rightarrow> approve_request \<Rightarrow> ('r, 'k, 'p) server_state \<Rightarrow>
     http_result \<times> ('r, 'k, 'p) server_state" where
  "approve_escalation_handler sv mo esc_id req st =
     (case b64_decode (sv_ext sv) (apr_signature req) of
        Inl e \<Rightarrow> (Inl (BAD_REQUEST, e), st)
      | Inr signature \<Rightarrow>
          (case em_approve (sv_ext sv) (sv_claims sv) (sv_event_json sv) (mo_approve mo) esc_id
                  (apr_approver_did req) signature
                  (\<lambda>d. fst (reg_get_ring (sv_registry sv) (ss_registry st) d))
                  (\<lambda>d. fst (reg_get_attestation (sv_registry sv) (mo_attest mo) (ss_registry st) d))
                  (ss_escalation_manager st) of
             (Inl e, em) \<Rightarrow> (Inl (FORBIDDEN, e), st\<lparr>ss_escalation_manager := em\<rparr>)
           | (Inr _, em) \<Rightarrow> (Inr (OK, No_body), st\<lparr>ss_escalation_manager := em\<rparr>)))"

definition report_presence_handler ::
  "moment \<Rightarrow> headers \<Rightarrow> string \<Rightarrow> presence_report \<Rightarrow> ('r, 'k, 'p) server_state \<Rightarrow>
     http_result \<times> ('r, 'k, 'p) server_state" where
  "report_presence_handler mo h addr req st =
     (case header_str h agent_did_header of
        None \<Rightarrow> (Inl (UNAUTHORIZED, ''Missing X-AGT-Agent-DID''), st)
      | Some did_str \<Rightarrow> (case parse_did did_str of
          Inl e \<Rightarrow> (Inl (BAD_REQUEST, e), st)
        | Inr did \<Rightarrow>
            (Inr (OK, No_body),
             st\<lparr>ss_discovery_manager :=
               report_presence (mo_seen mo) did (pr_name req) addr Active (ss_discovery_manager st)\<rparr>)))"

definition list_shadows_handler ::
  "('r, 'k, 'p) services \<Rightarrow> moment \<Rightarrow> headers \<Rightarrow> ('r, 'k, 'p) server_state \<Rightarrow>
     http_result \<times> ('r, 'k, 'p) server_state" where
  "list_shadows_handler sv mo h st =
     (case header_str h agent_did_header of
        None \<Rightarrow> (Inl (UNAUTHORIZED, ''Missing X-AGT-Agent-DID''), st)
      | Some did \<Rightarrow>
          (case reg_get_ring (sv_registry sv) (ss_registry st) did of
             (r, reg) \<Rightarrow>
               (case r of
                  Inl e \<Rightarrow> Inl (INTERNAL_SERVER_ERROR, e)
                | Inr None \<Rightarrow> Inl (UNAUTHORIZED, ''Not registered'')
                | Inr (Some ring) \<Rightarrow>
                    if ring \<noteq> System then Inl (FORBIDDEN, ''Only System-ring agents can query shadows'')
                    else Inr (OK, Shadows_json
                      (detect_shadow_agents (mo_agent_order mo) (ss_discovery_manager st))),
                st\<lparr>ss_registry := reg\<rparr>)))"

text \<open>The first violation among the results, for the log.\<close>

fun first_violation :: "compliance_result list \<Rightarrow> (string \<times> string) option" where
  "first_violation [] = None"
| "first_violation (Violation n why # rs) = Some (n, why)"
| "first_violation (_ # rs) = first_violation rs"

definition execute_outcome :: "bool \<Rightarrow> compliance_result list \<Rightarrow> action_outcome" where
  "execute_outcome compliant results =
     (if compliant then Permitted
      else case first_violation results of
        Some (n, why) \<Rightarrow> Denied n why
      | None \<Rightarrow> Denied ''Unknown'' ''Access denied'')"

definition execute_input ::
  "string \<Rightarrow> privilege_ring \<Rightarrow> execute_request \<Rightarrow> action_record list \<Rightarrow> compliance_input" where
  "execute_input did_str ring req history =
     \<lparr>ci_agent_did = did_str, ci_agent_ring = ring, ci_agent_capabilities = [],
      ci_action = exr_action req, ci_resource_category = exr_resource_category req,
      ci_action_history = history, ci_jurisdiction = exr_jurisdiction req\<rparr>"

definition execute_record ::
  "moment \<Rightarrow> string \<Rightarrow> execute_request \<Rightarrow> action_outcome \<Rightarrow> action_log_record" where
  "execute_record mo did_str req outcome =
     \<lparr>al_record_id = mo_uuid mo, al_agent_did = did_str, al_action = exr_action req,
      al_resource_category = exr_resource_category req, al_timestamp = mo_now mo,
      al_outcome = outcome, al_prev_hash = []\<rparr>"

definition execute_action_handler ::
  "('r, 'k, 'p) services \<Rightarrow> moment \<Rightarrow> headers \<Rightarrow> execute_request \<Rightarrow> ('r, 'k, 'p) server_state \<Rightarrow>
     http_result \<times> ('r, 'k, 'p) server_state" where
  "execute_action_handler sv mo h req st =
     (case header_str h agent_did_header of
        None \<Rightarrow> (Inl (UNAUTHORIZED, ''Missing X-AGT-Agent-DID''), st)
      | Some did_str \<Rightarrow>
          (case reg_get_ring (sv_registry sv) (ss_registry st) did_str of
             (Inl e, reg) \<Rightarrow> (Inl (INTERNAL_SERVER_ERROR, e), st\<lparr>ss_registry := reg\<rparr>)
           | (Inr None, reg) \<Rightarrow> (Inl (UNAUTHORIZED, agent_not_registered), st\<lparr>ss_registry := reg\<rparr>)
           | (Inr (Some ring), reg) \<Rightarrow>
               (case fal_load_history (sv_log_codec sv) (ss_action_log st) did_str of
                  (Inl e, log) \<Rightarrow>
                    (Inl (INTERNAL_SERVER_ERROR, e), st\<lparr>ss_registry := reg, ss_action_log := log\<rparr>)
                | (Inr history, log) \<Rightarrow>
                    let input = execute_input did_str ring req history;
                        results = verifier_evaluate (mo_evaluate mo) (ss_compliance_verifier st) input;
                        compliant = is_compliant (mo_is_compliant mo) (ss_compliance_verifier st) input;
                        rec = execute_record mo did_str req (execute_outcome compliant results)
                    in (case fal_append (sv_ext sv) (sv_log_codec sv) log rec of
                          (Inl e, log') \<Rightarrow>
                            (Inl (INTERNAL_SERVER_ERROR, e), st\<lparr>ss_registry := reg, ss_action_log := log'\<rparr>)
                        | (Inr _, log') \<Rightarrow>
                            (Inr (OK, Execute_json compliant results),
                             st\<lparr>ss_registry := reg, ss_action_log := log',
                                ss_exported := ss_exported st @ (if ss_siem_exporter st then [rec] else [])\<rparr>)))))"

section \<open>Routes\<close>

text \<open>A \<open>HEAD\<close> request counts as \<open>GET\<close>: \<open>axum\<close> answers it with the route for \<open>get\<close>.\<close>

datatype http_method = GET | POST | Other_method

datatype endpoint =
    Register_agent | Get_attestation | Get_ring | Get_policy | Save_policy | Get_key | Save_key
  | List_pending | Approve_escalation | Report_presence | List_shadows | Execute_action

definition routes :: "(string \<times> (http_method \<times> endpoint) list) list" where
  "routes =
     [(''/v1/agents/register'', [(POST, Register_agent)]),
      (''/v1/agents/{did}/attestation'', [(GET, Get_attestation)]),
      (''/v1/agents/{did}/ring'', [(GET, Get_ring)]),
      (''/v1/agents/{did}/policy'', [(GET, Get_policy), (POST, Save_policy)]),
      (''/v1/agents/{did}/key'', [(GET, Get_key), (POST, Save_key)]),
      (''/v1/escalations/pending'', [(GET, List_pending)]),
      (''/v1/escalations/{id}/approve'', [(POST, Approve_escalation)]),
      (''/v1/presence'', [(POST, Report_presence)]),
      (''/v1/discovery/shadows'', [(GET, List_shadows)]),
      (''/v1/execute'', [(POST, Execute_action)])]"

text \<open>
  What \<open>axum\<close> does: match a route's pattern against a path, giving the captured parameters;
  the extractors \<open>Path\<close> and \<open>Json\<close>, with the status and text of a rejection.
\<close>

type_synonym 'a extracted = "nat \<times> string + 'a"

record axum =
  ax_match :: "string \<Rightarrow> string \<Rightarrow> string list option"
  ax_path_string :: "string list \<Rightarrow> string extracted"
  ax_path_uuid :: "string list \<Rightarrow> uuid extracted"
  ax_json_register :: "headers \<Rightarrow> bytes \<Rightarrow> register_request extracted"
  ax_json_policy :: "headers \<Rightarrow> bytes \<Rightarrow> mcp_policy extracted"
  ax_json_string :: "headers \<Rightarrow> bytes \<Rightarrow> string extracted"
  ax_json_approve :: "headers \<Rightarrow> bytes \<Rightarrow> approve_request extracted"
  ax_json_presence :: "headers \<Rightarrow> bytes \<Rightarrow> presence_report extracted"
  ax_json_execute :: "headers \<Rightarrow> bytes \<Rightarrow> execute_request extracted"

record http_request =
  rq_method :: http_method
  rq_path :: string
  rq_headers :: headers
  rq_body :: "bytes res" \<comment> \<open>an error when the body cannot be read\<close>
  rq_peer :: string \<comment> \<open>the socket address of the client\<close>

definition find_route ::
  "axum \<Rightarrow> string \<Rightarrow> ((http_method \<times> endpoint) list \<times> string list) option" where
  "find_route ax path =
     (case List.map_filter (\<lambda>(pat, ms). map_option (Pair ms) (ax_match ax pat path)) routes of
        [] \<Rightarrow> None
      | m # _ \<Rightarrow> Some m)"

text \<open>A handler is called with what its extractors yield, the first rejection is returned.\<close>

definition with_arg :: "'a extracted \<Rightarrow> ('a \<Rightarrow> 's \<Rightarrow> http_result \<times> 's) \<Rightarrow> 's \<Rightarrow> http_result \<times> 's" where
  "with_arg x f st = (case x of Inl rejection \<Rightarrow> (Inl rejection, st) | Inr a \<Rightarrow> f a st)"

lemma with_arg_simps [simp]:
  "with_arg (Inl r) f st = (Inl r, st)" "with_arg (Inr a) f st = f a st"
  by (simp_all add: with_arg_def)

fun call_endpoint ::
  "axum \<Rightarrow> ('r, 'k, 'p) services \<Rightarrow> moment \<Rightarrow> headers \<Rightarrow> string \<Rightarrow> bytes \<Rightarrow> string list \<Rightarrow> endpoint \<Rightarrow>
     ('r, 'k, 'p) server_state \<Rightarrow> http_result \<times> ('r, 'k, 'p) server_state" where
  "call_endpoint ax sv mo h peer body caps Register_agent st =
     with_arg (ax_json_register ax h body) (register_agent_handler sv) st"
| "call_endpoint ax sv mo h peer body caps Get_attestation st =
     with_arg (ax_path_string ax caps) (get_attestation_handler sv mo) st"
| "call_endpoint ax sv mo h peer body caps Get_ring st =
     with_arg (ax_path_string ax caps) (get_ring_handler sv) st"
| "call_endpoint ax sv mo h peer body caps Get_policy st =
     with_arg (ax_path_string ax caps) (get_policy_handler sv) st"
| "call_endpoint ax sv mo h peer body caps Save_policy st =
     with_arg (ax_path_string ax caps)
       (\<lambda>did. with_arg (ax_json_policy ax h body) (save_policy_handler sv did)) st"
| "call_endpoint ax sv mo h peer body caps Get_key st =
     with_arg (ax_path_string ax caps) (get_key_handler sv mo) st"
| "call_endpoint ax sv mo h peer body caps Save_key st =
     with_arg (ax_path_string ax caps)
       (\<lambda>did. with_arg (ax_json_string ax h body) (save_key_handler sv did)) st"
| "call_endpoint ax sv mo h peer body caps List_pending st = list_pending_handler mo st"
| "call_endpoint ax sv mo h peer body caps Approve_escalation st =
     with_arg (ax_path_uuid ax caps)
       (\<lambda>i. with_arg (ax_json_approve ax h body) (approve_escalation_handler sv mo i)) st"
| "call_endpoint ax sv mo h peer body caps Report_presence st =
     with_arg (ax_json_presence ax h body) (report_presence_handler mo h peer) st"
| "call_endpoint ax sv mo h peer body caps List_shadows st = list_shadows_handler sv mo h st"
| "call_endpoint ax sv mo h peer body caps Execute_action st =
     with_arg (ax_json_execute ax h body) (execute_action_handler sv mo h) st"

definition dispatch ::
  "axum \<Rightarrow> ('r, 'k, 'p) services \<Rightarrow> moment \<Rightarrow> http_request \<Rightarrow> bytes \<Rightarrow>
     ('r, 'k, 'p) server_state \<Rightarrow> http_result \<times> ('r, 'k, 'p) server_state" where
  "dispatch ax sv mo rq body st =
     (case find_route ax (rq_path rq) of
        None \<Rightarrow> (Inl (NOT_FOUND, []), st)
      | Some (methods, caps) \<Rightarrow>
          (case map_of methods (rq_method rq) of
             None \<Rightarrow> (Inl (METHOD_NOT_ALLOWED, []), st)
           | Some ep \<Rightarrow> call_endpoint ax sv mo (rq_headers rq) (rq_peer rq) body caps ep st))"

section \<open>The authentication layer\<close>

record http_response =
  rs_status :: nat
  rs_body :: http_body
  rs_deprecation :: bool

definition into_response :: "bool \<Rightarrow> http_result \<Rightarrow> http_response" where
  "into_response deprecation r = (case r of
       Inl (code, msg) \<Rightarrow> \<lparr>rs_status = code, rs_body = Text msg, rs_deprecation = deprecation\<rparr>
     | Inr (code, body) \<Rightarrow> \<lparr>rs_status = code, rs_body = body, rs_deprecation = deprecation\<rparr>)"

text \<open>The checks of \<open>auth_middleware\<close>: the body of the request if it may go on.\<close>

definition authenticate ::
  "('r, 'k, 'p) services \<Rightarrow> moment \<Rightarrow> http_request \<Rightarrow> ('r, 'k, 'p) server_state \<Rightarrow>
     (nat \<times> string + bytes) \<times> ('r, 'k, 'p) server_state" where
  "authenticate sv mo rq st =
     (case header_str (rq_headers rq) agent_did_header of
        None \<Rightarrow> (Inl (UNAUTHORIZED, ''Missing X-AGT-Agent-DID''), st)
      | Some did_str \<Rightarrow> (case header_str (rq_headers rq) signature_header of
          None \<Rightarrow> (Inl (UNAUTHORIZED, ''Missing X-AGT-Signature''), st)
        | Some signature_b64 \<Rightarrow> (case b64_decode (sv_ext sv) signature_b64 of
            Inl _ \<Rightarrow> (Inl (BAD_REQUEST, ''Invalid Base64 in signature''), st)
          | Inr signature \<Rightarrow> (case rq_body rq of
              Inl e \<Rightarrow> (Inl (BAD_REQUEST, e), st)
            | Inr body \<Rightarrow>
                (case verify_request_signature (sv_ext sv) (sv_claims sv) (sv_registry sv) (mo_auth mo)
                        did_str signature body (ss_registry_pubkey st) (ss_registry st) of
                   (Inr _, reg) \<Rightarrow> (Inr body, st\<lparr>ss_registry := reg\<rparr>)
                 | (Inl e, reg) \<Rightarrow>
                     let st1 = st\<lparr>ss_registry := reg\<rparr> in
                     (Inl (UNAUTHORIZED, e),
                      if e = agent_not_registered
                      then (case parse_did did_str of
                              Inl _ \<Rightarrow> st1
                            | Inr did \<Rightarrow> st1\<lparr>ss_discovery_manager :=
                                report_presence (mo_seen mo) did ''unknown'' (rq_peer rq) Passive
                                  (ss_discovery_manager st1)\<rparr>)
                      else st1))))))"

definition auth_middleware ::
  "axum \<Rightarrow> ('r, 'k, 'p) services \<Rightarrow> moment \<Rightarrow> http_request \<Rightarrow> ('r, 'k, 'p) server_state \<Rightarrow>
     http_response \<times> ('r, 'k, 'p) server_state" where
  "auth_middleware ax sv mo rq st =
     (case authenticate sv mo rq st of
        (Inl e, st1) \<Rightarrow> (into_response False (Inl e), st1)
      | (Inr body, st1) \<Rightarrow>
          (case dispatch ax sv mo rq body st1 of (r, st2) \<Rightarrow> (into_response True r, st2)))"

section \<open>From discovery events to the action log\<close>

text \<open>
  The worker's loop over what \<open>recv\<close> returns: it ends at the first error, which is also what a
  receiver that lags behind gets. Each record takes a fresh identifier and a clock reading.
\<close>

datatype recv_error = Channel_closed | Lagged nat

definition shadow_record :: "(discovery_event \<Rightarrow> string) \<Rightarrow> uuid \<times> datetime \<Rightarrow> discovery_event \<Rightarrow>
    discovered_agent \<Rightarrow> action_log_record" where
  "shadow_record to_json w event a = \<lparr>al_record_id = fst w, al_agent_did = did_display (da_did a),
     al_action = ''discovery_alert'', al_resource_category = Unknown, al_timestamp = snd w,
     al_outcome = DiscoveryEventLogged (to_json event), al_prev_hash = []\<rparr>"

fun discovery_bridge ::
  "ext \<Rightarrow> log_codec \<Rightarrow> (discovery_event \<Rightarrow> string) \<Rightarrow> (nat \<Rightarrow> uuid \<times> datetime) \<Rightarrow> nat \<Rightarrow>
     (recv_error + discovery_event) list \<Rightarrow> file_action_log \<Rightarrow> file_action_log" where
  "discovery_bridge X L to_json fresh n [] log = log"
| "discovery_bridge X L to_json fresh n (Inl e # rest) log = log"
| "discovery_bridge X L to_json fresh n (Inr (Presence a) # rest) log =
     discovery_bridge X L to_json fresh n rest log"
| "discovery_bridge X L to_json fresh n (Inr (Shadow a) # rest) log =
     discovery_bridge X L to_json fresh (Suc n) rest
       (snd (fal_append X L log (shadow_record to_json (fresh n) (Shadow a) a)))"

end
