(* ===== verification/Daemon_Safety.thy ===== *)
theory Daemon_Safety
  imports Daemon
begin

text \<open>
  What the HTTP server of the daemon guarantees, and what it does not: who gets past the
  authentication, what an unauthenticated request can change, what an executed action leaves
  in the log, and which routes can be reached.
\<close>

section \<open>Getting past the authentication\<close>

lemma server_state_self [simp]:
  "st\<lparr>ss_registry := ss_registry st\<rparr> = st"
  "\<exists>dm. st = st\<lparr>ss_discovery_manager := dm\<rparr>"
  "\<exists>dm'. st\<lparr>ss_discovery_manager := dm\<rparr> = st\<lparr>ss_discovery_manager := dm'\<rparr>"
  by (cases st; auto)+

context agent_registry
begin

lemma authenticateE:
  assumes "usable (ss_registry st)" "sv_ext sv = X" "sv_claims sv = J" "sv_registry sv = R"
    and "authenticate sv mo rq st = (Inr body, st')"
  obtains did sig64 sig pk r where "st' = st" "rq_body rq = Inr body"
    "header_str (rq_headers rq) agent_did_header = Some did"
    "header_str (rq_headers rq) signature_header = Some sig64" "b64_decode X sig64 = Inr sig"
    "entries (ss_registry st) did = Some (pk, r)" "verify_signature X (identity_stub pk) body sig"
proof -
  from assms obtain did sig64 sig reg where 1: "rq_body rq = Inr body"
      "header_str (rq_headers rq) agent_did_header = Some did"
      "header_str (rq_headers rq) signature_header = Some sig64" "b64_decode X sig64 = Inr sig"
      "verify_request_signature X J R (mo_auth mo) did sig body (ss_registry_pubkey st) (ss_registry st) =
        (Inr (), reg)" "st' = st\<lparr>ss_registry := reg\<rparr>"
    by (auto simp: authenticate_def Let_def split: option.splits sum.splits prod.splits)
  then obtain pk r where "reg = ss_registry st" "entries (ss_registry st) did = Some (pk, r)"
      "verify_signature X (identity_stub pk) body sig"
    using authenticated_iff [OF assms(1)] by blast
  with 1 show thesis by (intro that) simp_all
qed

lemma authenticate_registered:
  assumes "usable (ss_registry st)" "sv_ext sv = X" "sv_claims sv = J" "sv_registry sv = R"
    and "crypto_ok X" "ss_registry_pubkey st = b64_encode X (public_bytes X (rkey (ss_registry st)))"
    and "snd (mo_auth mo) \<le> dt_add X (snd (fst (mo_auth mo))) (hours 24)"
    and "entries (ss_registry st) did = Some (b64_encode X (public_bytes X k), r)"
    and "header_str (rq_headers rq) agent_did_header = Some did"
    and "header_str (rq_headers rq) signature_header = Some (b64_encode X (ed_sign X k body))"
    and "rq_body rq = Inr body"
  shows "authenticate sv mo rq st = (Inr body, st)"
proof -
  have "verify_signature X (identity_stub (b64_encode X (public_bytes X k))) body (ed_sign X k body)"
    by (rule verify_attested_key [OF assms(5)]) (simp add: identity_stub_def)
  then have "verify_request_signature X J R (mo_auth mo) did (ed_sign X k body) body
      (ss_registry_pubkey st) (ss_registry st) = (Inr (), ss_registry st)"
    using authenticated_own_key [OF assms(1,5,6,7), of did "ed_sign X k body" body] assms(8) by auto
  then show ?thesis using assms crypto_okD(1) [OF assms(5)] by (simp add: authenticate_def)
qed

text \<open>A refused request changes at most the records of the discovery manager.\<close>

lemma authenticate_refused:
  assumes "usable (ss_registry st)" "sv_ext sv = X" "sv_claims sv = J" "sv_registry sv = R"
    and "authenticate sv mo rq st = (Inl (code, msg), st')"
  shows "code \<in> {BAD_REQUEST, UNAUTHORIZED} \<and> (\<exists>dm. st' = st\<lparr>ss_discovery_manager := dm\<rparr>)"
  using assms(5)
  by (auto simp: authenticate_def Let_def assms(2-4) dest!: verify_keeps_registry [OF assms(1)]
      split: option.splits sum.splits prod.splits if_splits)

lemma authenticate_unregistered:
  assumes "usable (ss_registry st)" "sv_ext sv = X" "sv_claims sv = J" "sv_registry sv = R"
    and "\<And>did. header_str (rq_headers rq) agent_did_header = Some did \<Longrightarrow> entries (ss_registry st) did = None"
  shows "\<exists>code msg st'. authenticate sv mo rq st = (Inl (code, msg), st')"
proof (cases "fst (authenticate sv mo rq st)")
  case (Inl e)
  then show ?thesis by (cases e; cases "authenticate sv mo rq st") auto
next
  case (Inr body)
  then have "authenticate sv mo rq st = (Inr body, snd (authenticate sv mo rq st))"
    by (metis prod.collapse)
  from authenticateE [OF assms(1-4) this] assms(5) show ?thesis by fastforce
qed

lemma middleware_unregistered:
  assumes "usable (ss_registry st)" "sv_ext sv = X" "sv_claims sv = J" "sv_registry sv = R"
    and "\<And>did. header_str (rq_headers rq) agent_did_header = Some did \<Longrightarrow> entries (ss_registry st) did = None"
    and "auth_middleware ax sv mo rq st = (resp, st')"
  shows "rs_status resp \<in> {BAD_REQUEST, UNAUTHORIZED} \<and> (\<exists>dm. st' = st\<lparr>ss_discovery_manager := dm\<rparr>)"
proof -
  obtain code msg st1 where a: "authenticate sv mo rq st = (Inl (code, msg), st1)"
    using authenticate_unregistered [OF assms(1-5)] by blast
  with assms(6) have "rs_status resp = code" "st' = st1"
    by (auto simp: auth_middleware_def into_response_def)
  with authenticate_refused [OF assms(1-4) a] show ?thesis by simp
qed

end

section \<open>Serving a sequence of requests\<close>

fun serve ::
  "axum \<Rightarrow> ('r, 'k, 'p) services \<Rightarrow> (moment \<times> http_request) list \<Rightarrow> ('r, 'k, 'p) server_state \<Rightarrow>
     http_response list \<times> ('r, 'k, 'p) server_state" where
  "serve ax sv [] st = ([], st)"
| "serve ax sv ((mo, rq) # rqs) st =
     (case auth_middleware ax sv mo rq st of
        (resp, st1) \<Rightarrow> (case serve ax sv rqs st1 of (resps, st2) \<Rightarrow> (resp # resps, st2)))"

section \<open>Executed actions\<close>

lemma first_violation_iff:
  "first_violation rs = None \<longleftrightarrow> \<not> (\<exists>r\<in>set rs. is_violation r)"
  "first_violation rs = Some (n, why) \<Longrightarrow> Violation n why \<in> set rs"
  by (induction rs rule: first_violation.induct) (auto simp: is_violation_def)

lemma default_outcome:
  assumes "sub_mono X" "\<forall>k. clk k \<le> clk' k"
  shows "execute_outcome (is_compliant clk' (default_policy X) i) (verifier_evaluate clk (default_policy X) i)
      = Permitted \<and> is_compliant clk' (default_policy X) i \<or>
    (\<exists>n why. execute_outcome (is_compliant clk' (default_policy X) i)
        (verifier_evaluate clk (default_policy X) i) = Denied n why \<and>
      n \<in> {''GDPR-001'', ''SOX-001''} \<and> \<not> is_compliant clk' (default_policy X) i)"
proof (cases "is_compliant clk' (default_policy X) i")
  case True
  then show ?thesis by (simp add: execute_outcome_def)
next
  case False
  from default_violation_persists_back [OF assms this] obtain n why where
    v: "first_violation (verifier_evaluate clk (default_policy X) i) = Some (n, why)"
    using first_violation_iff(1) by (metis not_None_eq surj_pair)
  from default_violation_names [OF first_violation_iff(2) [OF v]] v False show ?thesis
    by (simp add: execute_outcome_def)
qed

lemma default_denies_recent_writer:
  assumes "ci_action i \<in> {''read'', ''read_audit_log''}" "ci_resource_category i = AuditLog"
    and "r \<in> set (ci_action_history i)" "recent_write (dt_sub X (clk 1) (hours 24)) r"
  shows "\<not> is_compliant clk (default_policy X) i"
  using assms
  by (auto simp: is_compliant_def verifier_evaluate_default sox_audit_immutability_rule_def is_violation_def)

lemma execute_input_simps [simp]:
  "ci_action (execute_input d r req h) = exr_action req"
  "ci_resource_category (execute_input d r req h) = exr_resource_category req"
  "ci_action_history (execute_input d r req h) = h"
  by (simp_all add: execute_input_def)

lemma execute_record_simps [simp]:
  "al_agent_did (execute_record mo d req out) = d" "al_action (execute_record mo d req out) = exr_action req"
  "al_resource_category (execute_record mo d req out) = exr_resource_category req"
  "al_timestamp (execute_record mo d req out) = mo_now mo" "al_outcome (execute_record mo d req out) = out"
  by (simp_all add: execute_record_def)

context agent_registry
begin

text \<open>What one call of the handler does, on a log in good order.\<close>

lemma execute_action_logged:
  assumes "usable (ss_registry st)" "sv_ext sv = X" "sv_registry sv = R" "sv_log_codec sv = L"
    and "header_str h agent_did_header = Some did" "entries (ss_registry st) did = Some (pk, ring)"
    and "fal_synced X L rs (ss_action_log st)" "cps_ok X L"
    and "\<forall>out. writable X L [execute_record mo did req out]"
    and "i = execute_input did ring req (history_of did rs)"
    and "results = verifier_evaluate (mo_evaluate mo) (ss_compliance_verifier st) i"
    and "ok = is_compliant (mo_is_compliant mo) (ss_compliance_verifier st) i"
    and "rec = execute_record mo did req (execute_outcome ok results)"
  shows "\<exists>log. execute_action_handler sv mo h req st = (Inr (OK, Execute_json ok results),
      st\<lparr>ss_action_log := log,
         ss_exported := ss_exported st @ (if ss_siem_exporter st then [rec] else [])\<rparr>) \<and>
    fal_synced X L (rs @ [rec\<lparr>al_prev_hash := chain_end X L genesis rs\<rparr>]) log"
proof -
  have holds: "fal_holds L rs (ss_action_log st)" "fal_last_hash (ss_action_log st) = chain_end X L genesis rs"
    using assms(7) by (simp_all add: fal_synced_defs)
  have js: "log_json_ok L (rec\<lparr>al_prev_hash := fal_last_hash (ss_action_log st)\<rparr>)"
  proof -
    have "writable X L [rec]" unfolding assms(13) by (rule spec [OF assms(9)])
    then show ?thesis
      using fal_synced_link [OF assms(7)] unfolding writable_def by (meson list.set_intros(1))
  qed
  obtain log where log: "fal_append X L (ss_action_log st) rec = (Inr (), log)"
    "fal_synced X L (rs @ [rec\<lparr>al_prev_hash := chain_end X L genesis rs\<rparr>]) log"
    using fal_append_synced [OF assms(7) js assms(8)] holds(2) by auto
  have "reg_get_ring R (ss_registry st) did = (Inr (Some ring), ss_registry st)"
    using get_ring [OF assms(1)] assms(6) by simp
  then have "execute_action_handler sv mo h req st = (Inr (OK, Execute_json ok results),
      st\<lparr>ss_action_log := log,
         ss_exported := ss_exported st @ (if ss_siem_exporter st then [rec] else [])\<rparr>)"
    using log(1) fal_holds_reads(2) [OF holds(1)]
    by (simp add: execute_action_handler_def assms(2-5,10-13) Let_def)
  with log(2) show ?thesis by blast
qed

end

section \<open>The worker and the routes\<close>

text \<open>The records the worker writes for a list of events.\<close>

fun bridge_records ::
  "(discovery_event \<Rightarrow> string) \<Rightarrow> (nat \<Rightarrow> uuid \<times> datetime) \<Rightarrow> nat \<Rightarrow> discovery_event list \<Rightarrow>
     action_log_record list" where
  "bridge_records to_json fresh n [] = []"
| "bridge_records to_json fresh n (Presence a # evs) = bridge_records to_json fresh n evs"
| "bridge_records to_json fresh n (Shadow a # evs) =
     shadow_record to_json (fresh n) (Shadow a) a # bridge_records to_json fresh (Suc n) evs"

lemma bridge_stops:
  "discovery_bridge X L to_json fresh n (map Inr evs @ Inl e # rest) log =
   discovery_bridge X L to_json fresh n (map Inr evs) log"
proof (induction evs arbitrary: n log)
  case (Cons ev evs)
  then show ?case by (cases ev) simp_all
qed simp

text \<open>
  How \<open>axum\<close> 0.7 reads a pattern: a part that starts with a colon captures, an asterisk
  matches the rest; a pattern with neither matches itself only.
\<close>

definition literal_patterns :: "axum \<Rightarrow> bool" where
  "literal_patterns ax \<longleftrightarrow> (\<forall>pat path. CHR '':'' \<notin> set pat \<longrightarrow> CHR ''*'' \<notin> set pat \<longrightarrow>
     ax_match ax pat path = (if path = pat then Some [] else None))"

lemma find_route_literal:
  assumes "literal_patterns ax" "path \<notin> fst ` set routes"
  shows "find_route ax path = None"
proof -
  have plain: "\<forall>p\<in>fst ` set routes. CHR '':'' \<notin> set p \<and> CHR ''*'' \<notin> set p"
    by (simp add: routes_def)
  have "ax_match ax p path = None" if "p \<in> fst ` set routes" for p
  proof -
    have "CHR '':'' \<notin> set p" "CHR ''*'' \<notin> set p" "path \<noteq> p" using plain that assms(2) by auto
    then show ?thesis using assms(1) by (simp add: literal_patterns_def)
  qed
  then have "List.map_filter (\<lambda>(pat, ms). map_option (Pair ms) (ax_match ax pat path)) rs = []"
    if "set rs \<subseteq> set routes" for rs
    using that by (induction rs) (force simp: map_filter_simps)+
  then show ?thesis by (simp add: find_route_def)
qed

section \<open>Properties\<close>

text \<open>
  A daemon that starts with an empty registry in memory never registers anyone over
  HTTP: whatever requests it is sent, in whatever order, all are refused with 400 or 401, and
  nothing but the discovery manager's records ever changes.
\<close>

theorem empty_registry_stays_empty:
  assumes "sv_registry sv = memory_registry_ops (sv_ext sv) (sv_claims sv)"
    and "\<not> mr_poisoned (ss_registry st)" and "mr_entries (ss_registry st) = Map.empty"
    and "serve ax sv rqs st = (resps, st')"
  shows "(\<forall>resp\<in>set resps. rs_status resp \<in> {BAD_REQUEST, UNAUTHORIZED}) \<and>
    (\<exists>dm. st' = st\<lparr>ss_discovery_manager := dm\<rparr>)"
  using assms(2-4)
proof (induction rqs arbitrary: st resps)
  case (Cons mr rqs)
  obtain mo rq where mr: "mr = (mo, rq)" by (cases mr)
  obtain resp st1 where 1: "auth_middleware ax sv mo rq st = (resp, st1)" by fastforce
  obtain resps2 where 2: "serve ax sv rqs st1 = (resps2, st')" "resps = resp # resps2"
    using Cons.prems(3) 1 mr by (auto split: prod.splits)
  obtain dm where dm: "rs_status resp \<in> {BAD_REQUEST, UNAUTHORIZED}" "st1 = st\<lparr>ss_discovery_manager := dm\<rparr>"
    using mr.middleware_unregistered [OF Cons.prems(1) refl refl assms(1) _ 1] Cons.prems(2) by auto
  with Cons.IH [OF _ _ 2(1)] Cons.prems(1,2) 2(2) show ?case by auto
qed auto

text \<open>
  A request whose sender the file registry does not know is refused, and it changes
  nothing but the discovery manager's records: no key, policy, escalation, registration or
  log record depends on it.
\<close>

theorem unknown_sender_changes_nothing:
  assumes "sv_registry sv = file_registry_ops (sv_ext sv) (sv_claims sv) C"
    and "fr_usable C (ss_registry st)"
    and "header_str (rq_headers rq) agent_did_header = Some did"
    and "mr_entries (fr_memory (ss_registry st)) did = None"
    and "auth_middleware ax sv mo rq st = (resp, st')"
  shows "rs_status resp \<in> {BAD_REQUEST, UNAUTHORIZED} \<and> (\<exists>dm. st' = st\<lparr>ss_discovery_manager := dm\<rparr>)"
  by (rule fr.middleware_unregistered [OF assms(2) refl refl assms(1) _ assms(5)])
    (use assms(3,4) in simp)

text \<open>
  Every registered agent, of whatever ring, can register any identity at any ring, the
  ring System and its own DID included: the handler asks for no privilege.
\<close>

theorem any_agent_registers_anyone:
  assumes "crypto_ok (sv_ext sv)"
    and "sv_registry sv = memory_registry_ops (sv_ext sv) (sv_claims sv)"
    and "\<not> mr_poisoned (ss_registry st)"
    and "ss_registry_pubkey st = b64_encode (sv_ext sv) (public_bytes (sv_ext sv) (mr_identity (ss_registry st)))"
    and "snd (mo_auth mo) \<le> dt_add (sv_ext sv) (snd (fst (mo_auth mo))) (hours 24)"
    and "mr_entries (ss_registry st) did = Some (b64_encode (sv_ext sv) (public_bytes (sv_ext sv) k), own_ring)"
    and "header_str (rq_headers rq) agent_did_header = Some did"
    and "header_str (rq_headers rq) signature_header = Some (b64_encode (sv_ext sv) (ed_sign (sv_ext sv) k body))"
    and "rq_body rq = Inr body"
    and "find_route ax (rq_path rq) = Some ([(POST, Register_agent)], caps)" and "rq_method rq = POST"
    and "ax_json_register ax (rq_headers rq) body = Inr \<lparr>rr_identity = i, rr_ring = ring\<rparr>"
  shows "\<exists>resp st'. auth_middleware ax sv mo rq st = (resp, st') \<and> rs_status resp = CREATED \<and>
    mr_entries (ss_registry st') = (mr_entries (ss_registry st))(did_display (ai_did i) \<mapsto> (ai_public_key i, ring))"
proof -
  have "authenticate sv mo rq st = (Inr body, st)"
    by (rule mr.authenticate_registered [OF assms(3) refl refl assms(2,1,4-9)])
  then show ?thesis using assms(2,3,10-12)
    by (simp add: auth_middleware_def dispatch_def register_agent_handler_def into_response_def
        memory_registry_ops_def mr_register_def)
qed

text \<open>
  C15: under the default policy, on a log in good order, an action a registered agent asks to
  execute is recorded by exactly one record appended to the hash chain, permitted or denied;
  the answer says what the record says, a denial names the violated rule, and with a clock
  that does not go back the fallback reason is never used. The SIEM exporter is handed the
  record as it was before it was linked to the chain.
\<close>

theorem executed_action_is_recorded:
  assumes "sv_registry sv = file_registry_ops (sv_ext sv) (sv_claims sv) C"
    and "fr_usable C (ss_registry st)" and "ss_compliance_verifier st = default_policy (sv_ext sv)"
    and "header_str h agent_did_header = Some did"
    and "mr_entries (fr_memory (ss_registry st)) did = Some (pk, ring)"
    and "fal_synced (sv_ext sv) (sv_log_codec sv) rs (ss_action_log st)" and "cps_ok (sv_ext sv) (sv_log_codec sv)"
    and "\<forall>out. writable (sv_ext sv) (sv_log_codec sv) [execute_record mo did req out]"
    and "sub_mono (sv_ext sv)" and "\<forall>k. mo_evaluate mo k \<le> mo_is_compliant mo k"
  shows "\<exists>ok results st' rec. execute_action_handler sv mo h req st = (Inr (OK, Execute_json ok results), st') \<and>
    ok = is_compliant (mo_is_compliant mo) (default_policy (sv_ext sv))
           (execute_input did ring req (history_of did rs)) \<and>
    fal_synced (sv_ext sv) (sv_log_codec sv)
      (rs @ [rec\<lparr>al_prev_hash := chain_end (sv_ext sv) (sv_log_codec sv) genesis rs\<rparr>]) (ss_action_log st') \<and>
    al_agent_did rec = did \<and> al_action rec = exr_action req \<and> al_timestamp rec = mo_now mo \<and>
    (if ok then al_outcome rec = Permitted
     else \<exists>n why. al_outcome rec = Denied n why \<and> n \<in> {''GDPR-001'', ''SOX-001''}) \<and>
    ss_exported st' = ss_exported st @ (if ss_siem_exporter st then [rec] else []) \<and> al_prev_hash rec = []"
proof -
  let ?X = "sv_ext sv" and ?i = "execute_input did ring req (history_of did rs)"
  let ?results = "verifier_evaluate (mo_evaluate mo) (default_policy ?X) ?i"
  let ?ok = "is_compliant (mo_is_compliant mo) (default_policy ?X) ?i"
  let ?rec = "execute_record mo did req (execute_outcome ?ok ?results)"
  obtain log where log: "execute_action_handler sv mo h req st = (Inr (OK, Execute_json ?ok ?results),
      st\<lparr>ss_action_log := log,
         ss_exported := ss_exported st @ (if ss_siem_exporter st then [?rec] else [])\<rparr>)"
    "fal_synced ?X (sv_log_codec sv)
      (rs @ [?rec\<lparr>al_prev_hash := chain_end ?X (sv_log_codec sv) genesis rs\<rparr>]) log"
    using fr.execute_action_logged [OF assms(2) refl assms(1) refl assms(4,5,6,7,8) refl refl refl refl]
    unfolding assms(3) by blast
  have "if ?ok then al_outcome ?rec = Permitted
      else \<exists>n why. al_outcome ?rec = Denied n why \<and> n \<in> {''GDPR-001'', ''SOX-001''}"
    using default_outcome [OF assms(9,10), of ?i] by auto
  moreover have "al_prev_hash ?rec = []" by (simp add: execute_record_def)
  ultimately show ?thesis
    using log
    by (intro exI [of _ ?ok], intro exI [of _ ?results],
        intro exI [of _ "st\<lparr>ss_action_log := log,
          ss_exported := ss_exported st @ (if ss_siem_exporter st then [?rec] else [])\<rparr>"],
        intro exI [of _ ?rec]) simp
qed

text \<open>
  C3: an agent whose write, delete or update of financial records or audit logs was executed
  is denied to read the audit log for as long as the write is less than 24 hours old, however
  many other records, of whatever agents, were appended in between.
\<close>

theorem writer_cannot_read_audit_log:
  assumes "sv_registry sv = file_registry_ops (sv_ext sv) (sv_claims sv) C"
    and "fr_usable C (ss_registry st)" and "mr_entries (fr_memory (ss_registry st)) did = Some (pk, ring)"
    and "fr_usable C (ss_registry st2)" and "mr_entries (fr_memory (ss_registry st2)) did = Some (pk2, ring2)"
    and "ss_compliance_verifier st2 = default_policy (sv_ext sv)"
    and "header_str h agent_did_header = Some did" and "header_str h2 agent_did_header = Some did"
    and "fal_synced (sv_ext sv) (sv_log_codec sv) rs (ss_action_log st)" and "cps_ok (sv_ext sv) (sv_log_codec sv)"
    and "\<forall>out. writable (sv_ext sv) (sv_log_codec sv) [execute_record mo did wr out]"
    and "\<forall>out. writable (sv_ext sv) (sv_log_codec sv) [execute_record mo2 did rd out]"
    and "writable (sv_ext sv) (sv_log_codec sv) others"
    and "execute_action_handler sv mo h wr st = (Inr (OK, Execute_json True results), st1)"
    and "fal_append_all (sv_ext sv) (sv_log_codec sv) others (ss_action_log st1) = (r, ss_action_log st2)"
    and "exr_resource_category wr \<in> {FinancialRecord, AuditLog}"
    and "starts_with (exr_action wr) ''write'' \<or> starts_with (exr_action wr) ''delete'' \<or>
      starts_with (exr_action wr) ''update''"
    and "exr_action rd \<in> {''read'', ''read_audit_log''}" and "exr_resource_category rd = AuditLog"
    and "dt_sub (sv_ext sv) (mo_is_compliant mo2 1) (hours 24) < mo_now mo"
  shows "\<exists>results2 st3. execute_action_handler sv mo2 h2 rd st2 = (Inr (OK, Execute_json False results2), st3)"
proof -
  let ?X = "sv_ext sv" and ?L = "sv_log_codec sv"
  let ?w = "(execute_record mo did wr Permitted)\<lparr>al_prev_hash := chain_end ?X ?L genesis rs\<rparr>"
  obtain log ok res where ex: "execute_action_handler sv mo h wr st = (Inr (OK, Execute_json ok res),
      st\<lparr>ss_action_log := log, ss_exported := ss_exported st @
        (if ss_siem_exporter st then [execute_record mo did wr (execute_outcome ok res)] else [])\<rparr>)"
    "fal_synced ?X ?L (rs @ [(execute_record mo did wr (execute_outcome ok res))
        \<lparr>al_prev_hash := chain_end ?X ?L genesis rs\<rparr>]) log"
    using fr.execute_action_logged [OF assms(2) refl assms(1) refl assms(7,3,9,10,11) refl refl refl refl]
    by blast
  with assms(14) have "ok" "log = ss_action_log st1" by auto
  with ex(2) have s1: "fal_synced ?X ?L (rs @ [?w]) (ss_action_log st1)" by (simp add: execute_outcome_def)
  obtain rs2 where s2: "fal_synced ?X ?L ((rs @ [?w]) @ rs2) (ss_action_log st2)"
    using fal_append_all_synced [OF s1 assms(13,10)] assms(15) by auto
  let ?i = "execute_input did ring2 rd (history_of did ((rs @ [?w]) @ rs2))"
  let ?a = "\<lparr>ar_action = exr_action wr, ar_timestamp = mo_now mo, ar_resource_category = exr_resource_category wr\<rparr>"
  have "?a \<in> set (ci_action_history ?i)" by (simp add: history_of_def)
  moreover have "recent_write (dt_sub ?X (mo_is_compliant mo2 1) (hours 24)) ?a"
    using assms(16,17,20) by (auto simp: recent_write_def)
  ultimately have no: "\<not> is_compliant (mo_is_compliant mo2) (default_policy ?X) ?i"
    by (intro default_denies_recent_writer [where r = ?a]) (use assms(18,19) in simp_all)
  then show ?thesis
    using fr.execute_action_logged [OF assms(4) refl assms(1) refl assms(8,5) s2 assms(10,12) refl refl refl refl]
    unfolding assms(6) by auto
qed

lemma bridge_appends:
  assumes "fal_synced X L rs log" and "cps_ok X L"
    and "writable X L (bridge_records to_json fresh n evs)"
  shows "discovery_bridge X L to_json fresh n (map Inr evs) log =
    snd (fal_append_all X L (bridge_records to_json fresh n evs) log)"
  using assms
proof (induction evs arbitrary: n log rs)
  case (Cons ev evs)
  show ?case
  proof (cases ev)
    case (Shadow a)
    let ?r = "shadow_record to_json (fresh n) (Shadow a) a"
    have "writable X L [?r]" "writable X L (bridge_records to_json fresh (Suc n) evs)"
      using Cons.prems(3) Shadow by (simp_all add: writable_def)
    then have "log_json_ok L (?r\<lparr>al_prev_hash := fal_last_hash log\<rparr>)"
      using fal_synced_link [OF Cons.prems(1)] unfolding writable_def by (meson list.set_intros(1))
    from fal_append_synced [OF Cons.prems(1) this Cons.prems(2)] Cons.IH Cons.prems(2)
      \<open>writable X L (bridge_records to_json fresh (Suc n) evs)\<close> Shadow
    show ?thesis by fastforce
  qed (use Cons in auto)
qed simp

text \<open>
  As long as it receives events, the worker appends one record per shadow event, in the
  order of the events, to an intact chain, and none for the others. The first error, and a
  receiver that merely lags behind gets one, ends it for good: no later event is logged.
\<close>

theorem worker_logs_shadows:
  assumes "fal_synced X L rs log" and "cps_ok X L"
    and "writable X L (bridge_records to_json fresh n evs)"
  shows "fal_synced X L (rs @ seal X L (fal_last_hash log) (bridge_records to_json fresh n evs))
      (discovery_bridge X L to_json fresh n (map Inr evs) log) \<and>
    (\<forall>e rest. discovery_bridge X L to_json fresh n (map Inr evs @ Inl e # rest) log =
      discovery_bridge X L to_json fresh n (map Inr evs) log)"
  using fal_append_all_synced [OF assms(1,3,2)] bridge_stops bridge_appends [OF assms] by force

text \<open>
  The routes that carry a parameter are written in braces, which \<open>axum\<close> 0.7 takes
  literally: a request for an agent's attestation, ring, policy or key, or for approving an
  escalation, finds no route and is answered 404, whoever sends it.
\<close>

lemma agent_routes_unmatched:
  assumes "literal_patterns ax"
    and "rq_path rq = ''/v1/agents/'' @ did @ part \<and> did \<noteq> ''{did}'' \<and>
        part \<in> {''/attestation'', ''/ring'', ''/policy'', ''/key''} \<or>
      rq_path rq = ''/v1/escalations/'' @ did @ ''/approve'' \<and> did \<noteq> ''{id}''"
  shows "dispatch ax sv mo rq body st = (Inl (NOT_FOUND, []), st)"
proof -
  have rev_neq: "rev (rq_path rq) \<noteq> rev p" if "p \<in> fst ` set routes" for p
    using that assms(2) unfolding routes_def
    by (elim disjE conjE) (auto simp: append_eq_Cons_conv Cons_eq_append_conv)
  then have "rq_path rq \<notin> fst ` set routes" by blast
  from find_route_literal [OF assms(1) this] show ?thesis by (simp add: dispatch_def)
qed

section \<open>A concrete server\<close>

definition sample_moment :: moment where
  "sample_moment = \<lparr>mo_auth = ((0, 0), 5), mo_attest = (0, 0), mo_approve = (5, 6),
     mo_seen = (5, 5, 5), mo_evaluate = (\<lambda>_. 5), mo_is_compliant = (\<lambda>_. 5), mo_now = 5,
     mo_uuid = 7, mo_pending_order = [], mo_agent_order = []\<rparr>"

definition sample_write :: execute_request where
  "sample_write = \<lparr>exr_action = ''write_report'', exr_resource_category = FinancialRecord,
     exr_jurisdiction = None\<rparr>"

definition sample_read :: execute_request where
  "sample_read = \<lparr>exr_action = ''read'', exr_resource_category = AuditLog, exr_jurisdiction = None\<rparr>"

definition sample_agent :: discovered_agent where
  "sample_agent = \<lparr>da_did = \<lparr>did_method = ''mesh'', did_unique_id = ''b''\<rparr>, da_name = ''B'',
     da_first_seen = 0, da_last_seen = 0, da_transport_address = ''h'',
     da_is_registered = False, da_source = Passive\<rparr>"

text \<open>A codec for three kinds of records, with any outcome and any link.\<close>

definition base_record :: "char \<Rightarrow> action_log_record" where
  "base_record c =
     (if c = CHR ''s'' then shadow_record (\<lambda>_. []) (0, 0) (Shadow sample_agent) sample_agent
      else execute_record sample_moment ''did:mesh:a''
        (if c = CHR ''w'' then sample_write else sample_read) Permitted)"

definition outcome_text :: "action_outcome \<Rightarrow> string" where
  "outcome_text out = (case out of
       Permitted \<Rightarrow> ''P--'' | Denied n why \<Rightarrow> ''D'' @ to_hex n @ ''-'' @ to_hex why @ ''-''
     | DiscoveryEventLogged j \<Rightarrow> ''E'' @ to_hex j @ ''--'')"

definition outcome_of :: "char \<Rightarrow> string \<Rightarrow> string \<Rightarrow> action_outcome" where
  "outcome_of c x y = (if c = CHR ''P'' then Permitted
     else if c = CHR ''D'' then Denied (from_hex x) (from_hex y) else DiscoveryEventLogged (from_hex x))"

definition exec_codec :: log_codec where
  "exec_codec = sample_log_codec\<lparr>
     lc_to_json := \<lambda>r. Inr ((if al_action r = ''discovery_alert'' then CHR ''s''
         else if al_action r = ''write_report'' then CHR ''w'' else CHR ''r'') #
       outcome_text (al_outcome r) @ to_hex (al_prev_hash r)),
     lc_of_json := \<lambda>s. Inr (let p = str_split CHR ''-'' (drop 2 s) in
       (base_record (s ! 0))\<lparr>al_outcome := outcome_of (s ! 1) (p ! 0) (p ! 1),
          al_prev_hash := from_hex (p ! 2)\<rparr>)\<rparr>"

lemma to_hex_no_dash [simp]: "CHR ''-'' \<notin> set (to_hex b)"
  using set_to_hex [of b] by (auto simp: hex_digits_def)

lemma split_dashes:
  "str_split CHR ''-'' (to_hex x @ CHR ''-'' # to_hex y @ CHR ''-'' # to_hex z) = [to_hex x, to_hex y, to_hex z]"
  "str_split CHR ''-'' (to_hex x @ CHR ''-'' # CHR ''-'' # to_hex z) = [to_hex x, [], to_hex z]"
  "str_split CHR ''-'' (to_hex z) = [to_hex z]"
  using str_split_append [of "CHR ''-''" "[]" "to_hex z"]
  by (simp_all add: str_split_append str_split_no_sep)

lemma exec_read_back:
  assumes "c \<in> {CHR ''s'', CHR ''w'', CHR ''r''}"
    and "r = (base_record c)\<lparr>al_outcome := out, al_prev_hash := h\<rparr>"
  shows "\<exists>j. lc_to_json exec_codec r = Inr (c # j) \<and> lc_of_json exec_codec (c # j) = Inr r \<and>
    set j \<subseteq> set hex_digits \<union> {CHR ''P'', CHR ''D'', CHR ''E'', CHR ''-''}"
proof -
  have "lc_to_json exec_codec r = Inr (c # outcome_text out @ to_hex h)"
    using assms by (auto simp: exec_codec_def base_record_def shadow_record_def sample_write_def
        sample_read_def)
  moreover have "lc_of_json exec_codec (c # outcome_text out @ to_hex h) = Inr r"
    using assms(2) by (cases out) (simp_all add: exec_codec_def outcome_text_def outcome_of_def split_dashes)
  moreover have "set (outcome_text out @ to_hex h) \<subseteq> set hex_digits \<union> {CHR ''P'', CHR ''D'', CHR ''E'', CHR ''-''}"
    using set_to_hex by (cases out) (auto simp: outcome_text_def)
  ultimately show ?thesis by blast
qed

lemma exec_json_ok:
  assumes "c \<in> {CHR ''s'', CHR ''w'', CHR ''r''}"
  shows "log_json_ok exec_codec ((base_record c)\<lparr>al_outcome := out, al_prev_hash := h\<rparr>)"
proof -
  let ?r = "(base_record c)\<lparr>al_outcome := out, al_prev_hash := h\<rparr>"
  obtain j where j: "lc_to_json exec_codec ?r = Inr (c # j)" "lc_of_json exec_codec (c # j) = Inr ?r"
    "set j \<subseteq> set hex_digits \<union> {CHR ''P'', CHR ''D'', CHR ''E'', CHR ''-''}"
    using exec_read_back [OF assms refl] by blast
  have chars: "\<forall>d\<in>set hex_digits \<union> {CHR ''P'', CHR ''D'', CHR ''E'', CHR ''-''}. byte_in 0 127 d \<and> d \<noteq> nl \<and> d \<noteq> cr"
    by (simp add: hex_digits_def byte_in_def nl_def cr_def)
  have c: "byte_in 0 127 c \<and> c \<noteq> nl \<and> c \<noteq> cr" using assms by (auto simp: byte_in_def nl_def cr_def)
  have "\<forall>d\<in>set (c # j). byte_in 0 127 d" using chars c j(3) by auto
  then have "utf8_valid (c # j)" by (rule utf8_ascii)
  moreover have "nl \<notin> set (c # j)" "cr \<notin> set (c # j)" using chars c j(3) by auto
  moreover have "\<not> blank (c # j)" by (rule blank_visible) (use assms in auto)
  ultimately show ?thesis using j(1,2) by (auto simp: json_ok_def one_line_def)
qed

lemma exec_writable:
  "writable log_ext exec_codec [execute_record sample_moment ''did:mesh:a'' sample_write out]"
  "writable log_ext exec_codec [execute_record sample_moment ''did:mesh:a'' sample_read out]"
  "writable log_ext exec_codec [shadow_record to_json (0, 0) (Shadow sample_agent) sample_agent]"
proof -
  have "execute_record sample_moment ''did:mesh:a'' sample_write out\<lparr>al_prev_hash := h\<rparr> =
      (base_record (CHR ''w''))\<lparr>al_outcome := out, al_prev_hash := h\<rparr>" for h
    by (simp add: base_record_def execute_record_def)
  then show "writable log_ext exec_codec [execute_record sample_moment ''did:mesh:a'' sample_write out]"
    using exec_json_ok [of "CHR ''w''"] by (simp add: writable_def)
  have "execute_record sample_moment ''did:mesh:a'' sample_read out\<lparr>al_prev_hash := h\<rparr> =
      (base_record (CHR ''r''))\<lparr>al_outcome := out, al_prev_hash := h\<rparr>" for h
    by (simp add: base_record_def execute_record_def)
  then show "writable log_ext exec_codec [execute_record sample_moment ''did:mesh:a'' sample_read out]"
    using exec_json_ok [of "CHR ''r''"] by (simp add: writable_def)
  have "shadow_record to_json (0, 0) (Shadow sample_agent) sample_agent\<lparr>al_prev_hash := h\<rparr> =
      (base_record (CHR ''s''))\<lparr>al_outcome := DiscoveryEventLogged (to_json (Shadow sample_agent)), al_prev_hash := h\<rparr>" for h
    by (simp add: base_record_def shadow_record_def)
  then show "writable log_ext exec_codec [shadow_record to_json (0, 0) (Shadow sample_agent) sample_agent]"
    using exec_json_ok [of "CHR ''s''"] by (simp add: writable_def)
qed

lemma exec_cps_ok: "cps_ok log_ext exec_codec"
  using sample_cps_ok
  by (simp add: cps_ok_def compute_hash_def canonical_bytes_def exec_codec_def)

lemma exec_synced: "\<exists>s. fal_synced log_ext exec_codec [] s"
proof -
  have "files empty_fs ''log'' = None" "files empty_fs (with_extension ''checkpoint'' ''log'') = None"
    "script empty_fs = []" "with_extension ''checkpoint'' ''log'' \<noteq> ''log''"
    by (simp_all add: empty_fs_def log_checkpoint_path)
  from fal_synced_open_new [OF this] show ?thesis by blast
qed

definition sample_headers :: "bytes \<Rightarrow> bytes \<Rightarrow> headers" where
  "sample_headers did sig = [''x-agt-agent-did'' \<mapsto> did, ''x-agt-signature'' \<mapsto> sig]"

lemma header_names:
  "to_lowercase agent_did_header = ''x-agt-agent-did''"
  "to_lowercase signature_header = ''x-agt-signature''"
  by (simp_all add: lower_char_eval)

lemma sample_headers_str:
  "header_str (sample_headers did sig) agent_did_header = header_to_str did"
  "header_str (sample_headers did sig) signature_header = header_to_str sig"
  by (simp_all only: header_str_def header_get_def header_names) (simp_all add: sample_headers_def)

definition sample_services :: "ext \<Rightarrow> 'r registry_ops \<Rightarrow> ('r, memory_key_store, memory_policy_store) services" where
  "sample_services X R = \<lparr>sv_ext = X, sv_claims = ac_subject_did, sv_event_json = \<lambda>_. Inr ''{}'',
     sv_log_codec = exec_codec, sv_registry = R, sv_keys = memory_keystore_ops, sv_policies = memory_policy_ops\<rparr>"

definition sample_server ::
  "ext \<Rightarrow> 'r \<Rightarrow> file_action_log \<Rightarrow> ('r, memory_key_store, memory_policy_store) server_state" where
  "sample_server X reg log = \<lparr>ss_registry = reg, ss_key_store = mks_new, ss_policy_store = mps_new,
     ss_escalation_manager = sample_manager, ss_discovery_manager = dm_new,
     ss_compliance_verifier = default_policy X, ss_action_log = log, ss_siem_exporter = True,
     ss_exported = [], ss_registry_pubkey = pad32 ''rk''\<rparr>"

definition sample_file_registry :: file_registry where
  "sample_file_registry = \<lparr>fr_path = ''reg'', fr_memory = (mr_new ''rk'' ''did:mesh:registry'')
      \<lparr>mr_entries := [''did:mesh:a'' \<mapsto> (pad32 ''k'', Sandboxed)]\<rparr>,
    fr_fs = \<lparr>files = Map.empty, script = []\<rparr>\<rparr>"

lemma sample_file_registry_usable [simp]: "fr_usable sample_codec sample_file_registry"
  by (simp add: fr_usable_def sample_file_registry_def mr_new_def sample_codec_def)

definition any_axum :: axum where
  "any_axum = \<lparr>ax_match = \<lambda>pat path. if path = pat then Some [] else None,
     ax_path_string = \<lambda>_. Inl (500, []), ax_path_uuid = \<lambda>_. Inl (500, []),
     ax_json_register = \<lambda>_ _. Inr \<lparr>rr_identity = sample_identity ''evil'' ''pk'', rr_ring = System\<rparr>,
     ax_json_policy = \<lambda>_ _. Inl (422, []), ax_json_string = \<lambda>_ _. Inl (422, []),
     ax_json_approve = \<lambda>_ _. Inl (422, []), ax_json_presence = \<lambda>_ _. Inl (422, []),
     ax_json_execute = \<lambda>_ _. Inl (422, [])\<rparr>"

definition register_request_of :: "bytes \<Rightarrow> bytes \<Rightarrow> http_request" where
  "register_request_of did sig = \<lparr>rq_method = POST, rq_path = ''/v1/agents/register'',
     rq_headers = sample_headers did sig, rq_body = Inr ''hello'', rq_peer = ''10.0.0.1:9''\<rparr>"

lemma header_to_str_did: "header_to_str ''did:mesh:a'' = Some ''did:mesh:a''"
  by (simp add: header_to_str_def byte_in_def)

theorem empty_registry_stays_empty_witness:
  "\<exists>resp st'. serve any_axum (sample_services toy_ext (memory_registry_ops toy_ext ac_subject_did))
      [(sample_moment, register_request_of ''did:mesh:a'' ''sig'')]
      (sample_server toy_ext (mr_new ''rk'' ''did:mesh:registry'') (log_holding [])) = ([resp], st') \<and>
    rs_status resp \<in> {BAD_REQUEST, UNAUTHORIZED}"
proof -
  let ?sv = "sample_services toy_ext (memory_registry_ops toy_ext ac_subject_did)"
  let ?st = "sample_server toy_ext (mr_new ''rk'' ''did:mesh:registry'') (log_holding [])"
  obtain resp st' where "auth_middleware any_axum ?sv sample_moment (register_request_of ''did:mesh:a'' ''sig'') ?st
      = (resp, st')" by fastforce
  then have s: "serve any_axum ?sv [(sample_moment, register_request_of ''did:mesh:a'' ''sig'')] ?st = ([resp], st')"
    by simp
  have "sv_registry ?sv = memory_registry_ops (sv_ext ?sv) (sv_claims ?sv)"
    "\<not> mr_poisoned (ss_registry ?st)" "mr_entries (ss_registry ?st) = Map.empty"
    by (simp_all add: sample_services_def sample_server_def mr_new_def)
  from empty_registry_stays_empty [OF this s] s show ?thesis by auto
qed

theorem unknown_sender_changes_nothing_witness:
  "\<exists>resp st'. auth_middleware any_axum
      (sample_services toy_ext (file_registry_ops toy_ext ac_subject_did sample_codec)) sample_moment
      (register_request_of ''did:mesh:b'' ''sig'')
      (sample_server toy_ext sample_file_registry (log_holding [])) = (resp, st') \<and>
    ss_registry st' = sample_file_registry"
proof -
  let ?sv = "sample_services toy_ext (file_registry_ops toy_ext ac_subject_did sample_codec)"
  let ?st = "sample_server toy_ext sample_file_registry (log_holding [])"
  let ?rq = "register_request_of ''did:mesh:b'' ''sig''"
  obtain resp st' where a: "auth_middleware any_axum ?sv sample_moment ?rq ?st = (resp, st')" by fastforce
  have "sv_registry ?sv = file_registry_ops (sv_ext ?sv) (sv_claims ?sv) sample_codec"
    "fr_usable sample_codec (ss_registry ?st)"
    "header_str (rq_headers ?rq) agent_did_header = Some ''did:mesh:b''"
    "mr_entries (fr_memory (ss_registry ?st)) ''did:mesh:b'' = None"
    by (simp_all add: sample_services_def sample_server_def register_request_of_def sample_headers_str
        header_to_str_def byte_in_def) (simp add: sample_file_registry_def)
  from unknown_sender_changes_nothing [OF this a] a show ?thesis by (auto simp: sample_server_def)
qed

definition sample_memory_registry :: memory_registry where
  "sample_memory_registry = (mr_new ''rk'' ''did:mesh:registry'')
      \<lparr>mr_entries := [''did:mesh:a'' \<mapsto> (pad32 ''k'', Sandboxed)]\<rparr>"

theorem any_agent_registers_anyone_witness:
  "\<exists>resp st'. auth_middleware any_axum (sample_services toy_ext (memory_registry_ops toy_ext ac_subject_did))
      sample_moment (register_request_of ''did:mesh:a'' (pad32 ''k'' @ ''hello''))
      (sample_server toy_ext sample_memory_registry (log_holding [])) = (resp, st') \<and>
    rs_status resp = CREATED \<and> mr_entries (ss_registry st') ''did:mesh:evil'' = Some (''pk'', System)"
proof -
  let ?sv = "sample_services toy_ext (memory_registry_ops toy_ext ac_subject_did)"
  let ?st = "sample_server toy_ext sample_memory_registry (log_holding [])"
  let ?rq = "register_request_of ''did:mesh:a'' (pad32 ''k'' @ ''hello'')"
  have route: "find_route any_axum (rq_path ?rq) = Some ([(POST, Register_agent)], [])"
    by (simp add: find_route_def routes_def map_filter_simps any_axum_def register_request_of_def)
  have vis: "header_to_str (pad32 ''k'' @ ''hello'') = Some (pad32 ''k'' @ ''hello'')"
    by (simp add: header_to_str_def byte_in_def pad32_def)
  have sv: "crypto_ok (sv_ext ?sv)" "sv_registry ?sv = memory_registry_ops (sv_ext ?sv) (sv_claims ?sv)"
    by (simp_all add: sample_services_def)
  have st: "\<not> mr_poisoned (ss_registry ?st)"
    "ss_registry_pubkey ?st = b64_encode (sv_ext ?sv) (public_bytes (sv_ext ?sv) (mr_identity (ss_registry ?st)))"
    "snd (mo_auth sample_moment) \<le> dt_add (sv_ext ?sv) (snd (fst (mo_auth sample_moment))) (hours 24)"
    "mr_entries (ss_registry ?st) ''did:mesh:a'' =
      Some (b64_encode (sv_ext ?sv) (public_bytes (sv_ext ?sv) ''k''), Sandboxed)"
    by (simp_all add: sample_server_def sample_memory_registry_def mr_new_def sample_services_def
        sample_moment_def toy_ext_def)
  have rq: "header_str (rq_headers ?rq) agent_did_header = Some ''did:mesh:a''"
    "header_str (rq_headers ?rq) signature_header =
      Some (b64_encode (sv_ext ?sv) (ed_sign (sv_ext ?sv) ''k'' ''hello''))" "rq_body ?rq = Inr ''hello''"
    by (simp_all add: register_request_of_def sample_headers_str header_to_str_did vis)
      (simp add: sample_services_def toy_ext_def)
  have ax: "rq_method ?rq = POST" "ax_json_register any_axum (rq_headers ?rq) ''hello'' =
      Inr \<lparr>rr_identity = sample_identity ''evil'' ''pk'', rr_ring = System\<rparr>"
    by (simp_all add: register_request_of_def any_axum_def)
  have d: "did_display (ai_did (sample_identity ''evil'' ''pk'')) = ''did:mesh:evil''"
    "ai_public_key (sample_identity ''evil'' ''pk'') = ''pk''"
    by (simp_all add: sample_identity_def did_display_def)
  from any_agent_registers_anyone [OF sv st rq route ax] show ?thesis unfolding d by fastforce
qed

lemma log_ext_facts: "crypto_ok log_ext" "sub_mono log_ext"
  using crypto_ok_toy by (simp_all add: log_ext_def crypto_ok_def sub_mono_def) (simp add: toy_ext_def)

definition exec_services :: "(file_registry, memory_key_store, memory_policy_store) services" where
  "exec_services = sample_services log_ext (file_registry_ops log_ext ac_subject_did sample_codec)"

definition exec_server :: "file_action_log \<Rightarrow> (file_registry, memory_key_store, memory_policy_store) server_state" where
  "exec_server log = sample_server log_ext sample_file_registry log"

lemma exec_facts:
  "sv_ext exec_services = log_ext" "sv_log_codec exec_services = exec_codec"
  "sv_registry exec_services = file_registry_ops (sv_ext exec_services) (sv_claims exec_services) sample_codec"
  "ss_registry (exec_server log) = sample_file_registry" "ss_action_log (exec_server log) = log"
  "fr_usable sample_codec (ss_registry (exec_server log))"
  "ss_compliance_verifier (exec_server log) = default_policy (sv_ext exec_services)"
  "mr_entries (fr_memory (ss_registry (exec_server log))) ''did:mesh:a'' = Some (pad32 ''k'', Sandboxed)"
  "header_str (sample_headers ''did:mesh:a'' sig) agent_did_header = Some ''did:mesh:a''"
proof -
  show "header_str (sample_headers ''did:mesh:a'' sig) agent_did_header = Some ''did:mesh:a''"
    by (simp only: sample_headers_str header_to_str_did)
qed (simp_all add: exec_services_def exec_server_def sample_services_def sample_server_def
    sample_file_registry_def fr_usable_def mr_new_def sample_codec_def)

theorem executed_action_is_recorded_witness:
  "\<exists>log ok results st' rec. execute_action_handler exec_services sample_moment
      (sample_headers ''did:mesh:a'' []) sample_write (exec_server log) = (Inr (OK, Execute_json ok results), st') \<and>
    fal_synced log_ext exec_codec [rec\<lparr>al_prev_hash := genesis\<rparr>] (ss_action_log st')"
proof -
  obtain log where log: "fal_synced log_ext exec_codec [] log" using exec_synced by blast
  have w: "\<forall>out. writable (sv_ext exec_services) (sv_log_codec exec_services)
      [execute_record sample_moment ''did:mesh:a'' sample_write out]"
    using exec_writable(1) by (simp add: exec_facts(1,2))
  have sy: "fal_synced (sv_ext exec_services) (sv_log_codec exec_services) [] (ss_action_log (exec_server log))"
    and cp: "cps_ok (sv_ext exec_services) (sv_log_codec exec_services)"
    using log exec_cps_ok by (simp_all add: exec_facts(1,2,5))
  have mono: "sub_mono (sv_ext exec_services)" "\<forall>k. mo_evaluate sample_moment k \<le> mo_is_compliant sample_moment k"
    using log_ext_facts(2) by (simp_all add: exec_facts(1) sample_moment_def)
  from executed_action_is_recorded [OF exec_facts(3,6,7,9,8) sy cp w mono, of "[]"]
  show ?thesis unfolding exec_facts(1,2) append_Nil chain_end.simps by blast
qed

theorem writer_cannot_read_audit_log_witness:
  "\<exists>log results st1 results2 st3.
     execute_action_handler exec_services sample_moment (sample_headers ''did:mesh:a'' []) sample_write
       (exec_server log) = (Inr (OK, Execute_json True results), st1) \<and>
     execute_action_handler exec_services sample_moment (sample_headers ''did:mesh:a'' []) sample_read
       (exec_server (ss_action_log st1)) = (Inr (OK, Execute_json False results2), st3)"
proof -
  obtain log where log: "fal_synced log_ext exec_codec [] log" using exec_synced by blast
  have w: "\<forall>out. writable (sv_ext exec_services) (sv_log_codec exec_services)
      [execute_record sample_moment ''did:mesh:a'' sample_write out]"
    "\<forall>out. writable (sv_ext exec_services) (sv_log_codec exec_services)
      [execute_record sample_moment ''did:mesh:a'' sample_read out]"
    "writable (sv_ext exec_services) (sv_log_codec exec_services) []"
    using exec_writable(1,2) by (simp_all add: exec_facts(1,2)) (simp add: writable_def)
  have sy: "fal_synced (sv_ext exec_services) (sv_log_codec exec_services) [] (ss_action_log (exec_server log))"
    and cp: "cps_ok (sv_ext exec_services) (sv_log_codec exec_services)"
    using log exec_cps_ok by (simp_all add: exec_facts(1,2,5))
  let ?i = "execute_input ''did:mesh:a'' Sandboxed sample_write (history_of ''did:mesh:a'' [])"
  have ok: "True = is_compliant (mo_is_compliant sample_moment) (ss_compliance_verifier (exec_server log)) ?i"
    by (simp add: exec_facts(7) is_compliant_def verifier_evaluate_default gdpr_data_export_rule_def
        sox_audit_immutability_rule_def is_violation_def sample_write_def)
  obtain results st1 where ex: "execute_action_handler exec_services sample_moment
      (sample_headers ''did:mesh:a'' []) sample_write (exec_server log) = (Inr (OK, Execute_json True results), st1)"
    using fr.execute_action_logged [OF exec_facts(6) refl exec_facts(3) refl exec_facts(9,8) sy cp w(1)
        refl refl ok refl] by blast
  have "fal_append_all (sv_ext exec_services) (sv_log_codec exec_services) [] (ss_action_log st1) =
      (Inr (), ss_action_log (exec_server (ss_action_log st1)))" by (simp add: exec_facts(5))
  note th = writer_cannot_read_audit_log [OF exec_facts(3,6,8,6,8,7,9,9) sy cp w ex this]
  have "exr_resource_category sample_write \<in> {FinancialRecord, AuditLog}"
    "starts_with (exr_action sample_write) ''write'' \<or> starts_with (exr_action sample_write) ''delete'' \<or>
      starts_with (exr_action sample_write) ''update''"
    "exr_action sample_read \<in> {''read'', ''read_audit_log''}" "exr_resource_category sample_read = AuditLog"
    "dt_sub (sv_ext exec_services) (mo_is_compliant sample_moment 1) (hours 24) < mo_now sample_moment"
    by (simp_all add: sample_write_def sample_read_def sample_moment_def exec_facts(1))
      (simp add: log_ext_def toy_ext_def)
  from th [OF this] ex show ?thesis by blast
qed

theorem worker_logs_shadows_witness:
  "\<exists>log. fal_synced log_ext exec_codec [(shadow_record (\<lambda>_. ''{}'') (0, 0) (Shadow sample_agent) sample_agent)
      \<lparr>al_prev_hash := genesis\<rparr>] (discovery_bridge log_ext exec_codec (\<lambda>_. ''{}'') (\<lambda>_. (0, 0)) 0
        (map Inr [Presence sample_agent, Shadow sample_agent]) log)"
proof -
  obtain log where log: "fal_synced log_ext exec_codec [] log" using exec_synced by blast
  then have g: "fal_last_hash log = genesis" by (simp add: fal_synced_defs)
  have w: "writable log_ext exec_codec (bridge_records (\<lambda>_. ''{}'') (\<lambda>_. (0, 0)) 0
      [Presence sample_agent, Shadow sample_agent])"
    using exec_writable(3) by simp
  from worker_logs_shadows [OF log exec_cps_ok w] show ?thesis unfolding g by auto
qed

end
