(* ===== verification/Gateway.thy ===== *)
theory Gateway
  imports Daemon_Safety
begin

text \<open>
  The MCP gateway, \<open>crates/daemon/src/gateway.rs\<close>: an authenticating proxy that checks the
  rate, the policy and the compliance of a tool call before it forwards it. The answer of the
  upstream server and the JSON forms of requests and answers are parameters; the bodies
  forwarded are kept in the state.
\<close>

section \<open>State and requests\<close>

record json_rpc_request =
  jr_jsonrpc :: string
  jr_method :: string
  jr_params :: "json option"
  jr_id :: "json option"

record ('r, 'k, 'p) gateway_state =
  gs_server :: "('r, 'k, 'p) server_state"
  gs_upstream_url :: string
  gs_last_requests :: "string \<rightharpoonup> datetime"
  gs_forwarded :: "bytes list"

record gateway_moment =
  gm_auth :: "readings \<times> datetime"
  gm_rate :: datetime
  gm_request :: datetime
  gm_record :: datetime
  gm_request_id :: uuid
  gm_record_id :: uuid
  gm_is_compliant :: clock
  gm_upstream :: "json res" \<comment> \<open>sending the request and reading the answer as JSON\<close>

record gateway_codec =
  gc_request_of_json :: "bytes \<Rightarrow> json_rpc_request res"
  gc_accepted_to_json :: "string \<Rightarrow> string \<Rightarrow> string" \<comment> \<open>of \<open>EscalationAcceptedResponse\<close>\<close>

abbreviation TOO_MANY_REQUESTS :: nat where "TOO_MANY_REQUESTS \<equiv> 429"
abbreviation BAD_GATEWAY :: nat where "BAD_GATEWAY \<equiv> 502"
abbreviation ACCEPTED :: nat where "ACCEPTED \<equiv> 202"

type_synonym gateway_result = "nat \<times> string + json"

section \<open>Operations\<close>

text \<open>What \<open>run_gateway\<close> starts with.\<close>

definition gateway_new :: "('r, 'k, 'p) server_state \<Rightarrow> string \<Rightarrow> ('r, 'k, 'p) gateway_state" where
  "gateway_new st upstream_url = \<lparr>gs_server = st, gs_upstream_url = upstream_url,
     gs_last_requests = Map.empty, gs_forwarded = []\<rparr>"

text \<open>The append of a record whose result the code ignores.\<close>

definition log_record ::
  "('r, 'k, 'p) services \<Rightarrow> action_log_record \<Rightarrow> ('r, 'k, 'p) server_state \<Rightarrow> ('r, 'k, 'p) server_state" where
  "log_record sv rec st =
     st\<lparr>ss_action_log := snd (fal_append (sv_ext sv) (sv_log_codec sv) (ss_action_log st) rec)\<rparr>"

definition gateway_record ::
  "gateway_moment \<Rightarrow> string \<Rightarrow> string \<Rightarrow> data_category \<Rightarrow> action_outcome \<Rightarrow> action_log_record" where
  "gateway_record gm did tool category outcome =
     \<lparr>al_record_id = gm_record_id gm, al_agent_did = did, al_action = tool,
      al_resource_category = category, al_timestamp = gm_record gm, al_outcome = outcome,
      al_prev_hash = []\<rparr>"

definition log_denial ::
  "('r, 'k, 'p) services \<Rightarrow> gateway_moment \<Rightarrow> string \<Rightarrow> string \<Rightarrow> string \<Rightarrow> data_category \<Rightarrow>
     ('r, 'k, 'p) server_state \<Rightarrow> ('r, 'k, 'p) server_state" where
  "log_denial sv gm did tool reason category st =
     log_record sv (gateway_record gm did tool category (Denied ''Governance'' reason)) st"

text \<open>
  \<open>Duration::seconds(1) / policy.max_requests_per_second.max(1) as i32\<close>: the cast reads the 32
  bits as a signed number.
\<close>

definition rate_interval :: "ext \<Rightarrow> u32 \<Rightarrow> duration" where
  "rate_interval X rps = dur_div X (secs 1) (sint (max rps 1))"

text \<open>The limiter: whether the call may go on, and the calls on record afterwards.\<close>

definition rate_limit ::
  "ext \<Rightarrow> u32 \<Rightarrow> datetime \<Rightarrow> string \<Rightarrow> (string \<rightharpoonup> datetime) \<Rightarrow> bool \<times> (string \<rightharpoonup> datetime)" where
  "rate_limit X rps now did last_requests =
     (case last_requests did of
        Some last_at \<Rightarrow>
          if dt_diff X now last_at < rate_interval X rps then (False, last_requests)
          else (True, last_requests(did \<mapsto> now))
      | None \<Rightarrow> (True, last_requests(did \<mapsto> now)))"

definition forward :: "bytes \<Rightarrow> ('r, 'k, 'p) gateway_state \<Rightarrow> ('r, 'k, 'p) gateway_state" where
  "forward body g = g\<lparr>gs_forwarded := gs_forwarded g @ [body]\<rparr>"

text \<open>Steps 3 and 4: forward the call, then record that it was permitted.\<close>

definition forward_call ::
  "('r, 'k, 'p) services \<Rightarrow> gateway_moment \<Rightarrow> policy_enforcer \<Rightarrow> string \<Rightarrow> string \<Rightarrow> json \<Rightarrow> bytes \<Rightarrow>
     ('r, 'k, 'p) gateway_state \<Rightarrow> gateway_result \<times> ('r, 'k, 'p) gateway_state" where
  "forward_call sv gm enforcer did tool_name args body g =
     (let g1 = forward body g in
      case gm_upstream gm of
        Inl e \<Rightarrow> (Inl (BAD_GATEWAY, e), g1)
      | Inr res_json \<Rightarrow>
          (Inr res_json, g1\<lparr>gs_server := log_record sv
             (gateway_record gm did tool_name (classify enforcer tool_name args) Permitted) (gs_server g1)\<rparr>))"

text \<open>Step B: compliance, with the agent's history from the action log.\<close>

definition check_compliance ::
  "('r, 'k, 'p) services \<Rightarrow> gateway_moment \<Rightarrow> policy_enforcer \<Rightarrow> privilege_ring \<Rightarrow> string \<Rightarrow> string \<Rightarrow>
     json \<Rightarrow> bytes \<Rightarrow> ('r, 'k, 'p) gateway_state \<Rightarrow> gateway_result \<times> ('r, 'k, 'p) gateway_state" where
  "check_compliance sv gm enforcer ring did tool_name args body g =
     (let category = classify enforcer tool_name args; st = gs_server g in
      case fal_load_history (sv_log_codec sv) (ss_action_log st) did of
        (Inl e, log) \<Rightarrow>
          (Inl (INTERNAL_SERVER_ERROR, e), g\<lparr>gs_server := st\<lparr>ss_action_log := log\<rparr>\<rparr>)
      | (Inr history, log) \<Rightarrow>
          let st1 = st\<lparr>ss_action_log := log\<rparr>;
              input = \<lparr>ci_agent_did = did, ci_agent_ring = ring, ci_agent_capabilities = [],
                ci_action = tool_name, ci_resource_category = category,
                ci_action_history = history, ci_jurisdiction = None\<rparr>
          in if \<not> is_compliant (gm_is_compliant gm) (ss_compliance_verifier st1) input
             then (Inl (FORBIDDEN, ''Compliance violation detected''),
                   g\<lparr>gs_server := log_denial sv gm did tool_name ''Compliance violation detected'' category st1\<rparr>)
             else forward_call sv gm enforcer did tool_name args body (g\<lparr>gs_server := st1\<rparr>))"

definition escalation_reason :: "string \<Rightarrow> privilege_ring \<Rightarrow> string" where
  "escalation_reason tool_name req_ring =
     ''Tool '' @ tool_name @ '' requires '' @ ring_display req_ring @ '' ring. Escalation triggered.''"

text \<open>Step A: the decision of a policy enforcer made for this request.\<close>

definition enforce_call ::
  "gateway_codec \<Rightarrow> ('r, 'k, 'p) services \<Rightarrow> gateway_moment \<Rightarrow> privilege_ring \<Rightarrow> string \<Rightarrow> string \<Rightarrow>
     json \<Rightarrow> bytes \<Rightarrow> ('r, 'k, 'p) gateway_state \<Rightarrow> gateway_result \<times> ('r, 'k, 'p) gateway_state" where
  "enforce_call G sv gm ring did tool_name args body g =
     (let enforcer = enforcer_new; st = gs_server g in
      case enforcer_evaluate (sv_policies sv) enforcer (ss_policy_store st) did ring tool_name args of
        (Deny reason, ps) \<Rightarrow>
          (Inl (FORBIDDEN, reason),
           g\<lparr>gs_server := log_denial sv gm did tool_name reason Unknown (st\<lparr>ss_policy_store := ps\<rparr>)\<rparr>)
      | (EscalateRequired req_ring, ps) \<Rightarrow>
          let reason = escalation_reason tool_name req_ring;
              req = \<lparr>er_agent_did = did, er_current_ring = ring, er_requested_ring = req_ring,
                er_reason = ''Auto-escalation for tool: '' @ tool_name, er_timestamp = gm_request gm\<rparr>
          in (case request_escalation (gm_request_id gm) req (ss_escalation_manager st) of
                (escalation_id, em) \<Rightarrow>
                  (Inl (ACCEPTED, gc_accepted_to_json G (uuid_str (sv_ext sv) escalation_id) reason),
                   g\<lparr>gs_server := log_denial sv gm did tool_name reason Unknown
                     (st\<lparr>ss_policy_store := ps, ss_escalation_manager := em\<rparr>)\<rparr>))
      | (Allow, ps) \<Rightarrow>
          check_compliance sv gm enforcer ring did tool_name args body
            (g\<lparr>gs_server := st\<lparr>ss_policy_store := ps\<rparr>\<rparr>))"

text \<open>\<open>payload.params.as_ref().and_then(|p| p.get(k))\<close>\<close>

definition param :: "json_rpc_request \<Rightarrow> string \<Rightarrow> json option" where
  "param payload k = Option.bind (jr_params payload) (\<lambda>p. json_get p k)"

text \<open>A call of a tool, step 2: agent, rate limit, then the checks above.\<close>

definition govern_call ::
  "gateway_codec \<Rightarrow> ('r, 'k, 'p) services \<Rightarrow> gateway_moment \<Rightarrow> string \<Rightarrow> json_rpc_request \<Rightarrow> bytes \<Rightarrow>
     ('r, 'k, 'p) gateway_state \<Rightarrow> gateway_result \<times> ('r, 'k, 'p) gateway_state" where
  "govern_call G sv gm did payload body g =
     (case Option.bind (param payload ''name'') json_as_str of
        None \<Rightarrow> (Inl (BAD_REQUEST, ''Missing tool name in tools/call''), g)
      | Some tool_name \<Rightarrow>
          let args = (case param payload ''arguments'' of None \<Rightarrow> Jnull | Some a \<Rightarrow> a);
              st = gs_server g
          in (case reg_get_ring (sv_registry sv) (ss_registry st) did of
                (Inl e, reg) \<Rightarrow>
                  (Inl (INTERNAL_SERVER_ERROR, e), g\<lparr>gs_server := st\<lparr>ss_registry := reg\<rparr>\<rparr>)
              | (Inr None, reg) \<Rightarrow>
                  (Inl (UNAUTHORIZED, agent_not_registered), g\<lparr>gs_server := st\<lparr>ss_registry := reg\<rparr>\<rparr>)
              | (Inr (Some ring), reg) \<Rightarrow>
                  let st1 = st\<lparr>ss_registry := reg\<rparr> in
                  (case ps_load (sv_policies sv) (ss_policy_store st1) did of
                     (Inl e, ps) \<Rightarrow>
                       (Inl (INTERNAL_SERVER_ERROR, e), g\<lparr>gs_server := st1\<lparr>ss_policy_store := ps\<rparr>\<rparr>)
                   | (Inr loaded, ps) \<Rightarrow>
                       let policy = (case loaded of None \<Rightarrow> mcp_policy_default | Some p \<Rightarrow> p);
                           g1 = g\<lparr>gs_server := st1\<lparr>ss_policy_store := ps\<rparr>\<rparr>
                       in (case rate_limit (sv_ext sv) (mp_max_requests_per_second policy) (gm_rate gm)
                                  did (gs_last_requests g1) of
                             (False, _) \<Rightarrow> (Inl (TOO_MANY_REQUESTS, ''Rate limit exceeded''), g1)
                           | (True, lr) \<Rightarrow>
                               enforce_call G sv gm ring did tool_name args body
                                 (g1\<lparr>gs_last_requests := lr\<rparr>)))))"

text \<open>Any other method is forwarded as it is, without a check or a record.\<close>

definition forward_other ::
  "gateway_moment \<Rightarrow> bytes \<Rightarrow> ('r, 'k, 'p) gateway_state \<Rightarrow>
     gateway_result \<times> ('r, 'k, 'p) gateway_state" where
  "forward_other gm body g =
     (case gm_upstream gm of
        Inl e \<Rightarrow> (Inl (BAD_GATEWAY, e), forward body g)
      | Inr res_json \<Rightarrow> (Inr res_json, forward body g))"

definition mcp_proxy_handler ::
  "gateway_codec \<Rightarrow> ('r, 'k, 'p) services \<Rightarrow> gateway_moment \<Rightarrow> headers \<Rightarrow> bytes \<Rightarrow>
     ('r, 'k, 'p) gateway_state \<Rightarrow> gateway_result \<times> ('r, 'k, 'p) gateway_state" where
  "mcp_proxy_handler G sv gm h body g =
     (case header_str h agent_did_header of
        None \<Rightarrow> (Inl (UNAUTHORIZED, ''Missing X-AGT-Agent-DID''), g)
      | Some did_str \<Rightarrow> (case header_str h signature_header of
          None \<Rightarrow> (Inl (UNAUTHORIZED, ''Missing X-AGT-Signature''), g)
        | Some signature_b64 \<Rightarrow> (case b64_decode (sv_ext sv) signature_b64 of
            Inl _ \<Rightarrow> (Inl (BAD_REQUEST, ''Invalid Base64 in signature''), g)
          | Inr signature \<Rightarrow>
              (case verify_request_signature (sv_ext sv) (sv_claims sv) (sv_registry sv) (gm_auth gm)
                      did_str signature body (ss_registry_pubkey (gs_server g)) (ss_registry (gs_server g)) of
                 (Inl e, reg) \<Rightarrow>
                   (Inl (UNAUTHORIZED, e), g\<lparr>gs_server := (gs_server g)\<lparr>ss_registry := reg\<rparr>\<rparr>)
               | (Inr _, reg) \<Rightarrow>
                   let g1 = g\<lparr>gs_server := (gs_server g)\<lparr>ss_registry := reg\<rparr>\<rparr> in
                   (case gc_request_of_json G body of
                      Inl e \<Rightarrow> (Inl (BAD_REQUEST, ''Invalid JSON: '' @ e), g1)
                    | Inr payload \<Rightarrow>
                        if jr_method payload = ''tools/call''
                        then govern_call G sv gm did_str payload body g1
                        else forward_other gm body g1)))))"

section \<open>The rate limiter\<close>

text \<open>
  Documented behaviour of \<open>chrono\<close>: differences of instants, and a second divided by a count,
  rounded towards zero.
\<close>

definition dur_ok :: "ext \<Rightarrow> bool" where
  "dur_ok X \<longleftrightarrow> (\<forall>a b. dt_diff X a b = a - b) \<and>
     (\<forall>n>0. dur_div X (secs 1) n = secs 1 div n) \<and> (\<forall>n<0. dur_div X (secs 1) n \<le> 0)"

text \<open>The calls that pass the limiter, of a sequence of calls of agents with fixed rates.\<close>

fun rate_passes ::
  "ext \<Rightarrow> (string \<Rightarrow> u32) \<Rightarrow> (string \<times> datetime) list \<Rightarrow> (string \<rightharpoonup> datetime) \<Rightarrow>
     (string \<times> datetime) list" where
  "rate_passes X rps [] lr = []"
| "rate_passes X rps ((did, now) # calls) lr =
     (case rate_limit X (rps did) now did lr of
        (ok, lr') \<Rightarrow> (if ok then [(did, now)] else []) @ rate_passes X rps calls lr')"

text \<open>Consecutive instants are at least \<open>w\<close> apart.\<close>

fun spaced :: "duration \<Rightarrow> datetime list \<Rightarrow> bool" where
  "spaced w (a # b # ts) \<longleftrightarrow> w \<le> b - a \<and> spaced w (b # ts)"
| "spaced w _ \<longleftrightarrow> True"

definition times_of :: "string \<Rightarrow> (string \<times> datetime) list \<Rightarrow> datetime list" where
  "times_of did calls = map snd (filter (\<lambda>c. fst c = did) calls)"

lemma times_of_simps [simp]:
  "times_of did [] = []"
  "times_of did ((d, t) # calls) = (if d = did then t # times_of did calls else times_of did calls)"
  by (simp_all add: times_of_def)

lemma rate_passes_spaced:
  assumes "dur_ok X"
  shows "spaced (rate_interval X (rps did))
    ((case lr did of None \<Rightarrow> [] | Some t \<Rightarrow> [t]) @ times_of did (rate_passes X rps calls lr))"
proof (induction calls arbitrary: lr)
  case Nil
  then show ?case by (simp split: option.splits)
next
  case (Cons c calls)
  obtain d now where c: "c = (d, now)" by (cases c)
  have diff: "dt_diff X a b = a - b" for a b using assms by (simp add: dur_ok_def)
  let ?lr = "lr(d \<mapsto> now)"
  have step: "rate_limit X (rps d) now d lr = (True, ?lr) \<and>
        (d = did \<longrightarrow> (\<forall>t. lr did = Some t \<longrightarrow> rate_interval X (rps did) \<le> now - t)) \<or>
      rate_limit X (rps d) now d lr = (False, lr)"
    by (auto simp: rate_limit_def diff split: option.splits)
  have upd: "?lr did = (if d = did then Some now else lr did)" by simp
  from step show ?case
    using Cons.IH [of lr] Cons.IH [of ?lr] unfolding c upd
    by (elim disjE) (auto simp del: fun_upd_apply split: option.splits)
qed

text \<open>The cast \<open>as i32\<close>.\<close>

lemma sint_u32:
  "sint (w :: u32) = (if uint w < 2147483648 then uint w else uint w - 4294967296)"
proof -
  have b: "uint w < 4294967296" "0 \<le> uint w" using uint_bounded [of w] by simp_all
  have "(uint w + 2147483648) mod 4294967296 - 2147483648 =
      (if uint w < 2147483648 then uint w else uint w - 4294967296)"
  proof (cases "uint w < 2147483648")
    case True
    with b show ?thesis by (simp add: mod_pos_pos_trivial)
  next
    case False
    have "(uint w + 2147483648) mod 4294967296 = (uint w - 2147483648) mod 4294967296"
      using mod_add_self2 [of "uint w - 2147483648" 4294967296] by (simp add: add.commute)
    with b False show ?thesis by (simp add: mod_pos_pos_trivial)
  qed
  then show ?thesis by (simp add: sint_uint signed_take_bit_eq_take_bit_shift take_bit_eq_mod)
qed

section \<open>What a governed call does\<close>

lemma enforcer_new_evaluate:
  "fst (enforcer_evaluate memory_policy_ops enforcer_new ps d ring name args) =
     (if \<not> mps_poisoned ps \<and> (\<exists>p. mps_policies ps d = Some p \<and> mp_allow_unknown_tools p)
      then Allow else Deny not_registered)"
  "snd (enforcer_evaluate memory_policy_ops enforcer_new ps d ring name args) = ps"
  by (auto simp: enforcer_evaluate_def enforcer_new_def mps_defs split: option.splits prod.splits sum.splits)

lemma classify_new [simp]: "classify enforcer_new name args = Unknown"
  by (simp add: classify_def enforcer_new_def)

lemma default_policy_unknown:
  "ci_resource_category i = Unknown \<Longrightarrow> is_compliant clk (default_policy X) i"
  by (simp add: is_compliant_def verifier_evaluate_default gdpr_data_export_rule_def
      sox_audit_immutability_rule_def is_violation_def)

lemma param_as_str: "Option.bind (param payload k) json_as_str = Some v \<longleftrightarrow> param payload k = Some (Jstr v)"
  by (cases "param payload k") (auto elim: json_as_str.elims)

text \<open>The verdict on a call of a tool, as the code comes to it: the registry, then the
  limiter, then the policy's flag for unknown tools.\<close>

datatype verdict = No_tool | Unregistered | Limited | Refused | Forwarded

definition verdict_of ::
  "ext \<Rightarrow> gateway_moment \<Rightarrow> string \<Rightarrow> json_rpc_request \<Rightarrow> (string \<rightharpoonup> mcp_policy) \<Rightarrow> bool \<Rightarrow>
     (string \<rightharpoonup> datetime) \<Rightarrow> verdict" where
  "verdict_of X gm did payload policies registered lr =
     (if \<not> (\<exists>name. param payload ''name'' = Some (Jstr name)) then No_tool
      else if \<not> registered then Unregistered
      else if \<not> fst (rate_limit X (mp_max_requests_per_second
             (case policies did of None \<Rightarrow> mcp_policy_default | Some p \<Rightarrow> p)) (gm_rate gm) did lr) then Limited
      else if \<exists>p. policies did = Some p \<and> mp_allow_unknown_tools p then Forwarded else Refused)"

definition status_of :: "gateway_result \<Rightarrow> nat" where
  "status_of r = (case r of Inl (code, _) \<Rightarrow> code | Inr _ \<Rightarrow> OK)"

text \<open>Server states that differ in the registry and the action log only in name.\<close>

lemma server_state_selfs [simp]:
  "st\<lparr>ss_policy_store := ss_policy_store st\<rparr> = st" "st\<lparr>ss_action_log := ss_action_log st\<rparr> = st"
  by (cases st; simp)+

lemma gateway_state_self [simp]: "g\<lparr>gs_server := gs_server g\<rparr> = g"
  by (cases g) simp

lemma enforce_call_new:
  assumes "sv_policies sv = memory_policy_ops" "\<not> mps_poisoned (ss_policy_store (gs_server g))"
  shows "enforce_call G sv gm ring did name args body g =
    (if \<exists>p. mps_policies (ss_policy_store (gs_server g)) did = Some p \<and> mp_allow_unknown_tools p
     then check_compliance sv gm enforcer_new ring did name args body g
     else (Inl (FORBIDDEN, not_registered),
       g\<lparr>gs_server := log_denial sv gm did name not_registered Unknown (gs_server g)\<rparr>))"
  using assms
  by (auto simp: enforce_call_def Let_def enforcer_evaluate_def enforcer_new_def mps_defs split: option.splits)

lemma check_compliance_new:
  assumes "ss_compliance_verifier (gs_server g) = default_policy X"
    and "fal_holds (sv_log_codec sv) rs (ss_action_log (gs_server g))"
  shows "check_compliance sv gm enforcer_new ring did name args body g =
    forward_call sv gm enforcer_new did name args body g"
  using fal_holds_reads(2) [OF assms(2), of did] assms(1)
  by (simp add: check_compliance_def Let_def default_policy_unknown)

lemma forward_call_new:
  "forward_call sv gm enforcer_new did name args body g =
     (case gm_upstream gm of
        Inl e \<Rightarrow> (Inl (BAD_GATEWAY, e), g\<lparr>gs_forwarded := gs_forwarded g @ [body]\<rparr>)
      | Inr j \<Rightarrow> (Inr j, g\<lparr>gs_forwarded := gs_forwarded g @ [body],
          gs_server := log_record sv (gateway_record gm did name Unknown Permitted) (gs_server g)\<rparr>))"
  by (simp add: forward_call_def forward_def Let_def split: sum.splits)

context agent_registry
begin

lemma govern_call_verdict:
  assumes "usable (ss_registry (gs_server g))" "sv_ext sv = X" "sv_registry sv = R"
    and "sv_policies sv = memory_policy_ops" "\<not> mps_poisoned (ss_policy_store (gs_server g))"
    and "ss_compliance_verifier (gs_server g) = default_policy X"
    and "fal_holds (sv_log_codec sv) rs (ss_action_log (gs_server g))"
    and "v = verdict_of X gm did payload (mps_policies (ss_policy_store (gs_server g)))
      (entries (ss_registry (gs_server g)) did \<noteq> None) (gs_last_requests g)"
    and "govern_call G sv gm did payload body g = (r, g')"
  shows "case v of
      No_tool \<Rightarrow> status_of r = BAD_REQUEST \<and> g' = g
    | Unregistered \<Rightarrow> status_of r = UNAUTHORIZED \<and> g' = g
    | Limited \<Rightarrow> status_of r = TOO_MANY_REQUESTS \<and> g' = g
    | Refused \<Rightarrow> r = Inl (FORBIDDEN, not_registered) \<and> (\<exists>name. param payload ''name'' = Some (Jstr name) \<and>
        g' = g\<lparr>gs_last_requests := (gs_last_requests g)(did \<mapsto> gm_rate gm),
          gs_server := log_denial sv gm did name not_registered Unknown (gs_server g)\<rparr>)
    | Forwarded \<Rightarrow> (\<exists>name. param payload ''name'' = Some (Jstr name) \<and>
        (case gm_upstream gm of
           Inl e \<Rightarrow> r = Inl (BAD_GATEWAY, e) \<and>
             g' = g\<lparr>gs_last_requests := (gs_last_requests g)(did \<mapsto> gm_rate gm),
               gs_forwarded := gs_forwarded g @ [body]\<rparr>
         | Inr j \<Rightarrow> r = Inr j \<and>
             g' = g\<lparr>gs_last_requests := (gs_last_requests g)(did \<mapsto> gm_rate gm),
               gs_forwarded := gs_forwarded g @ [body],
               gs_server := log_record sv (gateway_record gm did name Unknown Permitted) (gs_server g)\<rparr>))"
proof -
  let ?st = "gs_server g"
  let ?rps = "mp_max_requests_per_second
    (case mps_policies (ss_policy_store ?st) did of None \<Rightarrow> mcp_policy_default | Some p \<Rightarrow> p)"
  have load: "ps_load memory_policy_ops (ss_policy_store ?st) did =
      (Inr (mps_policies (ss_policy_store ?st) did), ss_policy_store ?st)"
    using assms(5) by (simp add: mps_defs)
  have ring: "reg_get_ring R (ss_registry ?st) did =
      (Inr (map_option snd (entries (ss_registry ?st) did)), ss_registry ?st)"
    by (rule get_ring [OF assms(1)])
  show ?thesis
  proof (cases "Option.bind (param payload ''name'') json_as_str")
    case None
    then have "\<not> (\<exists>name. param payload ''name'' = Some (Jstr name))" by auto
    then have "v = No_tool" using assms(8) by (simp add: verdict_of_def)
    with None assms(9) show ?thesis by (auto simp: govern_call_def status_of_def)
  next
    case (Some name)
    then have nm: "param payload ''name'' = Some (Jstr name)" by (simp add: param_as_str)
    let ?lr = "(gs_last_requests g)(did \<mapsto> gm_rate gm)" and ?args = "case param payload ''arguments'' of None \<Rightarrow> Jnull | Some a \<Rightarrow> a"
    have limit: "rate_limit X ?rps (gm_rate gm) did (gs_last_requests g) = (True, ?lr) \<or>
        rate_limit X ?rps (gm_rate gm) did (gs_last_requests g) = (False, gs_last_requests g)"
      by (auto simp: rate_limit_def split: option.splits)
    have "govern_call G sv gm did payload body g =
      (case entries (ss_registry ?st) did of
         None \<Rightarrow> (Inl (UNAUTHORIZED, agent_not_registered), g)
       | Some e \<Rightarrow>
           if fst (rate_limit X ?rps (gm_rate gm) did (gs_last_requests g))
           then enforce_call G sv gm (snd e) did name ?args body (g\<lparr>gs_last_requests := ?lr\<rparr>)
           else (Inl (TOO_MANY_REQUESTS, ''Rate limit exceeded''), g))"
      using limit Some ring load assms(2-4)
      by (auto simp: govern_call_def Let_def split: option.splits)
    with nm assms(2-9) show ?thesis
      by (auto simp: verdict_of_def enforce_call_new check_compliance_new forward_call_new status_of_def
          split: option.splits if_splits sum.splits)
  qed
qed

end

lemma log_record_synced:
  assumes "fal_synced X L rs (ss_action_log st)" "cps_ok X L" "writable X L [rec]"
    and "sv_ext sv = X" "sv_log_codec sv = L"
  shows "fal_synced X L (rs @ seal X L (chain_end X L genesis rs) [rec]) (ss_action_log (log_record sv rec st))"
proof -
  have "fal_last_hash (ss_action_log st) = chain_end X L genesis rs" using assms(1) by (simp add: fal_synced_defs)
  moreover have "log_json_ok L (rec\<lparr>al_prev_hash := fal_last_hash (ss_action_log st)\<rparr>)"
    using assms(3) fal_synced_link [OF assms(1)] unfolding writable_def by (meson list.set_intros(1))
  from fal_append_synced [OF assms(1) this assms(2)] obtain log where
    "fal_append X L (ss_action_log st) rec = (Inr (), log)"
    "fal_synced X L (rs @ [rec\<lparr>al_prev_hash := fal_last_hash (ss_action_log st)\<rparr>]) log" by blast
  ultimately show ?thesis using assms(4,5) by (simp add: log_record_def)
qed

section \<open>Properties\<close>

text \<open>
  C20: the enforcer made for each request knows no tools, so a call of a tool is forwarded
  exactly when it names a tool, the agent is registered, its rate allows it and its policy
  allows unknown tools. The agent's ring, the denylist, the allowlist, the arguments and the
  compliance rules play no part, and no escalation is ever requested.
\<close>

theorem forwarded_iff_unknown_tools_allowed:
  assumes "sv_registry sv = file_registry_ops (sv_ext sv) (sv_claims sv) C"
    and "fr_usable C (ss_registry (gs_server g))"
    and "sv_policies sv = memory_policy_ops" and "\<not> mps_poisoned (ss_policy_store (gs_server g))"
    and "ss_compliance_verifier (gs_server g) = default_policy (sv_ext sv)"
    and "fal_holds (sv_log_codec sv) rs (ss_action_log (gs_server g))"
    and "govern_call G sv gm did payload body g = (r, g')"
  shows "gs_forwarded g' = gs_forwarded g @
      (if (\<exists>name. param payload ''name'' = Some (Jstr name)) \<and>
          mr_entries (fr_memory (ss_registry (gs_server g))) did \<noteq> None \<and>
          (\<exists>p. mps_policies (ss_policy_store (gs_server g)) did = Some p \<and> mp_allow_unknown_tools p \<and>
             fst (rate_limit (sv_ext sv) (mp_max_requests_per_second p) (gm_rate gm) did (gs_last_requests g)))
       then [body] else []) \<and>
    ss_escalation_manager (gs_server g') = ss_escalation_manager (gs_server g)"
  using fr.govern_call_verdict [OF assms(2) refl assms(1,3,4,5,6) refl assms(7)]
  by (auto simp: verdict_of_def log_denial_def log_record_def split: if_splits option.splits sum.splits)

text \<open>
  C21: the trail of governed calls, on a log in good order: a call whose answer is returned
  leaves one record that it was permitted, a call the policy refuses one record of the denial
  with the reason returned; nothing else is recorded, in particular not a call that was
  forwarded but whose answer could not be read.
\<close>

theorem governed_calls_are_recorded:
  assumes "sv_registry sv = file_registry_ops (sv_ext sv) (sv_claims sv) C"
    and "fr_usable C (ss_registry (gs_server g))"
    and "sv_policies sv = memory_policy_ops" and "\<not> mps_poisoned (ss_policy_store (gs_server g))"
    and "ss_compliance_verifier (gs_server g) = default_policy (sv_ext sv)"
    and "fal_synced (sv_ext sv) (sv_log_codec sv) rs (ss_action_log (gs_server g))"
    and "cps_ok (sv_ext sv) (sv_log_codec sv)"
    and "param payload ''name'' = Some (Jstr name)"
    and "\<forall>out. writable (sv_ext sv) (sv_log_codec sv) [gateway_record gm did name Unknown out]"
    and "govern_call G sv gm did payload body g = (r, g')"
  shows "fal_synced (sv_ext sv) (sv_log_codec sv)
    (rs @ seal (sv_ext sv) (sv_log_codec sv) (chain_end (sv_ext sv) (sv_log_codec sv) genesis rs)
      (case r of
         Inr _ \<Rightarrow> [gateway_record gm did name Unknown Permitted]
       | Inl (code, msg) \<Rightarrow>
           if code = FORBIDDEN then [gateway_record gm did name Unknown (Denied ''Governance'' msg)] else []))
    (ss_action_log (gs_server g'))"
proof -
  let ?X = "sv_ext sv" and ?L = "sv_log_codec sv"
  have holds: "fal_holds ?L rs (ss_action_log (gs_server g))" using assms(6) by (simp add: fal_synced_defs)
  have logged: "fal_synced ?X ?L (rs @ seal ?X ?L (chain_end ?X ?L genesis rs) [gateway_record gm did name Unknown out])
      (ss_action_log (log_record sv (gateway_record gm did name Unknown out) (gs_server g)))" for out
    by (rule log_record_synced [OF assms(6,7) spec [OF assms(9)] refl refl])
  let ?v = "verdict_of ?X gm did payload (mps_policies (ss_policy_store (gs_server g)))
    (mr_entries (fr_memory (ss_registry (gs_server g))) did \<noteq> None) (gs_last_requests g)"
  have "case ?v of No_tool \<Rightarrow> False | Refused \<Rightarrow> r = Inl (FORBIDDEN, not_registered) \<and> ss_action_log (gs_server g') =
        ss_action_log (log_record sv (gateway_record gm did name Unknown (Denied ''Governance'' not_registered)) (gs_server g))
    | Forwarded \<Rightarrow> (case r of Inr _ \<Rightarrow> ss_action_log (gs_server g') =
        ss_action_log (log_record sv (gateway_record gm did name Unknown Permitted) (gs_server g))
      | Inl (code, msg) \<Rightarrow> code \<noteq> FORBIDDEN \<and> ss_action_log (gs_server g') = ss_action_log (gs_server g))
    | _ \<Rightarrow> (case r of Inr _ \<Rightarrow> False
      | Inl (code, msg) \<Rightarrow> code \<noteq> FORBIDDEN \<and> ss_action_log (gs_server g') = ss_action_log (gs_server g))"
    using fr.govern_call_verdict [OF assms(2) refl assms(1,3,4,5) holds refl assms(10)] assms(8)
    by (cases ?v) (auto simp: verdict_of_def log_denial_def status_of_def split: if_splits sum.splits)
  then show ?thesis using logged assms(6)
    by (cases ?v) (auto split: sum.splits)
qed

text \<open>
  C22: for every agent the calls that pass the limiter are at least a second divided by the
  agent's rate apart, whatever calls of other agents come in between; a rate of 0 counts as 1.
  A rate of \<open>2 ^ 31\<close> or more is read as a negative number and, as long as the clock does not
  go back, limits nothing.
\<close>

theorem rate_limited:
  assumes "dur_ok X"
  shows "(rps did < 2147483648 \<longrightarrow>
      spaced (secs 1 div max 1 (uint (rps did))) (times_of did (rate_passes X rps calls Map.empty))) \<and>
    (2147483648 \<le> rps did \<longrightarrow> (\<forall>last_at\<le>now. lr did = Some last_at \<longrightarrow> fst (rate_limit X (rps did) now did lr)))"
proof (intro conjI impI allI)
  assume small: "rps did < 2147483648"
  have "sint (max (rps did) 1) = uint (max (rps did) 1)"
    using small by (simp add: sint_u32 max_def word_less_def word_le_def)
  also have "\<dots> = max 1 (uint (rps did))" by (simp add: max_def word_le_def)
  finally have "rate_interval X (rps did) = secs 1 div max 1 (uint (rps did))"
    using assms by (simp add: rate_interval_def dur_ok_def)
  with rate_passes_spaced [OF assms, of rps did "Map.empty" calls]
  show "spaced (secs 1 div max 1 (uint (rps did))) (times_of did (rate_passes X rps calls Map.empty))" by simp
next
  fix last_at
  assume big: "2147483648 \<le> rps did" and last: "last_at \<le> now" "lr did = Some last_at"
  have "sint (max (rps did) 1) < 0"
    using big uint_bounded [of "rps did"] by (simp add: sint_u32 max_def word_le_def)
  then have "rate_interval X (rps did) \<le> 0" using assms by (simp add: rate_interval_def dur_ok_def)
  with last show "fst (rate_limit X (rps did) now did lr)"
    using assms by (auto simp: rate_limit_def dur_ok_def)
qed

text \<open>
  A gateway whose registry in memory is empty, and the command that starts one gives it
  such a registry and no way to register, answers every request with 400 or 401 and forwards
  nothing.
\<close>

theorem empty_gateway_refuses_all:
  assumes "sv_registry sv = memory_registry_ops (sv_ext sv) (sv_claims sv)"
    and "\<not> mr_poisoned (ss_registry (gs_server g))" and "mr_entries (ss_registry (gs_server g)) = Map.empty"
    and "mcp_proxy_handler G sv gm h body g = (r, g')"
  shows "status_of r \<in> {BAD_REQUEST, UNAUTHORIZED} \<and> g' = g"
proof -
  have "verify_request_signature (sv_ext sv) (sv_claims sv) (sv_registry sv) t did sig body pub (ss_registry (gs_server g))
      = (Inl agent_not_registered, ss_registry (gs_server g))" for t did sig pub
    unfolding assms(1) by (rule mr.unregistered_not_authenticated [OF assms(2)]) (simp add: assms(3))
  then show ?thesis using assms(4)
    by (auto simp: mcp_proxy_handler_def status_of_def split: option.splits sum.splits)
qed

section \<open>Concrete inputs\<close>

definition sample_gateway_moment :: "json res \<Rightarrow> gateway_moment" where
  "sample_gateway_moment up = \<lparr>gm_auth = ((0, 0), 5), gm_rate = 5, gm_request = 5, gm_record = 0,
     gm_request_id = 1, gm_record_id = 0, gm_is_compliant = (\<lambda>_. 5), gm_upstream = up\<rparr>"

definition sample_call :: json_rpc_request where
  "sample_call = \<lparr>jr_jsonrpc = ''2.0'', jr_method = ''tools/call'',
     jr_params = Some (Jobj [(''name'', Jstr ''discovery_alert'')]), jr_id = None\<rparr>"

definition sample_gateway_codec :: gateway_codec where
  "sample_gateway_codec = \<lparr>gc_request_of_json = \<lambda>_. Inr sample_call, gc_accepted_to_json = \<lambda>_ _. []\<rparr>"

definition open_policy :: mcp_policy where
  "open_policy = \<lparr>mp_allowed_tools = [], mp_denylist = [''discovery_alert''],
     mp_allow_unknown_tools = True, mp_max_requests_per_second = 10\<rparr>"

definition gateway_registry :: file_registry where
  "gateway_registry = \<lparr>fr_path = ''reg'', fr_memory = (mr_new ''rk'' ''did:mesh:registry'')
      \<lparr>mr_entries := [''did:mesh:b'' \<mapsto> (pad32 ''k'', Sandboxed)]\<rparr>,
    fr_fs = \<lparr>files = Map.empty, script = []\<rparr>\<rparr>"

definition sample_gateway ::
  "file_action_log \<Rightarrow> (file_registry, memory_key_store, memory_policy_store) gateway_state" where
  "sample_gateway log = gateway_new ((sample_server log_ext gateway_registry log)
     \<lparr>ss_policy_store := \<lparr>mps_policies = [''did:mesh:b'' \<mapsto> open_policy], mps_poisoned = False\<rparr>\<rparr>) ''http://up''"

lemma sample_gateway_facts:
  "sv_registry exec_services = file_registry_ops (sv_ext exec_services) (sv_claims exec_services) sample_codec"
  "fr_usable sample_codec (ss_registry (gs_server (sample_gateway log)))"
  "sv_policies exec_services = memory_policy_ops"
  "\<not> mps_poisoned (ss_policy_store (gs_server (sample_gateway log)))"
  "ss_compliance_verifier (gs_server (sample_gateway log)) = default_policy (sv_ext exec_services)"
  "ss_action_log (gs_server (sample_gateway log)) = log"
  "param sample_call ''name'' = Some (Jstr ''discovery_alert'')"
  by (simp_all add: exec_services_def sample_services_def sample_gateway_def gateway_new_def sample_server_def
      gateway_registry_def fr_usable_def mr_new_def sample_codec_def param_def sample_call_def)

theorem forwarded_iff_unknown_tools_allowed_witness:
  "\<exists>log r g'. govern_call sample_gateway_codec exec_services (sample_gateway_moment (Inr Jnull)) ''did:mesh:b''
      sample_call ''body'' (sample_gateway log) = (r, g') \<and> gs_forwarded g' = [''body'']"
proof -
  obtain log where log: "fal_synced log_ext exec_codec [] log" using exec_synced by blast
  then have holds: "fal_holds (sv_log_codec exec_services) [] (ss_action_log (gs_server (sample_gateway log)))"
    by (simp add: sample_gateway_facts fal_synced_defs exec_facts)
  obtain r g' where c: "govern_call sample_gateway_codec exec_services (sample_gateway_moment (Inr Jnull))
      ''did:mesh:b'' sample_call ''body'' (sample_gateway log) = (r, g')" by fastforce
  from forwarded_iff_unknown_tools_allowed [OF sample_gateway_facts(1-5) holds c]
  have "gs_forwarded g' = [''body'']"
    by (simp add: sample_gateway_facts(7)) (simp add: sample_gateway_def gateway_new_def sample_server_def
      gateway_registry_def mr_new_def open_policy_def rate_limit_def)
  with c show ?thesis by blast
qed

theorem governed_calls_are_recorded_witness:
  "\<exists>log r g' rec. govern_call sample_gateway_codec exec_services (sample_gateway_moment (Inr Jnull)) ''did:mesh:b''
      sample_call ''body'' (sample_gateway log) = (r, g') \<and>
    fal_synced log_ext exec_codec [rec\<lparr>al_prev_hash := genesis\<rparr>] (ss_action_log (gs_server g'))"
proof -
  obtain log where log: "fal_synced log_ext exec_codec [] log" using exec_synced by blast
  let ?gm = "sample_gateway_moment (Inr Jnull)"
  have sy: "fal_synced (sv_ext exec_services) (sv_log_codec exec_services) []
      (ss_action_log (gs_server (sample_gateway log)))" using log by (simp add: sample_gateway_facts exec_facts)
  have cp: "cps_ok (sv_ext exec_services) (sv_log_codec exec_services)" using exec_cps_ok by (simp add: exec_facts)
  have "gateway_record ?gm ''did:mesh:b'' ''discovery_alert'' Unknown out\<lparr>al_prev_hash := h\<rparr> =
      (base_record (CHR ''s''))\<lparr>al_outcome := out, al_prev_hash := h\<rparr>" for out h
    by (simp add: gateway_record_def base_record_def shadow_record_def sample_gateway_moment_def
        sample_agent_def did_display_def)
  then have w: "\<forall>out. writable (sv_ext exec_services) (sv_log_codec exec_services)
      [gateway_record ?gm ''did:mesh:b'' ''discovery_alert'' Unknown out]"
    using exec_json_ok [of "CHR ''s''"] by (simp add: writable_def exec_facts)
  obtain r g' where c: "govern_call sample_gateway_codec exec_services ?gm
      ''did:mesh:b'' sample_call ''body'' (sample_gateway log) = (r, g')" by fastforce
  have r: "r = Inr Jnull"
    using fr.govern_call_verdict [OF sample_gateway_facts(2) refl sample_gateway_facts(1,3,4,5) _ refl c, of "[]"]
      log
    by (auto simp: verdict_of_def sample_gateway_facts(6,7) fal_synced_defs exec_facts(2) split: if_splits)
      (auto simp: sample_gateway_def gateway_new_def sample_server_def sample_gateway_moment_def
        gateway_registry_def mr_new_def open_policy_def rate_limit_def)
  from governed_calls_are_recorded [OF sample_gateway_facts(1-5) sy cp sample_gateway_facts(7) w c] c
  show ?thesis unfolding r by (auto simp: exec_facts(1,2))
qed

lemma dur_ok_toy: "dur_ok toy_ext"
proof -
  have "secs 1 div n \<le> 0" if "n < 0" for n :: int using that by (simp add: div_nonneg_neg_le0)
  then show ?thesis by (simp add: dur_ok_def toy_ext_def)
qed

theorem rate_limited_witness:
  "spaced 100000000 (times_of ''a'' (rate_passes toy_ext (\<lambda>_. 10) [(''a'', 0), (''b'', 1), (''a'', 2)] Map.empty))"
  using rate_limited [OF dur_ok_toy, of "\<lambda>_. 10" "''a''" "[(''a'', 0), (''b'', 1), (''a'', 2)]" 0 Map.empty]
  by simp

theorem empty_gateway_refuses_all_witness:
  "\<exists>r g'. mcp_proxy_handler sample_gateway_codec (sample_services toy_ext (memory_registry_ops toy_ext ac_subject_did))
      (sample_gateway_moment (Inr Jnull)) (sample_headers ''did:mesh:a'' ''sig'') ''body''
      (gateway_new (sample_server toy_ext (mr_new ''rk'' ''did:mesh:registry'') (log_holding [])) ''http://up'') =
      (r, g') \<and> gs_forwarded g' = []"
proof -
  let ?sv = "sample_services toy_ext (memory_registry_ops toy_ext ac_subject_did)"
  let ?g = "gateway_new (sample_server toy_ext (mr_new ''rk'' ''did:mesh:registry'') (log_holding [])) ''http://up''"
  obtain r g' where c: "mcp_proxy_handler sample_gateway_codec ?sv (sample_gateway_moment (Inr Jnull))
      (sample_headers ''did:mesh:a'' ''sig'') ''body'' ?g = (r, g')" by fastforce
  have "sv_registry ?sv = memory_registry_ops (sv_ext ?sv) (sv_claims ?sv)"
    "\<not> mr_poisoned (ss_registry (gs_server ?g))" "mr_entries (ss_registry (gs_server ?g)) = Map.empty"
    by (simp_all add: sample_services_def gateway_new_def sample_server_def mr_new_def)
  from empty_gateway_refuses_all [OF this c] c show ?thesis by (auto simp: gateway_new_def)
qed

end
