(* ===== verification/Credentials.thy ===== *)
theory Credentials
  imports Externals
begin

text \<open>
  Access tokens, \<open>crates/core/mesh/src/identity/credentials.rs\<close>: a credential stores the
  hash of a random token with a lifetime, a manager issues, validates and revokes them.
  The states a manager can reach from \<open>new\<close> are an inductive predicate. The manager's lock
  is only taken by these operations, none of which panics while it holds it.
\<close>

section \<open>Credentials\<close>

datatype credential_status = Active | Rotated | Revoked | Expired_status

record credential =
  cr_credential_id :: string
  cr_agent_did :: string
  cr_token_hash :: string
  cr_capabilities :: "string list"
  cr_resources :: "string list"
  cr_expires_at :: datetime
  cr_status :: credential_status

text \<open>
  What a call of \<open>issue\<close> draws: 32 random bytes, a UUID and the time. \<open>url_encode\<close> is
  \<open>general_purpose::URL_SAFE_NO_PAD.encode\<close>. \<open>Duration::seconds\<close> panics, \<open>None\<close>, when the
  milliseconds overflow an \<open>i64\<close>, and adding to a \<open>DateTime\<close> when the result is not in the
  years -262143 to 262142 of \<open>chrono\<close>; both happen before the manager takes its lock.
\<close>

record issue_draw =
  id_token_bytes :: bytes
  id_uuid :: uuid
  id_now :: datetime

definition duration_seconds :: "int \<Rightarrow> duration option" where
  "duration_seconds n =
     (if \<bar>n\<bar> \<le> 9223372036854775807 div 1000 then Some (secs n) else None)"

definition representable :: "datetime \<Rightarrow> bool" where
  "representable t \<longleftrightarrow> secs (- 8334601228800) \<le> t \<and> t < secs 8210266876800"

definition credential_issue ::
  "ext \<Rightarrow> (bytes \<Rightarrow> string) \<Rightarrow> issue_draw \<Rightarrow> string \<Rightarrow> string list \<Rightarrow> string list \<Rightarrow> int \<Rightarrow>
     (credential \<times> string) option" where
  "credential_issue X url_encode dr agent_did capabilities resources ttl_seconds =
     (let token = url_encode (id_token_bytes dr) in
      case duration_seconds ttl_seconds of
        None \<Rightarrow> None
      | Some ttl \<Rightarrow>
          let expires_at = dt_add X (id_now dr) ttl in
          if \<not> representable expires_at then None
          else Some
            (\<lparr>cr_credential_id = ''cred_'' @ uuid_simple X (id_uuid dr), cr_agent_did = agent_did,
              cr_token_hash = sha256_hex X token, cr_capabilities = capabilities,
              cr_resources = resources, cr_expires_at = expires_at, cr_status = Active\<rparr>, token))"

definition is_valid :: "datetime \<Rightarrow> credential \<Rightarrow> bool" where
  "is_valid now c \<longleftrightarrow> cr_status c = Active \<and> now < cr_expires_at c"

definition verify_token :: "ext \<Rightarrow> credential \<Rightarrow> string \<Rightarrow> bool" where
  "verify_token X c token \<longleftrightarrow> cr_token_hash c = sha256_hex X token"

definition credential_revoke :: "credential \<Rightarrow> credential" where
  "credential_revoke c = c\<lparr>cr_status := Revoked\<rparr>"

section \<open>The manager\<close>

record credential_manager =
  cm_default_ttl :: int
  cm_credentials :: "string \<rightharpoonup> credential"

definition cm_new :: "int \<Rightarrow> credential_manager" where
  "cm_new default_ttl = \<lparr>cm_default_ttl = default_ttl, cm_credentials = Map.empty\<rparr>"

definition cm_issue ::
  "ext \<Rightarrow> (bytes \<Rightarrow> string) \<Rightarrow> issue_draw \<Rightarrow> string \<Rightarrow> string list \<Rightarrow> string list \<Rightarrow> credential_manager \<Rightarrow>
     (credential \<times> string) option \<times> credential_manager" where
  "cm_issue X url_encode dr agent_did capabilities resources m =
     (case credential_issue X url_encode dr agent_did capabilities resources (cm_default_ttl m) of
        None \<Rightarrow> (None, m)
      | Some (cred, token) \<Rightarrow>
          (Some (cred, token),
           m\<lparr>cm_credentials := (cm_credentials m)(cr_credential_id cred \<mapsto> cred)\<rparr>))"

text \<open>
  \<open>validate\<close> takes the first credential that fits in the order of the hash map, \<open>order\<close>;
  \<open>now\<close> gives the clock's reading at the check of each credential.
\<close>

fun validate_from ::
  "ext \<Rightarrow> (string \<Rightarrow> datetime) \<Rightarrow> string list \<Rightarrow> (string \<rightharpoonup> credential) \<Rightarrow> string \<Rightarrow> credential option" where
  "validate_from X now [] m token = None"
| "validate_from X now (k # ks) m token = (case m k of
       None \<Rightarrow> validate_from X now ks m token
     | Some cred \<Rightarrow>
         if verify_token X cred token \<and> is_valid (now k) cred then Some cred
         else validate_from X now ks m token)"

definition cm_validate ::
  "ext \<Rightarrow> (string \<Rightarrow> datetime) \<Rightarrow> string list \<Rightarrow> credential_manager \<Rightarrow> string \<Rightarrow> credential option" where
  "cm_validate X now order m token = validate_from X now order (cm_credentials m) token"

definition cm_revoke :: "string \<Rightarrow> credential_manager \<Rightarrow> bool \<times> credential_manager" where
  "cm_revoke credential_id m = (case cm_credentials m credential_id of
       Some cred \<Rightarrow>
         (True, m\<lparr>cm_credentials := (cm_credentials m)(credential_id \<mapsto> credential_revoke cred)\<rparr>)
     | None \<Rightarrow> (False, m))"

lemmas credential_defs = credential_issue_def cm_issue_def cm_revoke_def credential_revoke_def
  is_valid_def verify_token_def

section \<open>Histories\<close>

text \<open>
  The calls that change a manager, and what a history of them leaves. \<open>None\<close>: a call
  panicked.
\<close>

datatype credential_call =
    Issue issue_draw string "string list" "string list"
  | Revoke string

fun cm_call :: "ext \<Rightarrow> (bytes \<Rightarrow> string) \<Rightarrow> credential_call \<Rightarrow> credential_manager \<Rightarrow> credential_manager" where
  "cm_call X enc (Issue dr did caps ress) m = snd (cm_issue X enc dr did caps ress m)"
| "cm_call X enc (Revoke i) m = snd (cm_revoke i m)"

definition cm_run ::
  "ext \<Rightarrow> (bytes \<Rightarrow> string) \<Rightarrow> credential_call list \<Rightarrow> credential_manager \<Rightarrow> credential_manager" where
  "cm_run X enc cs m = fold (cm_call X enc) cs m"

text \<open>The identifiers and tokens a history draws.\<close>

fun call_id :: "ext \<Rightarrow> credential_call \<Rightarrow> string option" where
  "call_id X (Issue dr _ _ _) = Some (''cred_'' @ uuid_simple X (id_uuid dr))"
| "call_id X (Revoke _) = None"

fun call_token :: "(bytes \<Rightarrow> string) \<Rightarrow> credential_call \<Rightarrow> string option" where
  "call_token enc (Issue dr _ _ _) = Some (enc (id_token_bytes dr))"
| "call_token enc (Revoke _) = None"

definition issued_credential ::
  "ext \<Rightarrow> (bytes \<Rightarrow> string) \<Rightarrow> duration \<Rightarrow> issue_draw \<Rightarrow> string \<Rightarrow> string list \<Rightarrow> string list \<Rightarrow> credential" where
  "issued_credential X enc ttl dr did caps ress =
     \<lparr>cr_credential_id = ''cred_'' @ uuid_simple X (id_uuid dr), cr_agent_did = did,
      cr_token_hash = sha256_hex X (enc (id_token_bytes dr)), cr_capabilities = caps,
      cr_resources = ress, cr_expires_at = dt_add X (id_now dr) ttl, cr_status = Active\<rparr>"

lemma credential_issue_eq:
  "duration_seconds n = Some ttl \<Longrightarrow>
   credential_issue X enc dr did caps ress n =
     (if representable (dt_add X (id_now dr) ttl)
      then Some (issued_credential X enc ttl dr did caps ress, enc (id_token_bytes dr)) else None)"
  by (simp add: credential_issue_def issued_credential_def Let_def)

lemma issued_credential_simps [simp]:
  "cr_credential_id (issued_credential X enc ttl dr did caps ress) = ''cred_'' @ uuid_simple X (id_uuid dr)"
  "cr_token_hash (issued_credential X enc ttl dr did caps ress) = sha256_hex X (enc (id_token_bytes dr))"
  "cr_status (issued_credential X enc ttl dr did caps ress) = Active"
  "cr_expires_at (issued_credential X enc ttl dr did caps ress) = dt_add X (id_now dr) ttl"
  by (simp_all add: issued_credential_def)

lemma snoc_eq_split:
  "cs @ [x] = pre @ y # post \<longleftrightarrow>
     post = [] \<and> x = y \<and> cs = pre \<or> (\<exists>post'. post = post' @ [x] \<and> cs = pre @ y # post')"
  by (cases post rule: rev_cases) auto

text \<open>In a list without repeated values of \<open>f\<close>, a value has one position.\<close>

lemma distinct_position:
  assumes "distinct (List.map_filter f cs)" "cs = pre @ x # post" "cs = pre' @ y # post'"
    and "f x = Some v" "f y = Some v"
  shows "pre = pre' \<and> x = y \<and> post = post'"
  using assms
proof (induction cs arbitrary: pre pre')
  case (Cons c cs)
  have notin: "f z \<noteq> Some v" if "f c = Some v" "z \<in> set cs" for z
    using Cons.prems(1) that by (auto simp: map_filter_simps set_map_filter)
  have tail: "distinct (List.map_filter f cs)"
    using Cons.prems(1) by (auto simp: map_filter_simps split: option.splits)
  show ?case
  proof (cases pre)
    case n: Nil
    then have "c = x" "pre' \<noteq> [] \<Longrightarrow> y \<in> set cs"
      using Cons.prems(2,3) by (simp, cases pre', auto)
    with notin Cons.prems(2-5) n show ?thesis by (cases pre') auto
  next
    case p: (Cons p ps)
    then have x: "cs = ps @ x # post" "x \<in> set cs" using Cons.prems(2) by auto
    with notin Cons.prems(3-5) obtain ps' where "pre' = c # ps'" "cs = ps' @ y # post'"
      by (cases pre') auto
    with Cons.IH [OF tail x(1) _ Cons.prems(4,5)] p Cons.prems(2) show ?thesis by auto
  qed
qed simp

text \<open>
  What a manager holds after a history: under each identifier that was issued the
  credential issued, active unless a revocation came after it.
\<close>

lemma cm_run_snoc: "cm_run X enc (cs @ [c]) m = cm_call X enc c (cm_run X enc cs m)"
  by (simp add: cm_run_def)

lemma cm_run_ttl: "cm_default_ttl (cm_run X enc cs m) = cm_default_ttl m"
proof (induction cs rule: rev_induct)
  case (snoc c cs)
  then show ?case
    by (cases c) (auto simp: cm_run_snoc cm_issue_def cm_revoke_def split: option.splits prod.splits)
qed (simp add: cm_run_def)

definition held_as ::
  "ext \<Rightarrow> (bytes \<Rightarrow> string) \<Rightarrow> duration \<Rightarrow> credential_call list \<Rightarrow> string \<Rightarrow> credential \<Rightarrow> bool" where
  "held_as X enc ttl cs i c \<longleftrightarrow> (\<exists>pre dr did caps ress post.
     cs = pre @ Issue dr did caps ress # post \<and> i = ''cred_'' @ uuid_simple X (id_uuid dr) \<and>
     representable (dt_add X (id_now dr) ttl) \<and>
     c = (issued_credential X enc ttl dr did caps ress)
           \<lparr>cr_status := (if Revoke i \<in> set post then Revoked else Active)\<rparr>)"

lemma held_as_snoc:
  "held_as X enc ttl (cs @ [x]) i c \<longleftrightarrow>
     (\<exists>dr did caps ress. x = Issue dr did caps ress \<and> i = ''cred_'' @ uuid_simple X (id_uuid dr) \<and>
        representable (dt_add X (id_now dr) ttl) \<and> c = issued_credential X enc ttl dr did caps ress) \<or>
     (\<exists>c'. held_as X enc ttl cs i c' \<and> c = (if x = Revoke i then credential_revoke c' else c'))"
    (is "_ \<longleftrightarrow> ?new \<or> ?old")
proof
  assume "held_as X enc ttl (cs @ [x]) i c"
  then obtain pre dr did caps ress post where
    h: "cs @ [x] = pre @ Issue dr did caps ress # post" "i = ''cred_'' @ uuid_simple X (id_uuid dr)"
      "representable (dt_add X (id_now dr) ttl)" "c = (issued_credential X enc ttl dr did caps ress)
             \<lparr>cr_status := (if Revoke i \<in> set post then Revoked else Active)\<rparr>"
    unfolding held_as_def by blast
  from h(1) consider "post = []" "x = Issue dr did caps ress"
    | post' where "post = post' @ [x]" "cs = pre @ Issue dr did caps ress # post'"
    unfolding snoc_eq_split by blast
  then show "?new \<or> ?old"
  proof cases
    case 1
    then have ?new using h(2-4) by (simp add: issued_credential_def)
    then show ?thesis ..
  next
    case 2
    let ?c = "(issued_credential X enc ttl dr did caps ress)
             \<lparr>cr_status := (if Revoke i \<in> set post' then Revoked else Active)\<rparr>"
    have "held_as X enc ttl cs i ?c" using 2(2) h(2,3) unfolding held_as_def by blast
    moreover have "c = (if x = Revoke i then credential_revoke ?c else ?c)"
      unfolding h(4) 2(1) by (simp add: credential_revoke_def)
    ultimately show ?thesis by blast
  qed
next
  assume "?new \<or> ?old"
  then show "held_as X enc ttl (cs @ [x]) i c"
  proof
    assume ?new
    then obtain dr did caps ress where n: "x = Issue dr did caps ress"
      "i = ''cred_'' @ uuid_simple X (id_uuid dr)" "representable (dt_add X (id_now dr) ttl)"
      "c = issued_credential X enc ttl dr did caps ress" by blast
    then show ?thesis unfolding held_as_def
      by (intro exI [of _ cs] exI [of _ dr] exI [of _ did] exI [of _ caps] exI [of _ ress] exI [of _ "[]"])
        (simp add: issued_credential_def)
  next
    assume ?old
    then obtain pre dr did caps ress post c' where
      h: "cs = pre @ Issue dr did caps ress # post" "i = ''cred_'' @ uuid_simple X (id_uuid dr)"
        "representable (dt_add X (id_now dr) ttl)" "c' = (issued_credential X enc ttl dr did caps ress)
             \<lparr>cr_status := (if Revoke i \<in> set post then Revoked else Active)\<rparr>"
      and c: "c = (if x = Revoke i then credential_revoke c' else c')"
      unfolding held_as_def by blast
    show ?thesis unfolding held_as_def
      by (intro exI [of _ pre] exI [of _ dr] exI [of _ did] exI [of _ caps] exI [of _ ress]
          exI [of _ "post @ [x]"] conjI h(2,3))
        (simp_all add: h(1) c, simp_all add: h(4) credential_revoke_def)
  qed
qed

lemma held_as_id: "held_as X enc ttl cs i c \<Longrightarrow> i \<in> set (List.map_filter (call_id X) cs)"
  by (auto simp: held_as_def map_filter_simps)

lemma cm_run_holds:
  assumes "distinct (List.map_filter (call_id X) cs)" "duration_seconds n = Some ttl"
  shows "cm_credentials (cm_run X enc cs (cm_new n)) i = Some c \<longleftrightarrow> held_as X enc ttl cs i c"
  using assms(1)
proof (induction cs arbitrary: i c rule: rev_induct)
  case Nil
  show ?case by (simp add: cm_run_def cm_new_def held_as_def)
next
  case (snoc x cs)
  let ?m = "cm_run X enc cs (cm_new n)"
  have IH: "cm_credentials ?m i = Some c \<longleftrightarrow> held_as X enc ttl cs i c" for i c
    using snoc.prems by (intro snoc.IH) simp
  show ?case
  proof (cases x)
    case (Issue dr did caps ress)
    have fresh: "\<not> held_as X enc ttl cs (''cred_'' @ uuid_simple X (id_uuid dr)) c" for c
      using snoc.prems held_as_id by (fastforce simp: Issue map_filter_simps)
    have "cm_run X enc (cs @ [x]) (cm_new n) = (if representable (dt_add X (id_now dr) ttl)
        then ?m\<lparr>cm_credentials := (cm_credentials ?m)(''cred_'' @ uuid_simple X (id_uuid dr) \<mapsto>
           issued_credential X enc ttl dr did caps ress)\<rparr> else ?m)"
      using credential_issue_eq [OF assms(2)] cm_run_ttl [of X enc cs "cm_new n"]
      by (simp add: Issue cm_run_snoc cm_issue_def cm_new_def)
    with fresh IH show ?thesis by (auto simp: Issue held_as_snoc)
  next
    case (Revoke j)
    show ?thesis
    proof (cases "cm_credentials ?m j")
      case None
      then have "cm_run X enc (cs @ [x]) (cm_new n) = ?m"
        by (simp add: Revoke cm_run_snoc cm_revoke_def)
      moreover have "\<not> held_as X enc ttl cs j c" for c using IH [of j c] None by simp
      ultimately show ?thesis using IH [of i c] by (auto simp: Revoke held_as_snoc)
    next
      case (Some cred)
      have run: "cm_run X enc (cs @ [x]) (cm_new n) =
          ?m\<lparr>cm_credentials := (cm_credentials ?m)(j \<mapsto> credential_revoke cred)\<rparr>"
        using Some by (simp add: Revoke cm_run_snoc cm_revoke_def)
      have held: "held_as X enc ttl cs j c' \<longleftrightarrow> c' = cred" for c' using IH [of j c'] Some by auto
      show ?thesis
      proof (cases "j = i")
        case True
        with run held show ?thesis by (auto simp: Revoke held_as_snoc)
      next
        case False
        with run IH [of i c] show ?thesis by (auto simp: Revoke held_as_snoc)
      qed
    qed
  qed
qed

lemma validate_from_Some:
  "validate_from X now ks m token = Some c \<Longrightarrow>
     \<exists>k\<in>set ks. m k = Some c \<and> verify_token X c token \<and> is_valid (now k) c"
  by (induction ks) (auto split: option.splits if_splits)

lemma validate_from_None:
  "validate_from X now ks m token = None \<Longrightarrow> k \<in> set ks \<Longrightarrow> m k = Some c \<Longrightarrow>
     \<not> (verify_token X c token \<and> is_valid (now k) c)"
  by (induction ks) (auto split: option.splits if_splits)

section \<open>Properties\<close>

text \<open>
  C32: after any history of issuing and revoking, with fresh identifiers and tokens of distinct
  hashes, exactly the tokens that were issued, not revoked since and not expired validate,
  each as the credential it was issued with, where a call whose expiry \<open>chrono\<close> cannot represent
  issues nothing; the order the hash map is searched in does
  not matter.
\<close>

theorem token_validates_iff:
  assumes "distinct (List.map_filter (call_id X) cs)"
    and "distinct (List.map_filter (\<lambda>c. map_option (sha256_hex X) (call_token enc c)) cs)"
    and "duration_seconds n = Some ttl"
    and "enumerates order (cm_credentials (cm_run X enc cs (cm_new n)))"
  shows "cm_validate X now order (cm_run X enc cs (cm_new n)) token = Some c \<longleftrightarrow>
    (\<exists>pre dr did caps ress post. cs = pre @ Issue dr did caps ress # post \<and>
       sha256_hex X (enc (id_token_bytes dr)) = sha256_hex X token \<and>
       Revoke (cr_credential_id c) \<notin> set post \<and> now (cr_credential_id c) < dt_add X (id_now dr) ttl \<and>
       representable (dt_add X (id_now dr) ttl) \<and> c = issued_credential X enc ttl dr did caps ress)"
    (is "?l = Some c \<longleftrightarrow> ?R c")
proof -
  let ?m = "cm_run X enc cs (cm_new n)"
  note holds = cm_run_holds [OF assms(1,3), of enc]
  have fits: "?R c \<longleftrightarrow> (\<exists>k. cm_credentials ?m k = Some c \<and> verify_token X c token \<and> is_valid (now k) c)"
    for c
  proof
    assume "?R c"
    then obtain pre dr did caps ress post where p: "cs = pre @ Issue dr did caps ress # post"
      "sha256_hex X (enc (id_token_bytes dr)) = sha256_hex X token"
      "Revoke (cr_credential_id c) \<notin> set post" "now (cr_credential_id c) < dt_add X (id_now dr) ttl"
      "representable (dt_add X (id_now dr) ttl)" "c = issued_credential X enc ttl dr did caps ress" by blast
    then have "held_as X enc ttl cs (cr_credential_id c) c" unfolding held_as_def
      by (intro exI [of _ pre] exI [of _ dr] exI [of _ did] exI [of _ caps] exI [of _ ress] exI [of _ post])
        (simp add: issued_credential_def)
    then have "cm_credentials ?m (cr_credential_id c) = Some c" by (simp only: holds)
    moreover have "verify_token X c token \<and> is_valid (now (cr_credential_id c)) c"
      using p(2-6) by (simp add: verify_token_def is_valid_def)
    ultimately show "\<exists>k. cm_credentials ?m k = Some c \<and> verify_token X c token \<and> is_valid (now k) c"
      by blast
  next
    assume "\<exists>k. cm_credentials ?m k = Some c \<and> verify_token X c token \<and> is_valid (now k) c"
    then obtain pre dr did caps ress post where p: "cs = pre @ Issue dr did caps ress # post"
      "c = (issued_credential X enc ttl dr did caps ress)
         \<lparr>cr_status := (if Revoke (cr_credential_id c) \<in> set post then Revoked else Active)\<rparr>"
      and k: "verify_token X c token" "is_valid (now (cr_credential_id c)) c"
        "representable (dt_add X (id_now dr) ttl)"
      by (auto simp: holds held_as_def)
    from k(2) have "cr_status c = Active" by (simp add: is_valid_def)
    then have "Revoke (cr_credential_id c) \<notin> set post" using arg_cong [OF p(2), of cr_status] by auto
    moreover from this have "c = issued_credential X enc ttl dr did caps ress"
      using p(2) by (simp add: issued_credential_def)
    ultimately show "?R c" using p(1) k
      by (intro exI [of _ pre] exI [of _ dr] exI [of _ did] exI [of _ caps] exI [of _ ress] exI [of _ post])
        (simp add: verify_token_def is_valid_def)
  qed
  have unique: "c = c'" if "?R c" "?R c'" for c c'
  proof -
    from that obtain pre dr did caps ress post pre' dr' did' caps' ress' post' where
      p: "cs = pre @ Issue dr did caps ress # post" "cs = pre' @ Issue dr' did' caps' ress' # post'"
      "sha256_hex X (enc (id_token_bytes dr)) = sha256_hex X token"
      "sha256_hex X (enc (id_token_bytes dr')) = sha256_hex X token"
      and c: "c = issued_credential X enc ttl dr did caps ress" "c' = issued_credential X enc ttl dr' did' caps' ress'"
      by blast
    have "Issue dr did caps ress = Issue dr' did' caps' ress'"
      using distinct_position [OF assms(2) p(1,2), of "sha256_hex X token"] p(3,4) by simp
    with c show ?thesis by simp
  qed
  show ?thesis
  proof
    assume "?l = Some c"
    then show "?R c" using validate_from_Some fits unfolding cm_validate_def by blast
  next
    assume R: "?R c"
    then obtain k where k: "cm_credentials ?m k = Some c" "verify_token X c token \<and> is_valid (now k) c"
      using fits by blast
    then have "k \<in> set order" using assms(4) by (auto simp: enumerates_def)
    with k obtain c' where c': "?l = Some c'"
      using validate_from_None unfolding cm_validate_def by (metis not_None_eq)
    then have "?R c'" using validate_from_Some fits unfolding cm_validate_def by blast
    from unique [OF this R] c' show "?l = Some c" by simp
  qed
qed

definition sample_draw :: "string \<Rightarrow> uuid \<Rightarrow> issue_draw" where
  "sample_draw b u = \<lparr>id_token_bytes = b, id_uuid = u, id_now = 0\<rparr>"

text \<open>Two tokens are issued and the first is revoked: only the second validates.\<close>

theorem token_validates_iff_witness:
  "\<exists>i order. let m = cm_run toy_ext id [Issue (sample_draw ''a'' 1) ''x'' [] [],
         Issue (sample_draw ''b'' 2) ''y'' [] [], Revoke i] (cm_new 900) in
     enumerates order (cm_credentials m) \<and>
     cm_validate toy_ext (\<lambda>_. 5) order m ''a'' = None \<and>
     map_option cr_agent_did (cm_validate toy_ext (\<lambda>_. 5) order m ''b'') = Some ''y''"
proof -
  let ?i = "\<lambda>u. ''cred_'' @ uuid_simple toy_ext u"
  let ?cs = "[Issue (sample_draw ''a'' 1) ''x'' [] [], Issue (sample_draw ''b'' 2) ''y'' [] [], Revoke (?i 1)]"
  let ?m = "cm_run toy_ext id ?cs (cm_new 900)"
  have ttl: "duration_seconds 900 = Some (secs 900)" by (simp add: duration_seconds_def)
  have rep: "representable (dt_add toy_ext 0 (secs 900))" by (simp add: representable_def toy_ext_def)
  have "?i 1 \<noteq> ?i 2" using nat_digits36_inj [of 1 2] by (auto simp: toy_ext_def)
  then have ids: "distinct (List.map_filter (call_id toy_ext) ?cs)"
    by (simp add: map_filter_simps sample_draw_def)
  have hashes: "sha256_hex toy_ext ''a'' \<noteq> sha256_hex toy_ext ''b''"
    by (simp add: toy_ext_def to_hex_def hex_digits_def)
  then have tokens: "distinct (List.map_filter (\<lambda>c. map_option (sha256_hex toy_ext) (call_token id c)) ?cs)"
    by (simp add: map_filter_simps sample_draw_def)
  have en: "enumerates [?i 1, ?i 2] (cm_credentials ?m)"
    using \<open>?i 1 \<noteq> ?i 2\<close> credential_issue_eq [OF ttl, of toy_ext id] rep
    by (auto simp: enumerates_def cm_run_def cm_issue_def cm_revoke_def cm_new_def sample_draw_def)
  note th = token_validates_iff [OF ids tokens ttl en, of "\<lambda>_. 5"]
  have "cm_validate toy_ext (\<lambda>_. 5) [?i 1, ?i 2] ?m ''a'' = None"
  proof (rule ccontr)
    assume "cm_validate toy_ext (\<lambda>_. 5) [?i 1, ?i 2] ?m ''a'' \<noteq> None"
    then obtain c where "cm_validate toy_ext (\<lambda>_. 5) [?i 1, ?i 2] ?m ''a'' = Some c" by blast
    with th hashes show False
      by (auto simp: Cons_eq_append_conv sample_draw_def)
  qed
  moreover have "cm_validate toy_ext (\<lambda>_. 5) [?i 1, ?i 2] ?m ''b'' =
      Some (issued_credential toy_ext id (secs 900) (sample_draw ''b'' 2) ''y'' [] [])"
    unfolding th using \<open>?i 1 \<noteq> ?i 2\<close> rep
    by (intro exI [of _ "[Issue (sample_draw ''a'' 1) ''x'' [] []]"] exI [of _ "sample_draw ''b'' 2"]
        exI [of _ "''y''"] exI [of _ "[]"] exI [of _ "[Revoke (?i 1)]"])
      (simp add: sample_draw_def, simp add: toy_ext_def)
  ultimately show ?thesis using en
    by (intro exI [of _ "?i 1"] exI [of _ "[?i 1, ?i 2]"]) (simp add: Let_def issued_credential_def)
qed

end
