(* ===== verification/Risk.thy ===== *)
theory Risk
  imports Externals "HOL-Library.Log_Nat"
begin

text \<open>
  Risk scores, \<open>crates/core/mesh/src/identity/risk.rs\<close>: signals are kept per agent, each
  of the last 24 hours lowers the component scores its type names, and the total is a
  weighted mean in \<open>u32\<close> arithmetic. The reduction is computed in \<open>f64\<close>, whose
  multiplication and cast are written out here. The lock is only taken by these
  operations, none of which panics while it holds it.
\<close>

section \<open>\<open>f64\<close>\<close>

text \<open>
  IEEE 754 binary64 as far as \<open>*\<close> and \<open>as u32\<close> need it: \<open>Fnum m e\<close> is the number
  $m \cdot 2^e$; the sign of zero and the payload of NaN cannot be observed.
\<close>

datatype f64 = Fnum int int | Finf bool | Fnan

text \<open>Round to nearest, ties to even, to 53 bits and at least the exponent -1074.\<close>

definition round_f64 :: "int \<Rightarrow> int \<Rightarrow> f64" where
  "round_f64 m e =
     (let s = max (bitlen \<bar>m\<bar> - 53) (- 1074 - e);
          k = nat s;
          q = \<bar>m\<bar> div 2 ^ k;
          r = \<bar>m\<bar> mod 2 ^ k;
          q' = (if 2 * r > 2 ^ k \<or> 2 * r = 2 ^ k \<and> odd q then q + 1 else q)
      in if s \<le> 0 then (if bitlen \<bar>m\<bar> + e > 1024 then Finf (m < 0) else Fnum m e)
         else if bitlen q' + e + s > 1024 then Finf (m < 0)
         else Fnum (sgn m * q') (e + s))"

fun f64_mul :: "f64 \<Rightarrow> f64 \<Rightarrow> f64" where
  "f64_mul (Fnum m e) (Fnum n f) = round_f64 (m * n) (e + f)"
| "f64_mul (Finf s) (Finf t) = Finf (s \<noteq> t)"
| "f64_mul (Finf s) (Fnum n f) = (if n = 0 then Fnan else Finf (s \<noteq> (n < 0)))"
| "f64_mul (Fnum m e) (Finf t) = (if m = 0 then Fnan else Finf ((m < 0) \<noteq> t))"
| "f64_mul _ _ = Fnan"

text \<open>\<open>x as u32\<close>: toward zero, saturating, NaN to 0.\<close>

fun f64_as_u32 :: "f64 \<Rightarrow> u32" where
  "f64_as_u32 (Fnum m e) =
     (if m \<le> 0 then 0
      else of_int (min 4294967295 (if 0 \<le> e then m * 2 ^ nat e else m div 2 ^ nat (- e))))"
| "f64_as_u32 (Finf negative) = (if negative then 0 else 4294967295)"
| "f64_as_u32 Fnan = 0"

text \<open>The literals of the source, the doubles nearest to them.\<close>

definition f64_nearest :: "f64 \<Rightarrow> int \<Rightarrow> int \<Rightarrow> bool" where
  "f64_nearest x num den = (case x of
       Fnum m e \<Rightarrow> e \<le> 0 \<and> 2 ^ 52 \<le> m \<and> m < 2 ^ 53 \<and> 2 * \<bar>m * den - num * 2 ^ nat (- e)\<bar> < den
     | _ \<Rightarrow> False)"

section \<open>Signals and scores\<close>

datatype risk_severity = Critical | High | Medium | Low | Info

record risk_signal =
  rs_signal_type :: string
  rs_severity :: risk_severity
  rs_value :: f64
  rs_timestamp :: datetime
  rs_source :: "string option"
  rs_details :: "string option"

definition weight :: "risk_signal \<Rightarrow> f64" where
  "weight s = (case rs_severity s of
       Critical \<Rightarrow> Fnum 1 0
     | High \<Rightarrow> Fnum 7205759403792794 (- 53)
     | Medium \<Rightarrow> Fnum 1 (- 1)
     | Low \<Rightarrow> Fnum 7205759403792794 (- 55)
     | Info \<Rightarrow> Fnum 7205759403792794 (- 56))"

lemma weight_literals:
  "f64_nearest (Fnum 7205759403792794 (- 53)) 8 10"
  "f64_nearest (Fnum 7205759403792794 (- 55)) 2 10"
  "f64_nearest (Fnum 7205759403792794 (- 56)) 1 10"
  by (simp_all add: f64_nearest_def)

record risk_score =
  sc_agent_did :: string
  sc_total_score :: u32
  sc_identity_score :: u32
  sc_behavior_score :: u32
  sc_network_score :: u32
  sc_compliance_score :: u32
  sc_active_signals :: u32
  sc_critical_signals :: u32

record risk_state =
  ri_scores :: "string \<rightharpoonup> risk_score"
  ri_signals :: "string \<rightharpoonup> risk_signal list"

definition scorer_new :: risk_state where
  "scorer_new = \<lparr>ri_scores = Map.empty, ri_signals = Map.empty\<rparr>"

definition get_score :: "risk_state \<Rightarrow> string \<Rightarrow> risk_score option" where
  "get_score st agent_did = ri_scores st agent_did"

definition saturating_sub :: "u32 \<Rightarrow> u32 \<Rightarrow> u32" where
  "saturating_sub a b = (if a \<le> b then 0 else a - b)"

definition reduction :: "risk_signal \<Rightarrow> u32" where
  "reduction s = f64_as_u32 (f64_mul (f64_mul (rs_value s) (weight s)) (Fnum 20 0))"

text \<open>
  One turn of the loop over the scores (identity, behavior, network, compliance), and
  \<open>calculate_score\<close>. Overflow checks play no part: the arithmetic stays below 800.
\<close>

type_synonym components = "u32 \<times> u32 \<times> u32 \<times> u32"

definition apply_signal :: "risk_signal \<Rightarrow> components \<Rightarrow> components" where
  "apply_signal s sc = (case sc of (identity, behavior, network, compliance) \<Rightarrow>
     (let r = reduction s; lower = (\<lambda>p x. if starts_with (rs_signal_type s) p then saturating_sub x r else x)
      in (lower ''identity.'' identity, lower ''behavior.'' behavior,
          lower ''network.'' network, lower ''compliance.'' compliance)))"

definition recent_signals :: "ext \<Rightarrow> datetime \<Rightarrow> string \<Rightarrow> (string \<rightharpoonup> risk_signal list) \<Rightarrow> risk_signal list" where
  "recent_signals X now agent_did signals_map =
     filter (\<lambda>s. dt_sub X now (hours 24) < rs_timestamp s)
       (case signals_map agent_did of None \<Rightarrow> [] | Some ss \<Rightarrow> ss)"

definition calculate_score ::
  "ext \<Rightarrow> datetime \<Rightarrow> string \<Rightarrow> (string \<rightharpoonup> risk_signal list) \<Rightarrow> risk_score" where
  "calculate_score X now agent_did signals_map =
     (let recent = recent_signals X now agent_did signals_map;
          (identity, behavior, network, compliance) = fold apply_signal recent (80, 70, 75, 85);
          total_score = (identity * 2 + behavior * 3 + network * 2 + compliance * 3) div 10
      in \<lparr>sc_agent_did = agent_did, sc_total_score = min total_score 1000,
          sc_identity_score = min identity 100, sc_behavior_score = min behavior 100,
          sc_network_score = min network 100, sc_compliance_score = min compliance 100,
          sc_active_signals = of_nat (length recent),
          sc_critical_signals = of_nat (length (filter (\<lambda>s. rs_severity s = Critical) recent))\<rparr>)"

definition add_signal :: "ext \<Rightarrow> datetime \<Rightarrow> string \<Rightarrow> risk_signal \<Rightarrow> risk_state \<Rightarrow> risk_state" where
  "add_signal X now agent_did s st =
     (let ss = (case ri_signals st agent_did of None \<Rightarrow> [] | Some ss \<Rightarrow> ss);
          signals = (ri_signals st)(agent_did \<mapsto> ss @ [s]);
          score = calculate_score X now agent_did signals
      in st\<lparr>ri_signals := signals, ri_scores := (ri_scores st)(agent_did \<mapsto> score)\<rparr>)"

definition recalculate :: "ext \<Rightarrow> datetime \<Rightarrow> string \<Rightarrow> risk_state \<Rightarrow> risk_score \<times> risk_state" where
  "recalculate X now agent_did st =
     (let score = calculate_score X now agent_did (ri_signals st)
      in (score, st\<lparr>ri_scores := (ri_scores st)(agent_did \<mapsto> score)\<rparr>))"

section \<open>One component at a time\<close>

fun component_score :: "string \<Rightarrow> risk_signal list \<Rightarrow> u32 \<Rightarrow> u32" where
  "component_score p [] score = score"
| "component_score p (s # ss) score = component_score p ss
     (if starts_with (rs_signal_type s) p then saturating_sub score (reduction s) else score)"

lemma fold_apply_signal:
  "fold apply_signal ss (i, b, n, c) =
     (component_score ''identity.'' ss i, component_score ''behavior.'' ss b,
      component_score ''network.'' ss n, component_score ''compliance.'' ss c)"
  by (induction ss arbitrary: i b n c) (simp_all add: apply_signal_def Let_def)

lemma component_score_append:
  "component_score p (ss @ ts) score = component_score p ts (component_score p ss score)"
  by (induction ss arbitrary: score) simp_all

lemma unat_saturating_sub: "unat (saturating_sub a b) = unat a - unat b"
  by (simp add: saturating_sub_def word_le_nat_alt unat_sub_if')

lemma component_score_le: "unat (component_score p ss score) \<le> unat score"
proof (induction ss arbitrary: score)
  case (Cons s ss)
  have "unat (component_score p (s # ss) score) \<le>
      unat (if starts_with (rs_signal_type s) p then saturating_sub score (reduction s) else score)"
    using Cons [of "if starts_with (rs_signal_type s) p then saturating_sub score (reduction s) else score"]
    by simp
  also have "\<dots> \<le> unat score" by (simp add: unat_saturating_sub)
  finally show ?case .
qed simp

lemma min_u32 [simp]: "unat (min a b) = min (unat a) (unat (b :: u32))"
  by (simp add: min_def word_le_nat_alt)

lemma weighted_mean:
  assumes "unat i \<le> 80" "unat b \<le> 70" "unat n \<le> 75" "unat c \<le> 85"
  shows "unat ((i * 2 + b * 3 + n * 2 + c * 3) div 10 :: u32) =
    (2 * unat i + 3 * unat b + 2 * unat n + 3 * unat c) div 10"
proof -
  have i: "unat (i * 2) = 2 * unat i" and b: "unat (b * 3) = 3 * unat b"
    and n: "unat (n * 2) = 2 * unat n" and c: "unat (c * 3) = 3 * unat c"
    using assms by (simp_all add: unat_word_ariths)
  show ?thesis using assms by (simp add: unat_div_distrib unat_word_ariths(1) i b n c)
qed

definition score_ok :: "risk_score \<Rightarrow> bool" where
  "score_ok sc \<longleftrightarrow> unat (sc_identity_score sc) \<le> 80 \<and> unat (sc_behavior_score sc) \<le> 70 \<and>
     unat (sc_network_score sc) \<le> 75 \<and> unat (sc_compliance_score sc) \<le> 85 \<and>
     unat (sc_total_score sc) \<le> 77 \<and>
     unat (sc_total_score sc) = (2 * unat (sc_identity_score sc) + 3 * unat (sc_behavior_score sc) +
       2 * unat (sc_network_score sc) + 3 * unat (sc_compliance_score sc)) div 10"

lemma calculate_score_ok: "score_ok (calculate_score X now did m)"
proof -
  let ?ss = "recent_signals X now did m"
  have le: "unat (component_score ''identity.'' ?ss 80) \<le> 80" "unat (component_score ''behavior.'' ?ss 70) \<le> 70"
    "unat (component_score ''network.'' ?ss 75) \<le> 75" "unat (component_score ''compliance.'' ?ss 85) \<le> 85"
    using component_score_le [of "''identity.''" ?ss 80] component_score_le [of "''behavior.''" ?ss 70]
      component_score_le [of "''network.''" ?ss 75] component_score_le [of "''compliance.''" ?ss 85] by simp_all
  show ?thesis using le
    by (simp add: score_ok_def calculate_score_def fold_apply_signal Let_def weighted_mean [OF le])
qed

section \<open>Properties\<close>

text \<open>The states a scorer reaches, with any clock readings.\<close>

inductive scorer_reachable :: "ext \<Rightarrow> risk_state \<Rightarrow> bool" for X where
  start: "scorer_reachable X scorer_new"
| add: "scorer_reachable X st \<Longrightarrow> scorer_reachable X (add_signal X now did s st)"
| recalc: "scorer_reachable X st \<Longrightarrow> scorer_reachable X (snd (recalculate X now did st))"

text \<open>
  C34: every score a scorer hands out is the one its signals had when the agent's entry changed
  last, its components stay at or below the starting values 80, 70, 75 and 85, and its
  total is their weighted mean without overflow, at most 77.
\<close>

theorem risk_score_bounds:
  assumes "scorer_reachable X st" and "get_score st did = Some sc"
  shows "score_ok sc \<and> (\<exists>now. sc = calculate_score X now did (ri_signals st))"
proof -
  have "\<exists>now. sc = calculate_score X now did (ri_signals st)"
    using assms
  proof (induction arbitrary: sc rule: scorer_reachable.induct)
    case start
    then show ?case by (simp add: get_score_def scorer_new_def)
  next
    case (add st now did' s)
    show ?case
    proof (cases "did' = did")
      case True
      with add.prems show ?thesis
        by (intro exI [of _ now]) (simp add: get_score_def add_signal_def Let_def fun_upd_def)
    next
      case False
      with add.prems have "get_score st did = Some sc" by (simp add: get_score_def add_signal_def Let_def)
      with add.IH False show ?thesis
        by (force simp: add_signal_def Let_def calculate_score_def recent_signals_def)
    qed
  next
    case (recalc st now did')
    then show ?case
      by (cases "did' = did") (auto simp: get_score_def recalculate_def Let_def)
  qed
  with calculate_score_ok show ?thesis by blast
qed

text \<open>A new signal never raises a component of the score (at the same clock reading).\<close>

lemma signal_never_raises_score:
  "unat (component_score p (ss @ [s]) score) \<le> unat (component_score p ss score)"
  using component_score_le [of p "[s]"] by (simp only: component_score_append)

text \<open>What a signal of value 1.0 costs.\<close>

lemma full_reduction:
  "reduction (s\<lparr>rs_value := Fnum 1 0\<rparr>) = (case rs_severity s of
     Critical \<Rightarrow> 20 | High \<Rightarrow> 16 | Medium \<Rightarrow> 10 | Low \<Rightarrow> 4 | Info \<Rightarrow> 2)"
  by (cases "rs_severity s") (simp_all add: reduction_def weight_def round_f64_def Let_def bitlen_def compute_floorlog)

definition sample_signal :: risk_signal where
  "sample_signal = \<lparr>rs_signal_type = ''identity.failed_auth'', rs_severity = High,
     rs_value = Fnum 1 (- 1), rs_timestamp = 0, rs_source = None, rs_details = None\<rparr>"

text \<open>A signal of severity High and value 0.5 leaves identity at 72 and the total at 75.\<close>

theorem risk_score_bounds_witness:
  "\<exists>sc. get_score (add_signal toy_ext 1 ''a'' sample_signal scorer_new) ''a'' = Some sc \<and>
     score_ok sc \<and> sc_identity_score sc = 72 \<and> sc_total_score sc = 75"
proof -
  let ?st = "add_signal toy_ext 1 ''a'' sample_signal scorer_new"
  obtain sc where sc: "get_score ?st ''a'' = Some sc"
    by (simp add: get_score_def add_signal_def Let_def)
  from risk_score_bounds [OF add [OF start] sc] have "score_ok sc" ..
  moreover have "reduction sample_signal = 8"
    by (simp add: reduction_def weight_def sample_signal_def round_f64_def Let_def bitlen_def compute_floorlog)
  then have "sc_identity_score sc = 72 \<and> sc_total_score sc = 75"
    using sc
    by (auto simp: get_score_def add_signal_def scorer_new_def calculate_score_def recent_signals_def
        apply_signal_def saturating_sub_def toy_ext_def Let_def sample_signal_def)
  ultimately show ?thesis using sc by blast
qed

end
