(* ===== verification/Namespaces.thy ===== *)
theory Namespaces
  imports Prelude_AGT
begin

text \<open>
  Namespaces of agents, \<open>crates/core/mesh/src/governance/namespace.rs\<close>: a manager of named
  groups of agents with parents, and the question whether two agents may communicate. The
  locks are only taken by these operations, none of which panics while it holds one.
\<close>

record agent_namespace =
  ns_name :: string
  ns_description :: string
  ns_parent :: "string option"
  ns_members :: "string set"

record namespace_rule =
  nr_source_namespace :: string
  nr_target_namespace :: string
  nr_allowed :: bool

record namespace_manager =
  nm_namespaces :: "string \<rightharpoonup> agent_namespace"
  nm_rules :: "namespace_rule list"

definition nm_new :: namespace_manager where
  "nm_new = \<lparr>nm_namespaces = Map.empty, nm_rules = []\<rparr>"

definition create_namespace ::
  "string \<Rightarrow> string \<Rightarrow> string option \<Rightarrow> namespace_manager \<Rightarrow> unit res \<times> namespace_manager" where
  "create_namespace name description parent m =
     (if nm_namespaces m name \<noteq> None then (Inl (''Namespace already exists: '' @ name), m)
      else case parent of
        Some p \<Rightarrow>
          if nm_namespaces m p = None then (Inl (''Parent namespace does not exist: '' @ p), m)
          else (Inr (), m\<lparr>nm_namespaces := (nm_namespaces m)(name \<mapsto>
            \<lparr>ns_name = name, ns_description = description, ns_parent = parent, ns_members = {}\<rparr>)\<rparr>)
      | None \<Rightarrow> (Inr (), m\<lparr>nm_namespaces := (nm_namespaces m)(name \<mapsto>
            \<lparr>ns_name = name, ns_description = description, ns_parent = parent, ns_members = {}\<rparr>)\<rparr>))"

definition add_member :: "string \<Rightarrow> string \<Rightarrow> namespace_manager \<Rightarrow> unit res \<times> namespace_manager" where
  "add_member namespace_name agent_did m = (case nm_namespaces m namespace_name of
       None \<Rightarrow> (Inl ''Namespace not found'', m)
     | Some ns \<Rightarrow> (Inr (), m\<lparr>nm_namespaces := (nm_namespaces m)(namespace_name \<mapsto>
         ns\<lparr>ns_members := insert agent_did (ns_members ns)\<rparr>)\<rparr>))"

text \<open>
  The loop of \<open>can_communicate\<close> over the hash map, in the order \<open>order\<close>: the last namespace
  found with an agent counts as the agent's.
\<close>

fun find_namespaces ::
  "string list \<Rightarrow> (string \<rightharpoonup> agent_namespace) \<Rightarrow> string \<Rightarrow> string \<Rightarrow> string option \<Rightarrow> string option \<Rightarrow>
     string option \<times> string option" where
  "find_namespaces [] m from_did to_did f t = (f, t)"
| "find_namespaces (name # names) m from_did to_did f t = (case m name of
       None \<Rightarrow> find_namespaces names m from_did to_did f t
     | Some ns \<Rightarrow> find_namespaces names m from_did to_did
         (if from_did \<in> ns_members ns then Some name else f)
         (if to_did \<in> ns_members ns then Some name else t))"

definition can_communicate :: "string list \<Rightarrow> namespace_manager \<Rightarrow> string \<Rightarrow> string \<Rightarrow> bool" where
  "can_communicate order m from_did to_did =
     (case find_namespaces order (nm_namespaces m) from_did to_did None None of
        (Some f, Some t) \<Rightarrow>
          if f = t then True
          else (\<exists>r\<in>set (nm_rules m). nr_source_namespace r = f \<and> nr_target_namespace r = t \<and> nr_allowed r)
      | _ \<Rightarrow> False)"

section \<open>Reachable managers\<close>

inductive nm_reachable :: "namespace_manager \<Rightarrow> bool" where
  start: "nm_reachable nm_new"
| create: "nm_reachable m \<Longrightarrow> nm_reachable (snd (create_namespace name description parent m))"
| add: "nm_reachable m \<Longrightarrow> nm_reachable (snd (add_member name did m))"

definition parent_of :: "namespace_manager \<Rightarrow> (string \<times> string) set" where
  "parent_of m = {(n, p). \<exists>ns. nm_namespaces m n = Some ns \<and> ns_parent ns = Some p}"

text \<open>
  The order of creation witnesses that parents form a forest: \<open>created ns m\<close> lists the
  namespaces, the newest first, each parent older than its children.
\<close>

fun created :: "string list \<Rightarrow> namespace_manager \<Rightarrow> bool" where
  "created [] m = True"
| "created (n # ns) m \<longleftrightarrow> n \<notin> set ns \<and> (\<forall>p. (n, p) \<in> parent_of m \<longrightarrow> p \<in> set ns) \<and> created ns m"

lemma created_cong:
  "created ns m \<Longrightarrow> (\<And>n p. n \<in> set ns \<Longrightarrow> (n, p) \<in> parent_of m' \<longleftrightarrow> (n, p) \<in> parent_of m) \<Longrightarrow> created ns m'"
  by (induction ns) auto

lemma create_namespace_cases:
  obtains (refused) e where "create_namespace name description parent m = (Inl e, m)"
  | (created) "nm_namespaces m name = None" "\<And>p. parent = Some p \<Longrightarrow> nm_namespaces m p \<noteq> None"
      "create_namespace name description parent m = (Inr (), m\<lparr>nm_namespaces := (nm_namespaces m)(name \<mapsto>
         \<lparr>ns_name = name, ns_description = description, ns_parent = parent, ns_members = {}\<rparr>)\<rparr>)"
proof -
  consider "nm_namespaces m name \<noteq> None" | p where "parent = Some p" "nm_namespaces m p = None" "nm_namespaces m name = None"
    | "nm_namespaces m name = None" "\<And>p. parent = Some p \<Longrightarrow> nm_namespaces m p \<noteq> None"
    by (cases parent) auto
  then show thesis
  proof cases
    case 3
    then show ?thesis by (intro created) (auto simp: create_namespace_def split: option.split)
  qed (auto simp: create_namespace_def intro: refused)
qed

lemma created_closed: "created ns m \<Longrightarrow> n \<in> set ns \<Longrightarrow> (n, p) \<in> parent_of m \<Longrightarrow> p \<in> set ns"
  by (induction ns) auto

lemma reachable_created:
  assumes "nm_reachable m"
  shows "nm_rules m = [] \<and> (\<exists>ns. created ns m \<and> set ns = dom (nm_namespaces m)) \<and>
    (\<forall>n ns. nm_namespaces m n = Some ns \<longrightarrow> ns_name ns = n)"
  using assms
proof induction
  case start
  then show ?case by (auto simp: nm_new_def intro: exI [of _ "[]"])
next
  case (create m name description parent)
  from create.IH obtain ns where ns: "created ns m" "set ns = dom (nm_namespaces m)"
    and old: "nm_rules m = []" "\<forall>n ns. nm_namespaces m n = Some ns \<longrightarrow> ns_name ns = n" by blast
  show ?case
  proof (cases name description parent m rule: create_namespace_cases)
    case refused
    with create.IH show ?thesis by simp
  next
    case created
    let ?m = "snd (create_namespace name description parent m)"
    have n: "name \<notin> set ns" using ns(2) created(1) by auto
    then have "created ns ?m"
      by (intro created_cong [OF ns(1)]) (auto simp: created(3) parent_of_def)
    moreover have "p \<in> set ns" if "(name, p) \<in> parent_of ?m" for p
      using that created(2) ns(2) by (auto simp: created(3) parent_of_def)
    ultimately have "created (name # ns) ?m" using n by simp
    then show ?thesis using ns(2) old by (auto simp: created(3) intro!: exI [of _ "name # ns"])
  qed
next
  case (add m name did)
  then obtain ns where ns: "created ns m" "set ns = dom (nm_namespaces m)"
    and old: "nm_rules m = []" "\<forall>n ns. nm_namespaces m n = Some ns \<longrightarrow> ns_name ns = n" by blast
  let ?m = "snd (add_member name did m)"
  have "parent_of ?m = parent_of m" by (auto simp: add_member_def parent_of_def split: option.splits if_splits)
  then have "created ns ?m" by (intro created_cong [OF ns(1)]) simp
  then show ?case using ns(2) old
    by (auto simp: add_member_def intro!: exI [of _ ns] split: option.splits)
qed

lemma created_parent_of_acyclic:
  assumes "created ns m" "set ns = dom (nm_namespaces m)"
  shows "wf ((parent_of m)\<inverse>)"
proof -
  define age where "age n = length (takeWhile (\<lambda>x. x \<noteq> n) ns)" for n
  have "age n < age p" if "(n, p) \<in> parent_of m" for n p
  proof -
    have "n \<in> set ns" using that assms(2) by (auto simp: parent_of_def)
    with assms(1) that show ?thesis unfolding age_def
      by (induction ns) (auto dest: created_closed)
  qed
  moreover have "age p \<le> length ns" for p unfolding age_def by (rule length_takeWhile_le)
  ultimately have "length ns - age p < length ns - age n \<and> age p \<le> length ns" if "(n, p) \<in> parent_of m" for n p
    using that by (metis diff_less_mono2 order_less_le_trans)
  then have "(parent_of m)\<inverse> \<subseteq> measure (\<lambda>n. length ns - age n)" by auto
  then show ?thesis using wf_measure wf_subset by blast
qed

lemma find_namespaces_eq:
  "find_namespaces order m a b f t =
     (foldl (\<lambda>f n. if (\<exists>ns. m n = Some ns \<and> a \<in> ns_members ns) then Some n else f) f order,
      foldl (\<lambda>f n. if (\<exists>ns. m n = Some ns \<and> b \<in> ns_members ns) then Some n else f) t order)"
  by (induction order arbitrary: f t) (auto split: option.splits)

lemma foldl_last_match:
  "foldl (\<lambda>f n. if P n then Some n else f) f xs =
     (case rev (filter P xs) of [] \<Rightarrow> f | n # _ \<Rightarrow> Some n)"
  by (induction xs arbitrary: f) (auto split: list.splits simp: Cons_eq_append_conv)

text \<open>The namespaces an agent is a member of.\<close>

definition member_of :: "namespace_manager \<Rightarrow> string \<Rightarrow> string set" where
  "member_of m did = {n. \<exists>ns. nm_namespaces m n = Some ns \<and> did \<in> ns_members ns}"

definition last_of :: "string list \<Rightarrow> namespace_manager \<Rightarrow> string \<Rightarrow> string option" where
  "last_of order m did = (case rev (filter (\<lambda>n. n \<in> member_of m did) order) of [] \<Rightarrow> None | n # _ \<Rightarrow> Some n)"

lemma can_communicate_eq:
  assumes "nm_rules m = []"
  shows "can_communicate order m a b \<longleftrightarrow> last_of order m a \<noteq> None \<and> last_of order m a = last_of order m b"
  using assms
  by (auto simp: can_communicate_def find_namespaces_eq foldl_last_match last_of_def member_of_def
      split: option.splits)

lemma last_of_Some: "last_of order m did = Some n \<Longrightarrow> n \<in> member_of m did"
proof -
  assume "last_of order m did = Some n"
  then have "n \<in> set (rev (filter (\<lambda>n. n \<in> member_of m did) order))"
    by (cases "rev (filter (\<lambda>n. n \<in> member_of m did) order)") (simp_all add: last_of_def)
  then show ?thesis by simp
qed

lemma last_of_None:
  assumes "enumerates order (nm_namespaces m)"
  shows "last_of order m did = None \<longleftrightarrow> member_of m did = {}"
proof -
  have "last_of order m did = None \<longleftrightarrow> filter (\<lambda>n. n \<in> member_of m did) order = []"
    by (cases "rev (filter (\<lambda>n. n \<in> member_of m did) order)") (simp_all add: last_of_def)
  also have "\<dots> \<longleftrightarrow> member_of m did = {}"
    using assms by (auto simp: filter_empty_conv enumerates_def member_of_def)
  finally show ?thesis .
qed

section \<open>Properties\<close>

text \<open>
  C35: in every manager that can be reached the rules are empty, every namespace and its parent
  exist, and following parents ends.
\<close>

theorem namespaces_well_founded:
  assumes "nm_reachable m"
  shows "nm_rules m = [] \<and> wf ((parent_of m)\<inverse>) \<and>
    (\<forall>(n, p)\<in>parent_of m. nm_namespaces m n \<noteq> None \<and> nm_namespaces m p \<noteq> None)"
proof -
  from reachable_created [OF assms] obtain ns where ns: "nm_rules m = []" "created ns m"
    "set ns = dom (nm_namespaces m)" by blast
  have "nm_namespaces m n \<noteq> None \<and> nm_namespaces m p \<noteq> None" if "(n, p) \<in> parent_of m" for n p
    using that created_closed [OF ns(2) _ that] ns(3) by (auto simp: parent_of_def)
  with ns(1) created_parent_of_acyclic [OF ns(2,3)] show ?thesis by blast
qed

text \<open>
  Two agents that are in at most one namespace each may communicate exactly when they share
  it: parents and rules play no part.
\<close>

theorem communicate_iff_shared_namespace:
  assumes "nm_reachable m" and "enumerates order (nm_namespaces m)"
    and "member_of m a \<subseteq> {n}" and "member_of m b \<subseteq> {n'}"
  shows "can_communicate order m a b \<longleftrightarrow> member_of m a \<inter> member_of m b \<noteq> {}"
proof -
  have rules: "nm_rules m = []" using reachable_created [OF assms(1)] by blast
  have a: "last_of order m a = (if member_of m a = {} then None else Some n)"
    using last_of_None [OF assms(2), of a] last_of_Some [of order m a] assms(3) by (cases "last_of order m a") auto
  have b: "last_of order m b = (if member_of m b = {} then None else Some n')"
    using last_of_None [OF assms(2), of b] last_of_Some [of order m b] assms(4) by (cases "last_of order m b") auto
  show ?thesis unfolding can_communicate_eq [OF rules] a b using assms(3,4) by auto
qed

definition two_namespaces :: namespace_manager where
  "two_namespaces = snd (add_member ''y'' ''a'' (snd (add_member ''x'' ''b'' (snd (add_member ''x'' ''a''
     (snd (create_namespace ''y'' [] (Some ''x'') (snd (create_namespace ''x'' [] None nm_new)))))))))"

lemma two_namespaces_reachable: "nm_reachable two_namespaces"
  unfolding two_namespaces_def by (intro nm_reachable.intros)

lemma two_namespaces_map: "nm_namespaces two_namespaces =
    [''x'' \<mapsto> \<lparr>ns_name = ''x'', ns_description = [], ns_parent = None, ns_members = {''a'', ''b''}\<rparr>,
     ''y'' \<mapsto> \<lparr>ns_name = ''y'', ns_description = [], ns_parent = Some ''x'', ns_members = {''a''}\<rparr>]"
  by (auto simp: two_namespaces_def create_namespace_def add_member_def nm_new_def)

text \<open>
  With an agent in two namespaces the answer depends on the order of the hash map: there
  is a manager for which two orders give different answers, for agents that share one.
\<close>

theorem communication_depends_on_order:
  "\<exists>m order order' a b. nm_reachable m \<and> enumerates order (nm_namespaces m) \<and>
     enumerates order' (nm_namespaces m) \<and> member_of m a \<inter> member_of m b \<noteq> {} \<and>
     can_communicate order m a b \<and> \<not> can_communicate order' m a b"
proof -
  have "member_of two_namespaces ''a'' \<inter> member_of two_namespaces ''b'' \<noteq> {}"
    by (auto simp: member_of_def two_namespaces_map)
  moreover have "can_communicate [''y'', ''x''] two_namespaces ''a'' ''b''"
    "\<not> can_communicate [''x'', ''y''] two_namespaces ''a'' ''b''"
    using reachable_created [OF two_namespaces_reachable]
    by (simp_all add: can_communicate_def two_namespaces_map)
  moreover have "enumerates [''y'', ''x''] (nm_namespaces two_namespaces)"
    "enumerates [''x'', ''y''] (nm_namespaces two_namespaces)"
    by (auto simp: enumerates_def two_namespaces_map)
  ultimately show ?thesis using two_namespaces_reachable by blast
qed

theorem namespaces_well_founded_witness:
  "nm_namespaces two_namespaces ''y'' \<noteq> None \<and> wf ((parent_of two_namespaces)\<inverse>)"
  using namespaces_well_founded [OF two_namespaces_reachable] by (simp add: two_namespaces_map)

theorem communicate_iff_shared_namespace_witness:
  "\<exists>m. nm_reachable m \<and> can_communicate [''x''] m ''a'' ''b''"
proof -
  let ?m = "snd (add_member ''x'' ''b'' (snd (add_member ''x'' ''a''
     (snd (create_namespace ''x'' [] None nm_new)))))"
  have reach: "nm_reachable ?m" by (intro nm_reachable.intros)
  have map: "nm_namespaces ?m =
      [''x'' \<mapsto> \<lparr>ns_name = ''x'', ns_description = [], ns_parent = None, ns_members = {''a'', ''b''}\<rparr>]"
    by (auto simp: create_namespace_def add_member_def nm_new_def)
  have en: "enumerates [''x''] (nm_namespaces ?m)" unfolding map by (simp add: enumerates_def)
  have "member_of ?m ''a'' = {''x''}" "member_of ?m ''b'' = {''x''}"
    unfolding member_of_def map by auto
  with communicate_iff_shared_namespace [OF reach en, of "''a''" "''x''" "''b''" "''x''"] reach
  show ?thesis by auto
qed

end
