(* ===== verification/Os_Kernel.thy ===== *)
theory Os_Kernel
  imports Json Externals
begin

text \<open>
  The kernel of the agent operating system, \<open>crates/core/os/src/lib.rs\<close>: the trait
  \<open>StateBackend\<close> with its contract \<open>state_backend\<close>, the backend in memory that interprets
  it, and \<open>StatelessKernel\<close>, which runs on any backend. An operation that panics gives
  \<open>None\<close>; \<open>now\<close> is what \<open>Instant::now()\<close> reads.
\<close>

section \<open>The trait and its contract\<close>

type_synonym 'a outcome = "'a res option" \<comment> \<open>\<open>None\<close>: a panic\<close>
type_synonym instant = int

record 'b state_ops =
  sb_get :: "instant \<Rightarrow> 'b \<Rightarrow> string \<Rightarrow> json_map option outcome \<times> 'b"
  sb_set :: "instant \<Rightarrow> 'b \<Rightarrow> string \<Rightarrow> json_map \<Rightarrow> u64 option \<Rightarrow> unit outcome \<times> 'b"
  sb_delete :: "'b \<Rightarrow> string \<Rightarrow> unit outcome \<times> 'b"

text \<open>
  \<open>live s t k\<close> is the value a backend in state \<open>s\<close> holds under \<open>k\<close> at time \<open>t\<close>; reading
  changes nothing that could be read later, and a value set without a lifetime stays.
\<close>

locale state_backend =
  fixes B :: "'b state_ops"
    and live :: "'b \<Rightarrow> instant \<Rightarrow> string \<rightharpoonup> json_map"
    and usable :: "'b \<Rightarrow> bool"
  assumes get: "usable s \<Longrightarrow> \<exists>s'. sb_get B now s k = (Some (Inr (live s now k)), s') \<and> usable s' \<and>
      (\<forall>t k'. now \<le> t \<longrightarrow> live s' t k' = live s t k')"
    and set: "usable s \<Longrightarrow> \<exists>s'. sb_set B now s k v None = (Some (Inr ()), s') \<and> usable s' \<and>
      (\<forall>t k'. live s' t k' = (if k' = k then Some v else live s t k'))"
    and delete: "usable s \<Longrightarrow> \<exists>s'. sb_delete B s k = (Some (Inr ()), s') \<and> usable s' \<and>
      (\<forall>t k'. live s' t k' = (if k' = k then None else live s t k'))"

section \<open>\<open>MemoryBackend\<close>\<close>

record memory_backend =
  mb_store :: "string \<rightharpoonup> json_map \<times> instant option"
  mb_poisoned :: bool

definition mb_new :: memory_backend where
  "mb_new = \<lparr>mb_store = Map.empty, mb_poisoned = False\<rparr>"

definition mb_get ::
  "instant \<Rightarrow> memory_backend \<Rightarrow> string \<Rightarrow> json_map option outcome \<times> memory_backend" where
  "mb_get now s key =
     (if mb_poisoned s then (None, s)
      else case mb_store s key of
        Some (val, Some expiry) \<Rightarrow>
          if expiry \<le> now then (Some (Inr None), s\<lparr>mb_store := (mb_store s)(key := None)\<rparr>)
          else (Some (Inr (Some val)), s)
      | Some (val, None) \<Rightarrow> (Some (Inr (Some val)), s)
      | None \<Rightarrow> (Some (Inr None), s))"

text \<open>
  \<open>Instant + Duration::from_secs(t)\<close> panics when the seconds leave the range of \<open>i64\<close>. The
  lock is held then, so it is poisoned and every later call panics on \<open>unwrap\<close>.
\<close>

definition instant_add_secs :: "instant \<Rightarrow> u64 \<Rightarrow> instant option" where
  "instant_add_secs now t =
     (if now div 1000000000 + uint t < 2 ^ 63 then Some (now + secs (uint t)) else None)"

definition mb_set ::
  "instant \<Rightarrow> memory_backend \<Rightarrow> string \<Rightarrow> json_map \<Rightarrow> u64 option \<Rightarrow> unit outcome \<times> memory_backend" where
  "mb_set now s key val ttl =
     (if mb_poisoned s then (None, s)
      else case ttl of
        None \<Rightarrow> (Some (Inr ()), s\<lparr>mb_store := (mb_store s)(key \<mapsto> (val, None))\<rparr>)
      | Some t \<Rightarrow> (case instant_add_secs now t of
          None \<Rightarrow> (None, s\<lparr>mb_poisoned := True\<rparr>)
        | Some expiry \<Rightarrow>
            (Some (Inr ()), s\<lparr>mb_store := (mb_store s)(key \<mapsto> (val, Some expiry))\<rparr>)))"

definition mb_delete :: "memory_backend \<Rightarrow> string \<Rightarrow> unit outcome \<times> memory_backend" where
  "mb_delete s key =
     (if mb_poisoned s then (None, s)
      else (Some (Inr ()), s\<lparr>mb_store := (mb_store s)(key := None)\<rparr>))"

definition memory_backend_ops :: "memory_backend state_ops" where
  "memory_backend_ops = \<lparr>sb_get = mb_get, sb_set = mb_set, sb_delete = mb_delete\<rparr>"

definition mb_live :: "memory_backend \<Rightarrow> instant \<Rightarrow> string \<rightharpoonup> json_map" where
  "mb_live s t k = (case mb_store s k of
       None \<Rightarrow> None
     | Some (val, expiry) \<Rightarrow>
         (case expiry of None \<Rightarrow> Some val | Some e \<Rightarrow> if e \<le> t then None else Some val))"

lemmas mb_defs = memory_backend_ops_def mb_get_def mb_set_def mb_delete_def mb_live_def

interpretation mb: state_backend memory_backend_ops mb_live "\<lambda>s. \<not> mb_poisoned s"
proof unfold_locales
  fix s :: memory_backend and now k
  assume "\<not> mb_poisoned s"
  then show "\<exists>s'. sb_get memory_backend_ops now s k = (Some (Inr (mb_live s now k)), s') \<and>
      \<not> mb_poisoned s' \<and> (\<forall>t k'. now \<le> t \<longrightarrow> mb_live s' t k' = mb_live s t k')"
    by (cases "mb_store s k") (auto simp: mb_defs split: option.splits)
qed (simp_all add: mb_defs)

section \<open>The kernel\<close>

record execution_context =
  ec_agent_id :: string
  ec_policies :: "string list"
  ec_history :: "json_map list"
  ec_state_ref :: "string option"
  ec_metadata :: json_map

record execution_result =
  er_success :: bool
  er_data :: "json option"
  er_error :: "string option"
  er_signal :: "string option"
  er_updated_context :: "execution_context option"
  er_metadata :: json_map

record 'b kernel =
  kn_backend :: 'b
  kn_policies :: json_map

text \<open>\<open>StatelessKernel::new\<close> with a backend given.\<close>

definition kernel_new :: "'b \<Rightarrow> json_map option \<Rightarrow> 'b kernel" where
  "kernel_new backend policies = \<lparr>kn_backend = backend,
     kn_policies = (case policies of None \<Rightarrow> Map.empty | Some p \<Rightarrow> p)\<rparr>"

fun check_policies :: "json_map \<Rightarrow> string \<Rightarrow> string list \<Rightarrow> unit res" where
  "check_policies policies action [] = Inr ()"
| "check_policies policies action (policy_name # names) =
     (case policies policy_name of
        None \<Rightarrow> check_policies policies action names
      | Some policy \<Rightarrow>
          (case Option.bind (json_get policy ''blocked_actions'') json_as_array of
             None \<Rightarrow> check_policies policies action names
           | Some blocked \<Rightarrow>
               if \<exists>a\<in>set blocked. a = Jstr action
               then Inl (''Action '' @ [CHR 0x27] @ action @ [CHR 0x27] @ '' blocked by policy '' @
                         [CHR 0x27] @ policy_name @ [CHR 0x27])
               else check_policies policies action names))"

definition execute_stub :: "string \<Rightarrow> json_map \<Rightarrow> json_map \<Rightarrow> json_map" where
  "execute_stub action params state = [''data'' \<mapsto> Jobj [(''status'', Jstr ''executed'')]]"

text \<open>
  Step 4 of \<open>execute\<close>: the new state is stored under the context's reference, or a new one.
\<close>

definition apply_update :: "json \<Rightarrow> json_map \<Rightarrow> json_map" where
  "apply_update state_update external_state = (case json_as_object state_update of
       None \<Rightarrow> external_state
     | Some members \<Rightarrow> fold (\<lambda>(k, v) st. st(k \<mapsto> v)) members external_state)"

definition kernel_execute ::
  "'b state_ops \<Rightarrow> instant \<Rightarrow> string \<Rightarrow> json_map \<Rightarrow> execution_context \<Rightarrow> 'b kernel \<Rightarrow>
     execution_result outcome \<times> 'b kernel" where
  "kernel_execute B now action params ctx k =
     (case (case ec_state_ref ctx of
              None \<Rightarrow> (Some (Inr None), kn_backend k)
            | Some state_ref \<Rightarrow> sb_get B now (kn_backend k) state_ref) of
        (None, b) \<Rightarrow> (None, k\<lparr>kn_backend := b\<rparr>)
      | (Some (Inl e), b) \<Rightarrow> (Some (Inl e), k\<lparr>kn_backend := b\<rparr>)
      | (Some (Inr loaded), b) \<Rightarrow>
          let k1 = k\<lparr>kn_backend := b\<rparr>;
              external_state = (case loaded of None \<Rightarrow> Map.empty | Some st \<Rightarrow> st)
          in (case check_policies (kn_policies k) action (ec_policies ctx) of
                Inl e \<Rightarrow> (Some (Inr \<lparr>er_success = False, er_data = None, er_error = Some e,
                    er_signal = Some ''SIGKILL'', er_updated_context = None,
                    er_metadata = Map.empty\<rparr>), k1)
              | Inr _ \<Rightarrow>
                  let result = execute_stub action params external_state;
                      done = (\<lambda>new_state_ref. Some (Inr \<lparr>er_success = True,
                          er_data = Some (case result ''data'' of None \<Rightarrow> Jnull | Some d \<Rightarrow> d),
                          er_error = None, er_signal = None,
                          er_updated_context = Some (ctx\<lparr>ec_state_ref := new_state_ref\<rparr>),
                          er_metadata = Map.empty\<rparr>))
                  in (case result ''state_update'' of
                        None \<Rightarrow> (done (ec_state_ref ctx), k1)
                      | Some state_update \<Rightarrow>
                          let state_ref = (case ec_state_ref ctx of
                                  None \<Rightarrow> ''state:'' @ ec_agent_id ctx | Some r \<Rightarrow> r)
                          in (case sb_set B now b state_ref (apply_update state_update external_state) None of
                                (None, b') \<Rightarrow> (None, k\<lparr>kn_backend := b'\<rparr>)
                              | (Some (Inl e), b') \<Rightarrow> (Some (Inl e), k\<lparr>kn_backend := b'\<rparr>)
                              | (Some (Inr _), b') \<Rightarrow> (done (Some state_ref), k\<lparr>kn_backend := b'\<rparr>)))))"

section \<open>What \<open>execute\<close> does on any backend\<close>

text \<open>The first policy of the context that blocks the action; a name nobody registered blocks nothing.\<close>

definition blocks :: "json_map \<Rightarrow> string \<Rightarrow> string \<Rightarrow> bool" where
  "blocks policies action name \<longleftrightarrow> (\<exists>policy blocked. policies name = Some policy \<and>
     json_get policy ''blocked_actions'' = Some (Jarr blocked) \<and> Jstr action \<in> set blocked)"

lemma json_as_array_eq: "json_as_array v = Some vs \<longleftrightarrow> v = Jarr vs"
  by (cases v) auto

lemma check_policies_eq:
  "check_policies policies action names = (case List.find (blocks policies action) names of
     None \<Rightarrow> Inr ()
   | Some name \<Rightarrow> Inl (''Action '' @ [CHR 0x27] @ action @ [CHR 0x27] @ '' blocked by policy '' @
                     [CHR 0x27] @ name @ [CHR 0x27]))"
proof (induction names)
  case (Cons name names)
  show ?case
  proof (cases "blocks policies action name")
    case True
    then obtain policy blocked where "policies name = Some policy"
      "json_get policy ''blocked_actions'' = Some (Jarr blocked)" "Jstr action \<in> set blocked"
      unfolding blocks_def by blast
    with True show ?thesis by simp
  next
    case False
    then have "check_policies policies action (name # names) = check_policies policies action names"
      by (auto simp: blocks_def Option.bind_eq_Some_conv json_as_array_eq split: option.splits)
    with False Cons show ?thesis by simp
  qed
qed simp

definition kernel_verdict :: "json_map \<Rightarrow> string \<Rightarrow> execution_context \<Rightarrow> execution_result" where
  "kernel_verdict policies action ctx = (case List.find (blocks policies action) (ec_policies ctx) of
       Some name \<Rightarrow> \<lparr>er_success = False, er_data = None,
         er_error = Some (''Action '' @ [CHR 0x27] @ action @ [CHR 0x27] @ '' blocked by policy '' @
                     [CHR 0x27] @ name @ [CHR 0x27]),
         er_signal = Some ''SIGKILL'', er_updated_context = None, er_metadata = Map.empty\<rparr>
     | None \<Rightarrow> \<lparr>er_success = True, er_data = Some (Jobj [(''status'', Jstr ''executed'')]),
         er_error = None, er_signal = None, er_updated_context = Some ctx, er_metadata = Map.empty\<rparr>)"

context state_backend
begin

lemma execute_effect:
  assumes "usable (kn_backend k)"
  shows "\<exists>k'. kernel_execute B now action params ctx k =
      (Some (Inr (kernel_verdict (kn_policies k) action ctx)), k') \<and>
    usable (kn_backend k') \<and> kn_policies k' = kn_policies k \<and>
    (\<forall>t key. now \<le> t \<longrightarrow> live (kn_backend k') t key = live (kn_backend k) t key)"
proof -
  obtain loaded b where b: "(case ec_state_ref ctx of
        None \<Rightarrow> (Some (Inr None), kn_backend k)
      | Some state_ref \<Rightarrow> sb_get B now (kn_backend k) state_ref) = (Some (Inr loaded), b)"
    and same: "usable b" "\<forall>t key. now \<le> t \<longrightarrow> live b t key = live (kn_backend k) t key"
    using get [OF assms, of now] assms by (cases "ec_state_ref ctx") force+
  have "kernel_execute B now action params ctx k =
      (Some (Inr (kernel_verdict (kn_policies k) action ctx)), k\<lparr>kn_backend := b\<rparr>)"
    unfolding kernel_execute_def b
    by (cases "List.find (blocks (kn_policies k) action) (ec_policies ctx)")
      (simp_all add: check_policies_eq kernel_verdict_def execute_stub_def Let_def)
  with same show ?thesis by simp
qed

end

section \<open>Properties\<close>

text \<open>
  C33: every execution on the backend in memory returns. It is killed, with the name of the
  first policy to blame, exactly when a policy the context names blocks the action;
  otherwise it succeeds with the stub's answer and the context as it was, the history
  included. Either way nothing that can be read from the backend changes.
\<close>

theorem kernel_executes_by_policy:
  assumes "\<not> mb_poisoned (kn_backend k)"
  shows "\<exists>k'. kernel_execute memory_backend_ops now action params ctx k =
      (Some (Inr (kernel_verdict (kn_policies k) action ctx)), k') \<and>
    (er_signal (kernel_verdict (kn_policies k) action ctx) = Some ''SIGKILL'' \<longleftrightarrow>
       (\<exists>name\<in>set (ec_policies ctx). blocks (kn_policies k) action name)) \<and>
    (\<forall>t key. now \<le> t \<longrightarrow> mb_live (kn_backend k') t key = mb_live (kn_backend k) t key)"
proof -
  have "er_signal (kernel_verdict (kn_policies k) action ctx) = Some ''SIGKILL'' \<longleftrightarrow>
      (\<exists>name\<in>set (ec_policies ctx). blocks (kn_policies k) action name)"
    by (auto simp: kernel_verdict_def find_None_iff find_Some_iff split: option.splits)
  with mb.execute_effect [OF assms, of now action params ctx] show ?thesis by blast
qed

definition read_only_kernel :: "memory_backend kernel" where
  "read_only_kernel = kernel_new mb_new
     (Some [''read_only'' \<mapsto> Jobj [(''blocked_actions'', Jarr [Jstr ''file_write''])]])"

definition read_only_context :: execution_context where
  "read_only_context = \<lparr>ec_agent_id = ''test-agent'', ec_policies = [''read_only''], ec_history = [],
     ec_state_ref = None, ec_metadata = Map.empty\<rparr>"

theorem kernel_executes_by_policy_witness:
  "\<exists>r r' k k'. kernel_execute memory_backend_ops 0 ''read_file'' Map.empty read_only_context read_only_kernel
       = (Some (Inr r), k) \<and> er_success r \<and>
     kernel_execute memory_backend_ops 0 ''file_write'' Map.empty read_only_context read_only_kernel
       = (Some (Inr r'), k') \<and> er_signal r' = Some ''SIGKILL''"
proof -
  have ok: "\<not> mb_poisoned (kn_backend read_only_kernel)"
    by (simp add: read_only_kernel_def kernel_new_def mb_new_def)
  show ?thesis
    using kernel_executes_by_policy [OF ok, of 0 "''read_file''" Map.empty read_only_context]
      kernel_executes_by_policy [OF ok, of 0 "''file_write''" Map.empty read_only_context]
    by (auto simp: kernel_verdict_def read_only_kernel_def read_only_context_def kernel_new_def blocks_def)
qed

text \<open>
  A lifetime that overflows the clock panics while the lock is held: from then on every
  operation of the backend panics.
\<close>

theorem overflowing_lifetime_poisons:
  assumes "\<not> mb_poisoned s" and "2 ^ 63 \<le> now div 1000000000 + uint ttl"
    and "mb_set now s key v (Some ttl) = (r, s')"
  shows "r = None \<and> fst (mb_get t s' key') = None \<and> fst (mb_set t s' key' v' ttl') = None \<and>
    fst (mb_delete s' key') = None"
  using assms by (auto simp: mb_defs instant_add_secs_def)

theorem overflowing_lifetime_poisons_witness:
  "fst (mb_get 0 (snd (mb_set 0 mb_new ''k'' Map.empty (Some (2 ^ 63)))) ''k'') = None"
proof -
  have p: "\<not> mb_poisoned mb_new" "(2 :: int) ^ 63 \<le> 0 div 1000000000 + uint (2 ^ 63 :: u64)"
    by (simp_all add: mb_new_def)
  obtain r s' where "mb_set 0 mb_new ''k'' Map.empty (Some (2 ^ 63)) = (r, s')" by fastforce
  from overflowing_lifetime_poisons [OF p this, of 0 "''k''"] this show ?thesis by simp
qed

end
