(* ===== verification/Lifecycle.thy ===== *)
theory Lifecycle
  imports Externals
begin

text \<open>
  Provisioned agents, \<open>crates/core/mesh/src/lifecycle/manager.rs\<close>: the states an agent of
  the manager could be in and the one operation there is; and the stub of the saga orchestrator.
\<close>

datatype agent_lifecycle_state =
    PendingApproval | Provisioned | Active | Suspended | RotatingCredentials | Orphaned
  | Decommissioning | Decommissioned

record managed_agent =
  ma_agent_id :: string
  ma_name :: string
  ma_owner :: string
  ma_state :: agent_lifecycle_state

type_synonym lifecycle_manager = "string \<rightharpoonup> managed_agent"

definition lm_new :: lifecycle_manager where
  "lm_new = Map.empty"

definition request_provisioning ::
  "ext \<Rightarrow> uuid \<Rightarrow> string \<Rightarrow> string \<Rightarrow> lifecycle_manager \<Rightarrow> managed_agent \<times> lifecycle_manager" where
  "request_provisioning X u name owner agents =
     (let agent_id = ''agent:'' @ uuid_simple X u;
          agent = \<lparr>ma_agent_id = agent_id, ma_name = name, ma_owner = owner, ma_state = Provisioned\<rparr>
      in (agent, agents(agent_id \<mapsto> agent)))"

text \<open>
  A manager after requests with the given identifiers holds exactly one agent for each,
  under its own identifier; all of them are provisioned without an approval, and the other
  seven states are never entered.
\<close>

definition request_all ::
  "ext \<Rightarrow> (uuid \<times> string \<times> string) list \<Rightarrow> lifecycle_manager \<Rightarrow> lifecycle_manager" where
  "request_all X rs m = fold (\<lambda>(u, n, ow) m. snd (request_provisioning X u n ow m)) rs m"

theorem requested_agents_are_provisioned:
  assumes "inj_on (uuid_simple X) (fst ` set rs)" and "distinct (map fst rs)"
  shows "request_all X rs lm_new i = Some a \<longleftrightarrow>
    (\<exists>(u, n, ow)\<in>set rs. i = ''agent:'' @ uuid_simple X u \<and>
       a = \<lparr>ma_agent_id = i, ma_name = n, ma_owner = ow, ma_state = Provisioned\<rparr>)"
  using assms
proof (induction rs arbitrary: i a rule: rev_induct)
  case Nil
  then show ?case by (simp add: request_all_def lm_new_def)
next
  case (snoc r rs)
  obtain u n ow where r: "r = (u, n, ow)" by (cases r)
  have IH: "request_all X rs lm_new j = Some b \<longleftrightarrow>
      (\<exists>(u, n, ow)\<in>set rs. j = ''agent:'' @ uuid_simple X u \<and>
         b = \<lparr>ma_agent_id = j, ma_name = n, ma_owner = ow, ma_state = Provisioned\<rparr>)" for j b
    by (rule snoc.IH) (use snoc.prems in \<open>auto simp: inj_on_def\<close>)
  have fresh: "uuid_simple X v \<noteq> uuid_simple X u" if "(v, w) \<in> set rs" for v w
  proof -
    have "v \<noteq> u" using that snoc.prems(2) r by force
    moreover have "v \<in> fst ` set (rs @ [r])" "u \<in> fst ` set (rs @ [r])" using that r by force+
    ultimately show ?thesis using snoc.prems(1) inj_onD by metis
  qed
  have step: "request_all X (rs @ [r]) lm_new = (request_all X rs lm_new)(''agent:'' @ uuid_simple X u \<mapsto>
      \<lparr>ma_agent_id = ''agent:'' @ uuid_simple X u, ma_name = n, ma_owner = ow, ma_state = Provisioned\<rparr>)"
    by (simp add: request_all_def request_provisioning_def r Let_def)
  show ?case
  proof (cases "i = ''agent:'' @ uuid_simple X u")
    case True
    then show ?thesis unfolding step by (auto simp: r dest: fresh)
  next
    case False
    then show ?thesis unfolding step using IH [of i a] by (auto simp: r)
  qed
qed

theorem requested_agents_are_provisioned_witness:
  "\<exists>a. request_all toy_ext [(1, ''scout'', ''ops'')] lm_new (''agent:'' @ uuid_simple toy_ext 1) = Some a \<and>
     ma_state a = Provisioned"
  using requested_agents_are_provisioned [of toy_ext "[(1, ''scout'', ''ops'')]"
      "''agent:'' @ uuid_simple toy_ext 1"] by simp

section \<open>Sagas\<close>

text \<open>
  \<open>crates/core/runtime/src/saga/orchestrator.rs\<close> is a stub: it reports success and runs no step
  of the workflow.
\<close>

datatype saga_orchestrator = Saga_orchestrator

definition saga_new :: saga_orchestrator where "saga_new = Saga_orchestrator"

definition execute_saga :: "saga_orchestrator \<Rightarrow> string list \<Rightarrow> unit res" where
  "execute_saga orchestrator workflow = Inr ()"

end
