(* ===== verification/Transport.thy ===== *)
theory Transport
  imports Identity Json "HOL-Library.Word"
begin

text \<open>
  Message transport, \<open>crates/core/mesh/src/transport\<close>: the trait \<open>Transport\<close> as a record of
  operations, and the transport over a WebSocket (\<open>websocket.rs\<close>) with its state machine.
  \<open>tokio_tungstenite\<close> is a parameter: what a connect, a close or a send came to is an
  argument of the operation, and what a stream delivers is a list of its events. The
  configuration of mutual TLS (\<open>identity/mtls.rs\<close>) is here, too.
\<close>

section \<open>\<open>base.rs\<close>\<close>

datatype transport_state = Disconnected | Connecting | Connected | Reconnecting

record transport_config =
  tc_host :: string
  tc_port :: "16 word"
  tc_use_tls :: bool
  tc_timeout_seconds :: u64
  tc_max_retries :: u32
  tc_retry_delay_seconds :: string \<comment> \<open>an \<open>f64\<close> nobody reads\<close>
  tc_metadata :: "string \<rightharpoonup> string"

text \<open>The trait's provided method \<open>is_connected\<close>.\<close>

definition is_connected :: "('t \<Rightarrow> transport_state) \<Rightarrow> 't \<Rightarrow> bool" where
  "is_connected state t \<longleftrightarrow> state t = Connected"

section \<open>\<open>websocket.rs\<close>\<close>

text \<open>\<open>Message\<close>, as far as \<open>receive\<close> looks at it: a text, or anything else.\<close>

datatype ws_message = Text string | Other

text \<open>
  A stream is known by an identifier \<open>'s\<close>. A transport keeps it in \<open>wt_stream\<close>.
\<close>

record 's ws_transport =
  wt_config :: transport_config
  wt_state :: transport_state
  wt_stream :: "'s option"

definition wt_new :: "transport_config \<Rightarrow> 's ws_transport" where
  "wt_new config = \<lparr>wt_config = config, wt_state = Disconnected, wt_stream = None\<rparr>"

definition decimal :: "nat \<Rightarrow> string" where
  "decimal n = (if n = 0 then ''0'' else
     rev (map (\<lambda>i. char_of (48 + n div 10 ^ i mod 10 :: nat)) (filter (\<lambda>i. 10 ^ i \<le> n) [0..<20])))"

definition connect_url :: "transport_config \<Rightarrow> string" where
  "connect_url c = ''ws://'' @ tc_host c @ '':'' @ decimal (unat (tc_port c))"

text \<open>\<open>outcome url\<close> is what \<open>connect_async(url)\<close> gives.\<close>

definition wt_connect :: "(string \<Rightarrow> 's res) \<Rightarrow> 's ws_transport \<Rightarrow> unit res \<times> 's ws_transport" where
  "wt_connect outcome t =
     (let t1 = t\<lparr>wt_state := Connecting\<rparr> in
      case outcome (connect_url (wt_config t1)) of
        Inl e \<Rightarrow> (Inl e, t1)
      | Inr stream \<Rightarrow> (Inr (), t1\<lparr>wt_stream := Some stream, wt_state := Connected\<rparr>))"

definition wt_disconnect :: "('s \<Rightarrow> unit res) \<Rightarrow> 's ws_transport \<Rightarrow> unit res \<times> 's ws_transport" where
  "wt_disconnect close t =
     (case wt_stream t of
        None \<Rightarrow> (Inr (), t\<lparr>wt_state := Disconnected\<rparr>)
      | Some stream \<Rightarrow>
          let t1 = t\<lparr>wt_stream := None\<rparr> in
          (case close stream of
             Inl e \<Rightarrow> (Inl e, t1)
           | Inr _ \<Rightarrow> (Inr (), t1\<lparr>wt_state := Disconnected\<rparr>)))"

text \<open>\<open>send\<close> puts the text of the payload, \<open>to_string\<close>, on the stream; the topic is dropped.\<close>

definition wt_send ::
  "('s \<Rightarrow> string \<Rightarrow> unit res) \<Rightarrow> (json \<Rightarrow> string) \<Rightarrow> string \<Rightarrow> json \<Rightarrow> 's ws_transport \<Rightarrow>
     unit res \<times> 's ws_transport" where
  "wt_send put to_string topic payload t =
     (case wt_stream t of
        Some stream \<Rightarrow> (put stream (to_string payload), t)
      | None \<Rightarrow> (Inl ''Not connected'', t))"

text \<open>
  \<open>receive\<close> waits for the next text; the list holds what the stream delivers, its end is the
  closed stream. The timeout is not used. \<open>of_json\<close> is \<open>serde_json::from_str\<close>.
\<close>

fun next_text :: "(string \<Rightarrow> json res) \<Rightarrow> (string + ws_message) list \<Rightarrow> json res \<times> (string + ws_message) list" where
  "next_text of_json [] = (Inl ''Not connected or closed'', [])"
| "next_text of_json (Inl e # rest) = (Inl e, rest)"
| "next_text of_json (Inr (Text s) # rest) = (of_json s, rest)"
| "next_text of_json (Inr Other # rest) = next_text of_json rest"

definition wt_receive ::
  "(string \<Rightarrow> json res) \<Rightarrow> ('s \<Rightarrow> (string + ws_message) list) \<Rightarrow> duration option \<Rightarrow> 's ws_transport \<Rightarrow>
     json res \<times> 's ws_transport" where
  "wt_receive of_json events timeout t =
     (case wt_stream t of
        Some stream \<Rightarrow> (fst (next_text of_json (events stream)), t)
      | None \<Rightarrow> (Inl ''Not connected or closed'', t))"

section \<open>Histories\<close>

text \<open>The operations that change a transport, with what the network made of them.\<close>

inductive wt_step :: "'s ws_transport \<Rightarrow> 's ws_transport \<Rightarrow> bool" where
  connect: "wt_step t (snd (wt_connect outcome t))"
| disconnect: "wt_step t (snd (wt_disconnect close t))"

inductive wt_reachable :: "transport_config \<Rightarrow> 's ws_transport \<Rightarrow> bool" for config where
  start: "wt_reachable config (wt_new config)"
| step: "wt_reachable config t \<Longrightarrow> wt_step t t' \<Longrightarrow> wt_reachable config t'"

inductive_cases wt_stepE: "wt_step t t'"

text \<open>
  In every history the transport keeps its configuration, is never in state \<open>Reconnecting\<close>,
  and has no stream while it is \<open>Disconnected\<close>, so sending and receiving are refused then.
\<close>

theorem transport_invariant:
  assumes "wt_reachable config t"
  shows "wt_config t = config \<and> wt_state t \<noteq> Reconnecting \<and>
    (wt_state t = Disconnected \<longrightarrow> wt_stream t = None \<and>
       fst (wt_send put to_string topic payload t) = Inl ''Not connected'' \<and>
       fst (wt_receive of_json events timeout t) = Inl ''Not connected or closed'')"
proof -
  have "wt_config t = config \<and> wt_state t \<noteq> Reconnecting \<and> (wt_state t = Disconnected \<longrightarrow> wt_stream t = None)"
    using assms
  proof induction
    case start
    then show ?case by (simp add: wt_new_def)
  next
    case (step t t')
    from step.hyps(2) step.IH show ?case
      by (cases rule: wt_stepE)
        (auto simp: wt_connect_def wt_disconnect_def Let_def split: sum.splits option.splits)
  qed
  then show ?thesis by (simp add: wt_send_def wt_receive_def)
qed

text \<open>
  A close that fails leaves a transport that calls itself connected and has no stream; a
  connect that fails while connected leaves one in state \<open>Connecting\<close> that still sends on
  the old stream.
\<close>

theorem failed_calls_leave_wrong_state:
  assumes "wt_stream t = Some stream" and "wt_state t = Connected"
    and "close stream = Inl e" and "outcome (connect_url (wt_config t)) = Inl e'"
  shows "is_connected wt_state (snd (wt_disconnect close t)) \<and>
    fst (wt_send put to_string topic payload (snd (wt_disconnect close t))) = Inl ''Not connected'' \<and>
    \<not> is_connected wt_state (snd (wt_connect outcome t)) \<and>
    fst (wt_send put to_string topic payload (snd (wt_connect outcome t))) = put stream (to_string payload)"
  using assms by (simp add: is_connected_def wt_disconnect_def wt_connect_def wt_send_def)

text \<open>The URL does not depend on \<open>use_tls\<close>: the connection is always in the clear.\<close>

lemma tls_is_ignored: "connect_url (c\<lparr>tc_use_tls := b\<rparr>) = connect_url c"
  by (simp add: connect_url_def)

definition sample_config :: transport_config where
  "sample_config = \<lparr>tc_host = ''localhost'', tc_port = 8080, tc_use_tls = True, tc_timeout_seconds = 5,
     tc_max_retries = 3, tc_retry_delay_seconds = ''1'', tc_metadata = Map.empty\<rparr>"

lemma sample_connected:
  "snd (wt_connect Inr (wt_new sample_config)) =
     \<lparr>wt_config = sample_config, wt_state = Connected, wt_stream = Some (connect_url sample_config)\<rparr>"
  by (simp add: wt_connect_def wt_new_def)

theorem transport_invariant_witness:
  "\<exists>t. wt_reachable sample_config t \<and> wt_stream t = Some (connect_url sample_config) \<and> wt_config t = sample_config"
proof -
  let ?t = "snd (wt_connect Inr (wt_new sample_config))"
  have r: "wt_reachable sample_config ?t" by (rule step [OF start connect])
  from transport_invariant [OF r] have "wt_config ?t = sample_config" by blast
  with r sample_connected show ?thesis by (intro exI [of _ ?t]) simp
qed

theorem failed_calls_leave_wrong_state_witness:
  "is_connected wt_state (snd (wt_disconnect (\<lambda>_. Inl ''broken pipe'') (snd (wt_connect Inr (wt_new sample_config)))))"
  using failed_calls_leave_wrong_state [of "snd (wt_connect Inr (wt_new sample_config))" "connect_url sample_config"
      "\<lambda>_. Inl ''broken pipe''" "''broken pipe''" "\<lambda>_. Inl ''refused''" "''refused''"]
  by (simp add: sample_connected)

section \<open>\<open>mtls.rs\<close>\<close>

record mtls_config =
  mc_cert_path :: "string option"
  mc_key_path :: "string option"
  mc_ca_cert_path :: "string option"
  mc_verify_peer :: bool
  mc_require_client_cert :: bool

definition mtls_config_default :: mtls_config where
  "mtls_config_default = \<lparr>mc_cert_path = None, mc_key_path = None, mc_ca_cert_path = None,
     mc_verify_peer = True, mc_require_client_cert = True\<rparr>"

record mtls_identity_verifier =
  mv_identity :: agent_identity
  mv_config :: mtls_config

definition mtls_new :: "agent_identity \<Rightarrow> mtls_config option \<Rightarrow> mtls_identity_verifier" where
  "mtls_new identity config = \<lparr>mv_identity = identity,
     mv_config = (case config of None \<Rightarrow> mtls_config_default | Some c \<Rightarrow> c)\<rparr>"

text \<open>
  \<open>generate names\<close> is \<open>rcgen::generate_simple_self_signed\<close>: the certificate and its key, in
  PEM. The key is a new one, not the agent's.
\<close>

definition create_self_signed_cert ::
  "(string list \<Rightarrow> (string \<times> string) res) \<Rightarrow> mtls_identity_verifier \<Rightarrow> (string \<times> string) res" where
  "create_self_signed_cert generate v = generate [did_display (ai_did (mv_identity v))]"

text \<open>Without a configuration peers are verified and clients need a certificate.\<close>

lemma mtls_default_verifies:
  "mc_verify_peer (mv_config (mtls_new identity None)) \<and> mc_require_client_cert (mv_config (mtls_new identity None))"
  by (simp add: mtls_new_def mtls_config_default_def)

end
