(* ===== verification/Grpc_Convert.thy ===== *)
theory Grpc_Convert
  imports Daemon_Auth Discovery
begin

text \<open>
  The messages of the gRPC services and their conversions, \<open>crates/daemon/src/grpc/convert.rs\<close>.
  The message types are those of the \<open>.proto\<close> files, with optional sub-messages as options;
  an enumeration is the number on the wire. \<open>chrono\<close>'s \<open>timestamp_opt\<close> is a parameter.
\<close>

section \<open>Messages\<close>

record proto_timestamp =
  ts_seconds :: int
  ts_nanos :: "32 word"

record proto_did =
  pd_method :: string
  pd_unique_id :: string

record proto_identity =
  pid_did :: "proto_did option"
  pid_name :: string
  pid_public_key_b64 :: string
  pid_sponsor_email :: string
  pid_capabilities :: "string list"
  pid_ring :: int

record proto_claim =
  pcl_subject_did :: string
  pcl_public_key_b64 :: string
  pcl_issued_at :: "proto_timestamp option"
  pcl_expires_at :: "proto_timestamp option"

record proto_attestation =
  pat_claim :: "proto_claim option"
  pat_registry_did :: string
  pat_signature_b64 :: string

record proto_escalation_request =
  per_agent_did :: string
  per_current_ring :: int
  per_requested_ring :: int
  per_reason :: string
  per_timestamp :: "proto_timestamp option"

record proto_escalation_event =
  pev_event_id :: string
  pev_agent_did :: string
  pev_approver_did :: string
  pev_from_ring :: int
  pev_to_ring :: int
  pev_outcome :: string
  pev_reason :: string
  pev_timestamp :: "proto_timestamp option"

section \<open>Enumerations\<close>

text \<open>\<open>proto::PrivilegeRing\<close>: \<open>RING_UNKNOWN = 0\<close>, \<open>SYSTEM = 1\<close> to \<open>SANDBOXED = 4\<close>.\<close>

fun to_proto_ring :: "privilege_ring \<Rightarrow> int" where
  "to_proto_ring System = 1"
| "to_proto_ring Trusted = 2"
| "to_proto_ring Standard = 3"
| "to_proto_ring Sandboxed = 4"

definition from_proto_ring :: "int \<Rightarrow> grpc_status + privilege_ring" where
  "from_proto_ring n =
     (if n = 1 then Inr System else if n = 2 then Inr Trusted
      else if n = 3 then Inr Standard else if n = 4 then Inr Sandboxed
      else Inl (Invalid_argument, ''Unknown PrivilegeRing''))"

text \<open>\<open>proto::DataCategory\<close>: \<open>CATEGORY_UNKNOWN = 0\<close>, \<open>PERSONAL_DATA = 1\<close> to \<open>SYSTEM_CONFIG = 4\<close>.\<close>

fun to_proto_category :: "data_category \<Rightarrow> int" where
  "to_proto_category PersonalData = 1"
| "to_proto_category FinancialRecord = 2"
| "to_proto_category AuditLog = 3"
| "to_proto_category SystemConfig = 4"
| "to_proto_category Unknown = 0"

definition from_proto_category :: "int \<Rightarrow> data_category" where
  "from_proto_category n =
     (if n = 1 then PersonalData else if n = 2 then FinancialRecord
      else if n = 3 then AuditLog else if n = 4 then SystemConfig else Unknown)"

section \<open>Time\<close>

text \<open>\<open>dt.timestamp()\<close> and \<open>dt.timestamp_subsec_nanos() as i32\<close>.\<close>

definition to_proto_timestamp :: "datetime \<Rightarrow> proto_timestamp" where
  "to_proto_timestamp dt = \<lparr>ts_seconds = dt div 1000000000, ts_nanos = of_int (dt mod 1000000000)\<rparr>"

text \<open>\<open>Utc.timestamp_opt(seconds, nanos).single()\<close>.\<close>

type_synonym timestamp_opt = "int \<Rightarrow> 32 word \<Rightarrow> datetime option"

definition from_proto_timestamp :: "timestamp_opt \<Rightarrow> proto_timestamp \<Rightarrow> grpc_status + datetime" where
  "from_proto_timestamp T ts =
     ok_or (Invalid_argument, ''Invalid timestamp'') (T (ts_seconds ts) (ts_nanos ts))"

text \<open>
  Documented behaviour: seconds and nanoseconds below a second give back the time, for the
  times \<open>D\<close> that \<open>chrono\<close> can represent.
\<close>

definition timestamp_opt_ok :: "timestamp_opt \<Rightarrow> datetime set \<Rightarrow> bool" where
  "timestamp_opt_ok T D \<longleftrightarrow> (\<forall>s n. 0 \<le> n \<and> n < 1000000000 \<longrightarrow> s * 1000000000 + n \<in> D \<longrightarrow>
     T s (of_int n) = Some (s * 1000000000 + n))"

section \<open>Structures\<close>

definition to_proto_did :: "agent_did \<Rightarrow> proto_did" where
  "to_proto_did did = \<lparr>pd_method = did_method did, pd_unique_id = did_unique_id did\<rparr>"

definition from_proto_did :: "proto_did \<Rightarrow> agent_did" where
  "from_proto_did did = \<lparr>did_method = pd_method did, did_unique_id = pd_unique_id did\<rparr>"

definition to_proto_identity :: "agent_identity \<Rightarrow> privilege_ring \<Rightarrow> proto_identity" where
  "to_proto_identity i ring = \<lparr>pid_did = Some (to_proto_did (ai_did i)), pid_name = ai_name i,
     pid_public_key_b64 = ai_public_key i, pid_sponsor_email = ai_sponsor_email i,
     pid_capabilities = ai_capabilities i, pid_ring = to_proto_ring ring\<rparr>"

definition from_proto_identity :: "proto_identity \<Rightarrow> grpc_status + agent_identity" where
  "from_proto_identity p = (case pid_did p of
       None \<Rightarrow> Inl (Invalid_argument, ''Missing DID'')
     | Some did \<Rightarrow> Inr \<lparr>ai_did = from_proto_did did, ai_name = pid_name p,
         ai_public_key = pid_public_key_b64 p, ai_sponsor_email = pid_sponsor_email p,
         ai_capabilities = pid_capabilities p, ai_status = ''active'', ai_parent_did = None,
         ai_delegation_depth = 0, ai_private_key = None\<rparr>)"

definition to_proto_attestation :: "signed_attestation \<Rightarrow> proto_attestation" where
  "to_proto_attestation sa = \<lparr>pat_claim = Some \<lparr>pcl_subject_did = ac_subject_did (sa_claim sa),
       pcl_public_key_b64 = ac_public_key_b64 (sa_claim sa),
       pcl_issued_at = Some (to_proto_timestamp (ac_issued_at (sa_claim sa))),
       pcl_expires_at = Some (to_proto_timestamp (ac_expires_at (sa_claim sa)))\<rparr>,
     pat_registry_did = sa_registry_did sa, pat_signature_b64 = sa_signature_b64 sa\<rparr>"

definition from_proto_attestation :: "timestamp_opt \<Rightarrow> proto_attestation \<Rightarrow> grpc_status + signed_attestation" where
  "from_proto_attestation T p =
     res_bind (ok_or (Invalid_argument, ''Missing claim'') (pat_claim p)) (\<lambda>claim.
     res_bind (res_bind (ok_or (Invalid_argument, ''Missing issued_at'') (pcl_issued_at claim))
                (from_proto_timestamp T)) (\<lambda>issued_at.
     res_bind (res_bind (ok_or (Invalid_argument, ''Missing expires_at'') (pcl_expires_at claim))
                (from_proto_timestamp T)) (\<lambda>expires_at.
     Inr \<lparr>sa_claim = \<lparr>ac_subject_did = pcl_subject_did claim, ac_public_key_b64 = pcl_public_key_b64 claim,
            ac_issued_at = issued_at, ac_expires_at = expires_at\<rparr>,
          sa_registry_did = pat_registry_did p, sa_signature_b64 = pat_signature_b64 p\<rparr>)))"

definition to_proto_escalation_request :: "escalation_request \<Rightarrow> proto_escalation_request" where
  "to_proto_escalation_request req = \<lparr>per_agent_did = er_agent_did req,
     per_current_ring = to_proto_ring (er_current_ring req),
     per_requested_ring = to_proto_ring (er_requested_ring req), per_reason = er_reason req,
     per_timestamp = Some (to_proto_timestamp (er_timestamp req))\<rparr>"

definition from_proto_escalation_request ::
  "timestamp_opt \<Rightarrow> proto_escalation_request \<Rightarrow> grpc_status + escalation_request" where
  "from_proto_escalation_request T p =
     res_bind (from_proto_ring (per_current_ring p)) (\<lambda>current_ring.
     res_bind (from_proto_ring (per_requested_ring p)) (\<lambda>requested_ring.
     res_bind (res_bind (ok_or (Invalid_argument, ''Missing timestamp'') (per_timestamp p))
                (from_proto_timestamp T)) (\<lambda>timestamp.
     Inr \<lparr>er_agent_did = per_agent_did p, er_current_ring = current_ring,
          er_requested_ring = requested_ring, er_reason = per_reason p, er_timestamp = timestamp\<rparr>)))"

definition to_proto_escalation_event :: "ext \<Rightarrow> escalation_event \<Rightarrow> proto_escalation_event" where
  "to_proto_escalation_event X event = \<lparr>pev_event_id = uuid_str X (ee_event_id event),
     pev_agent_did = ee_agent_did event, pev_approver_did = ee_approver_did event,
     pev_from_ring = to_proto_ring (ee_from_ring event), pev_to_ring = to_proto_ring (ee_to_ring event),
     pev_outcome = (case ee_outcome event of
         Approved \<Rightarrow> ''Approved''
       | EscalationDenied cause \<Rightarrow> ''Denied: '' @ cause),
     pev_reason = ee_reason event, pev_timestamp = Some (to_proto_timestamp (ee_timestamp event))\<rparr>"

section \<open>Round trips\<close>

named_theorems proto_roundtrip \<comment> \<open>a conversion undone by its inverse\<close>

lemma ring_roundtrip [proto_roundtrip]: "from_proto_ring (to_proto_ring r) = Inr r"
  by (cases r) (simp_all add: from_proto_ring_def)

lemma category_roundtrip [proto_roundtrip]: "from_proto_category (to_proto_category c) = c"
  by (cases c) (simp_all add: from_proto_category_def)

lemma did_roundtrip [proto_roundtrip]: "from_proto_did (to_proto_did d) = d"
  by (simp add: from_proto_did_def to_proto_did_def)

lemma timestamp_roundtrip [proto_roundtrip]:
  assumes "timestamp_opt_ok T D" "dt \<in> D"
  shows "from_proto_timestamp T (to_proto_timestamp dt) = Inr dt"
proof -
  have "T (dt div 1000000000) (of_int (dt mod 1000000000)) =
      Some (dt div 1000000000 * 1000000000 + dt mod 1000000000)"
    using assms unfolding timestamp_opt_ok_def by simp
  then show ?thesis by (simp add: from_proto_timestamp_def to_proto_timestamp_def)
qed

text \<open>Distinct rings and distinct times have distinct messages.\<close>

lemma to_proto_ring_inj [simp]: "to_proto_ring r = to_proto_ring r' \<longleftrightarrow> r = r'"
  by (metis ring_roundtrip sum.inject(2))

lemma to_proto_timestamp_inj [simp]: "to_proto_timestamp a = to_proto_timestamp b \<longleftrightarrow> a = b"
proof
  assume "to_proto_timestamp a = to_proto_timestamp b"
  then have d: "a div 1000000000 = b div 1000000000"
    and w: "of_int (a mod 1000000000) = (of_int (b mod 1000000000) :: 32 word)"
    by (simp_all add: to_proto_timestamp_def)
  have "uint (of_int (x mod 1000000000) :: 32 word) = x mod 1000000000" for x :: int
    using pos_mod_bound [of 1000000000 x] by (simp add: uint_word_of_int take_bit_int_eq_self_iff)
  with w have "a mod 1000000000 = b mod 1000000000" by metis
  with d show "a = b" by (metis div_mult_mod_eq)
qed simp

section \<open>Properties\<close>

text \<open>
  C36: every conversion that exists in both directions, there and back: rings, data categories,
  DIDs, times, attestations and escalation requests come back as they were, so that an
  attestation verifies at the client exactly when the one issued does; an identity loses its status,
  its parent, its delegation depth and its private key, and keeps everything else. The times
  are those \<open>chrono\<close> can represent.
\<close>

theorem messages_roundtrip:
  assumes "timestamp_opt_ok T D" and "dt \<in> D"
    and "ac_issued_at (sa_claim sa) \<in> D" and "ac_expires_at (sa_claim sa) \<in> D" and "er_timestamp req \<in> D"
  shows "from_proto_ring (to_proto_ring ring) = Inr ring \<and>
    from_proto_category (to_proto_category category) = category \<and>
    from_proto_did (to_proto_did did) = did \<and>
    from_proto_timestamp T (to_proto_timestamp dt) = Inr dt \<and>
    from_proto_attestation T (to_proto_attestation sa) = Inr sa \<and>
    from_proto_escalation_request T (to_proto_escalation_request req) = Inr req \<and>
    from_proto_identity (to_proto_identity i ring) = Inr (i\<lparr>ai_status := ''active'',
      ai_parent_did := None, ai_delegation_depth := 0, ai_private_key := None\<rparr>)"
  using assms
  by (simp add: from_proto_attestation_def to_proto_attestation_def from_proto_escalation_request_def
      to_proto_escalation_request_def from_proto_identity_def to_proto_identity_def proto_roundtrip)

definition chrono_seconds :: timestamp_opt where
  "chrono_seconds s n = (if n < 1000000000 then Some (s * 1000000000 + uint n) else None)"

lemma chrono_seconds_ok: "timestamp_opt_ok chrono_seconds UNIV"
  by (simp add: timestamp_opt_ok_def chrono_seconds_def word_less_def uint_word_of_int take_bit_int_eq_self_iff)

definition wire_attestation :: signed_attestation where
  "wire_attestation = \<lparr>sa_claim = \<lparr>ac_subject_did = ''did:mesh:a'', ac_public_key_b64 = ''k'',
     ac_issued_at = 5, ac_expires_at = hours 24 + 5\<rparr>, sa_registry_did = ''did:mesh:r'', sa_signature_b64 = ''s''\<rparr>"

definition wire_escalation :: escalation_request where
  "wire_escalation = \<lparr>er_agent_did = ''did:mesh:a'', er_current_ring = Standard,
     er_requested_ring = System, er_reason = ''why'', er_timestamp = - 7\<rparr>"

definition wire_child :: agent_identity where
  "wire_child = (sample_identity ''c'' ''pk'')\<lparr>ai_status := ''revoked'', ai_parent_did := Some ''did:mesh:a'',
     ai_delegation_depth := 2, ai_private_key := Some ''sk''\<rparr>"

theorem messages_roundtrip_witness:
  "from_proto_attestation chrono_seconds (to_proto_attestation wire_attestation) = Inr wire_attestation \<and>
   from_proto_escalation_request chrono_seconds (to_proto_escalation_request wire_escalation) = Inr wire_escalation \<and>
   from_proto_identity (to_proto_identity wire_child Trusted) = Inr (sample_identity ''c'' ''pk'')"
  using messages_roundtrip [OF chrono_seconds_ok, of 0 wire_attestation wire_escalation Trusted Unknown
      "ai_did wire_child" wire_child]
  by (simp add: wire_child_def sample_identity_def)

text \<open>
  An identity comes back as it was, with its ring, exactly when it is an active one without
  a parent, at delegation depth 0 and without its private key.
\<close>

theorem identity_roundtrip_iff:
  "from_proto_identity (to_proto_identity i r) = Inr i \<longleftrightarrow>
     ai_status i = ''active'' \<and> ai_parent_did i = None \<and> ai_delegation_depth i = 0 \<and> ai_private_key i = None"
  by (cases i) (auto simp: from_proto_identity_def to_proto_identity_def proto_roundtrip)

text \<open>The text of an outcome tells an approval from every denial.\<close>

lemma event_outcome_text:
  "pev_outcome (to_proto_escalation_event X e) = ''Approved'' \<longleftrightarrow> ee_outcome e = Approved"
  by (auto simp: to_proto_escalation_event_def split: escalation_outcome.split)

end
