(* ===== verification/Grpc.thy ===== *)
theory Grpc
  imports Daemon Grpc_Convert
begin

text \<open>
  The gRPC services of the daemon, \<open>crates/daemon/src/grpc/registry.rs\<close>, \<open>discovery.rs\<close> and
  \<open>escalation.rs\<close>, over the state they share with the HTTP server. A call takes the metadata
  and the message \<open>tonic\<close> decoded; the encodings of messages (\<open>prost\<close>) and JSON are the
  parameter \<open>grpc_ext\<close>.
\<close>

section \<open>Messages of the services\<close>

record proto_register_request =
  prg_identity :: "proto_identity option"
  prg_ring :: int

record proto_presence_report =
  ppr_name :: string
  ppr_address :: string

record proto_approve_request =
  pap_request_id :: string
  pap_approver_did :: string
  pap_signature_b64 :: string

record proto_deny_request =
  pdr_request_id :: string
  pdr_approver_did :: string
  pdr_cause :: string

record proto_set_policy_request =
  psp_agent_did :: string
  psp_policy_json :: string

record proto_policy_response =
  pre_success :: bool
  pre_policy_json :: string
  pre_error :: string

record shadow_alert =
  sal_did :: "proto_did option"
  sal_name :: string
  sal_detected_at :: "proto_timestamp option"
  sal_transport_address :: string

record grpc_ext =
  gx_enc_register :: "proto_register_request \<Rightarrow> bytes"
  gx_enc_get_attestation :: "string \<Rightarrow> bytes" \<comment> \<open>its one field, \<open>did\<close>\<close>
  gx_enc_presence :: "proto_presence_report \<Rightarrow> bytes"
  gx_enc_watch_shadows :: "proto_timestamp option \<Rightarrow> bytes"
  gx_enc_escalation :: "proto_escalation_request \<Rightarrow> bytes"
  gx_enc_approve :: "proto_approve_request \<Rightarrow> bytes"
  gx_enc_deny :: "proto_deny_request \<Rightarrow> bytes"
  gx_enc_list_pending :: bytes
  gx_enc_get_policy :: "string \<Rightarrow> bytes" \<comment> \<open>its one field, \<open>agent_did\<close>\<close>
  gx_enc_set_policy :: "proto_set_policy_request \<Rightarrow> bytes"
  gx_timestamp_opt :: timestamp_opt
  gx_policy_to_json :: "mcp_policy \<Rightarrow> string res" \<comment> \<open>\<open>serde_json::to_string\<close>\<close>
  gx_policy_of_json :: "string \<Rightarrow> mcp_policy res"
  gx_event_of_json :: "string \<Rightarrow> discovery_event res"

section \<open>Authentication of a call\<close>

text \<open>The first lines of every method, with what follows as \<open>f\<close>.\<close>

definition grpc_verify ::
  "('r, 'k, 'p) services \<Rightarrow> moment \<Rightarrow> string \<Rightarrow> bytes \<Rightarrow> bytes \<Rightarrow> ('r, 'k, 'p) server_state \<Rightarrow>
     (grpc_status + unit) \<times> ('r, 'k, 'p) server_state" where
  "grpc_verify sv mo did sig body st =
     (case verify_request_signature (sv_ext sv) (sv_claims sv) (sv_registry sv) (mo_auth mo) did sig
             body (ss_registry_pubkey st) (ss_registry st) of
        (r, reg) \<Rightarrow> (map_err (Pair Unauthenticated) r, st\<lparr>ss_registry := reg\<rparr>))"

definition with_grpc_auth ::
  "('r, 'k, 'p) services \<Rightarrow> moment \<Rightarrow> headers \<Rightarrow> bytes \<Rightarrow>
     (string \<Rightarrow> ('r, 'k, 'p) server_state \<Rightarrow> (grpc_status + 'a) \<times> ('r, 'k, 'p) server_state) \<Rightarrow>
     ('r, 'k, 'p) server_state \<Rightarrow> (grpc_status + 'a) \<times> ('r, 'k, 'p) server_state" where
  "with_grpc_auth sv mo md body f st =
     (case extract_grpc_auth (sv_ext sv) md of
        Inl s \<Rightarrow> (Inl s, st)
      | Inr (did, sig) \<Rightarrow>
          (case grpc_verify sv mo did sig body st of
             (Inl s, st1) \<Rightarrow> (Inl s, st1)
           | (Inr _, st1) \<Rightarrow> f did st1))"

abbreviation internal :: "string \<Rightarrow> grpc_status" where "internal e \<equiv> (Internal, e)"

section \<open>\<open>registry.rs\<close>\<close>

definition grpc_register ::
  "grpc_ext \<Rightarrow> ('r, 'k, 'p) services \<Rightarrow> moment \<Rightarrow> headers \<Rightarrow> proto_register_request \<Rightarrow>
     ('r, 'k, 'p) server_state \<Rightarrow> (grpc_status + bool) \<times> ('r, 'k, 'p) server_state" where
  "grpc_register G sv mo md inner = with_grpc_auth sv mo md (gx_enc_register G inner) (\<lambda>_ st.
     case res_bind (ok_or (Invalid_argument, ''Missing identity'') (prg_identity inner)) from_proto_identity of
       Inl s \<Rightarrow> (Inl s, st)
     | Inr identity \<Rightarrow> (case from_proto_ring (prg_ring inner) of
         Inl s \<Rightarrow> (Inl s, st)
       | Inr ring \<Rightarrow> (case reg_register (sv_registry sv) (ss_registry st) identity ring of
           (r, reg) \<Rightarrow> (map_err internal (map_sum id (\<lambda>_. True) r), st\<lparr>ss_registry := reg\<rparr>))))"

definition grpc_get_attestation ::
  "grpc_ext \<Rightarrow> ('r, 'k, 'p) services \<Rightarrow> moment \<Rightarrow> headers \<Rightarrow> string \<Rightarrow>
     ('r, 'k, 'p) server_state \<Rightarrow> (grpc_status + proto_attestation) \<times> ('r, 'k, 'p) server_state" where
  "grpc_get_attestation G sv mo md inner_did = with_grpc_auth sv mo md (gx_enc_get_attestation G inner_did) (\<lambda>_ st.
     case reg_get_attestation (sv_registry sv) (mo_attest mo) (ss_registry st) inner_did of
       (r, reg) \<Rightarrow>
         (res_bind (map_err internal r) (\<lambda>a.
            map_sum id to_proto_attestation (ok_or (Not_found, ''Attestation not found'') a)),
          st\<lparr>ss_registry := reg\<rparr>))"

definition grpc_watch_presence :: "'s \<Rightarrow> (grpc_status + unit) \<times> 's" where
  "grpc_watch_presence st = (Inl (Unimplemented, ''WatchPresence not implemented yet''), st)"

section \<open>\<open>discovery.rs\<close>\<close>

definition grpc_report_presence ::
  "grpc_ext \<Rightarrow> ('r, 'k, 'p) services \<Rightarrow> moment \<Rightarrow> headers \<Rightarrow> proto_presence_report \<Rightarrow>
     ('r, 'k, 'p) server_state \<Rightarrow> (grpc_status + bool) \<times> ('r, 'k, 'p) server_state" where
  "grpc_report_presence G sv mo md inner = with_grpc_auth sv mo md (gx_enc_presence G inner) (\<lambda>did_str st.
     case parse_did did_str of
       Inl e \<Rightarrow> (Inl (Invalid_argument, e), st)
     | Inr did \<Rightarrow> (Inr True, st\<lparr>ss_discovery_manager :=
         report_presence (mo_seen mo) did (ppr_name inner) (ppr_address inner) Active
           (ss_discovery_manager st)\<rparr>))"

definition alert_of :: "discovered_agent \<Rightarrow> shadow_alert" where
  "alert_of a = \<lparr>sal_did = Some (to_proto_did (da_did a)), sal_name = da_name a,
     sal_detected_at = Some (to_proto_timestamp (da_last_seen a)),
     sal_transport_address = da_transport_address a\<rparr>"

text \<open>The alert a record of the action log holds, and the one an item of the live stream holds.\<close>

definition record_alert :: "grpc_ext \<Rightarrow> action_log_record \<Rightarrow> shadow_alert option" where
  "record_alert G rec = (case al_outcome rec of
       DiscoveryEventLogged json \<Rightarrow> (case gx_event_of_json G json of
           Inr (Shadow a) \<Rightarrow> Some (alert_of a)
         | _ \<Rightarrow> None)
     | _ \<Rightarrow> None)"

fun live_alert :: "recv_error + discovery_event \<Rightarrow> shadow_alert option" where
  "live_alert (Inr (Shadow a)) = Some (alert_of a)"
| "live_alert _ = None"

text \<open>
  \<open>live\<close> is what the subscription delivers. The result is the whole stream: the alerts of the
  records since \<open>since_timestamp\<close>, which is now if the request has none, then the live ones.
\<close>

definition grpc_watch_shadows ::
  "grpc_ext \<Rightarrow> ('r, 'k, 'p) services \<Rightarrow> moment \<Rightarrow> (recv_error + discovery_event) list \<Rightarrow> headers \<Rightarrow>
     proto_timestamp option \<Rightarrow> ('r, 'k, 'p) server_state \<Rightarrow>
     (grpc_status + shadow_alert list) \<times> ('r, 'k, 'p) server_state" where
  "grpc_watch_shadows G sv mo live md since_timestamp st =
     (case extract_grpc_auth (sv_ext sv) md of
        Inl s \<Rightarrow> (Inl s, st)
      | Inr (did_str, sig) \<Rightarrow>
          (case reg_get_ring (sv_registry sv) (ss_registry st) did_str of
             (Inl e, reg) \<Rightarrow> (Inl (internal e), st\<lparr>ss_registry := reg\<rparr>)
           | (Inr None, reg) \<Rightarrow> (Inl (Unauthenticated, agent_not_registered), st\<lparr>ss_registry := reg\<rparr>)
           | (Inr (Some ring), reg) \<Rightarrow>
               let st1 = st\<lparr>ss_registry := reg\<rparr> in
               if ring \<noteq> System
               then (Inl (Permission_denied, ''Only System-ring agents can watch shadows''), st1)
               else (case grpc_verify sv mo did_str sig (gx_enc_watch_shadows G since_timestamp) st1 of
                   (Inl s, st2) \<Rightarrow> (Inl s, st2)
                 | (Inr _, st2) \<Rightarrow>
                     (case (case since_timestamp of
                              Some ts \<Rightarrow> from_proto_timestamp (gx_timestamp_opt G) ts
                            | None \<Rightarrow> Inr (mo_now mo)) of
                        Inl s \<Rightarrow> (Inl s, st2)
                      | Inr since \<Rightarrow>
                          (case fal_replay_since (sv_log_codec sv) (ss_action_log st2) since of
                             (r, log) \<Rightarrow>
                               (Inr ((case r of Inl _ \<Rightarrow> [] | Inr records \<Rightarrow> List.map_filter (record_alert G) records)
                                     @ List.map_filter live_alert live),
                                st2\<lparr>ss_action_log := log\<rparr>))))))"

section \<open>\<open>escalation.rs\<close>\<close>

definition grpc_request_escalation ::
  "grpc_ext \<Rightarrow> ('r, 'k, 'p) services \<Rightarrow> moment \<Rightarrow> headers \<Rightarrow> proto_escalation_request \<Rightarrow>
     ('r, 'k, 'p) server_state \<Rightarrow> (grpc_status + string) \<times> ('r, 'k, 'p) server_state" where
  "grpc_request_escalation G sv mo md inner = with_grpc_auth sv mo md (gx_enc_escalation G inner) (\<lambda>_ st.
     case from_proto_escalation_request (gx_timestamp_opt G) inner of
       Inl s \<Rightarrow> (Inl s, st)
     | Inr domain_req \<Rightarrow>
         (case request_escalation (mo_uuid mo) domain_req (ss_escalation_manager st) of
            (request_id, em) \<Rightarrow>
              (Inr (uuid_str (sv_ext sv) request_id), st\<lparr>ss_escalation_manager := em\<rparr>)))"

definition grpc_approve ::
  "grpc_ext \<Rightarrow> ('r, 'k, 'p) services \<Rightarrow> moment \<Rightarrow> headers \<Rightarrow> proto_approve_request \<Rightarrow>
     ('r, 'k, 'p) server_state \<Rightarrow> (grpc_status + proto_escalation_event) \<times> ('r, 'k, 'p) server_state" where
  "grpc_approve G sv mo md inner = with_grpc_auth sv mo md (gx_enc_approve G inner) (\<lambda>_ st.
     case uuid_parse (sv_ext sv) (pap_request_id inner) of
       None \<Rightarrow> (Inl (Invalid_argument, ''Invalid request_id UUID''), st)
     | Some request_id \<Rightarrow> (case b64_decode (sv_ext sv) (pap_signature_b64 inner) of
         Inl _ \<Rightarrow> (Inl (Invalid_argument, ''Invalid Base64 in signature''), st)
       | Inr approval_sig \<Rightarrow>
           (case em_approve (sv_ext sv) (sv_claims sv) (sv_event_json sv) (mo_approve mo) request_id
                   (pap_approver_did inner) approval_sig
                   (\<lambda>d. fst (reg_get_ring (sv_registry sv) (ss_registry st) d))
                   (\<lambda>d. fst (reg_get_attestation (sv_registry sv) (mo_attest mo) (ss_registry st) d))
                   (ss_escalation_manager st) of
              (r, em) \<Rightarrow>
                (map_err (Pair Failed_precondition) (map_sum id (to_proto_escalation_event (sv_ext sv)) r),
                 st\<lparr>ss_escalation_manager := em\<rparr>))))"

definition grpc_deny ::
  "grpc_ext \<Rightarrow> ('r, 'k, 'p) services \<Rightarrow> moment \<Rightarrow> headers \<Rightarrow> proto_deny_request \<Rightarrow>
     ('r, 'k, 'p) server_state \<Rightarrow> (grpc_status + proto_escalation_event) \<times> ('r, 'k, 'p) server_state" where
  "grpc_deny G sv mo md inner = with_grpc_auth sv mo md (gx_enc_deny G inner) (\<lambda>_ st.
     case uuid_parse (sv_ext sv) (pdr_request_id inner) of
       None \<Rightarrow> (Inl (Invalid_argument, ''Invalid request_id UUID''), st)
     | Some request_id \<Rightarrow>
         (case em_deny (sv_event_json sv) (mo_now mo) request_id (pdr_approver_did inner)
                 (pdr_cause inner) (ss_escalation_manager st) of
            (r, em) \<Rightarrow>
              (map_err (Pair Failed_precondition) (map_sum id (to_proto_escalation_event (sv_ext sv)) r),
               st\<lparr>ss_escalation_manager := em\<rparr>)))"

definition grpc_list_pending ::
  "grpc_ext \<Rightarrow> ('r, 'k, 'p) services \<Rightarrow> moment \<Rightarrow> headers \<Rightarrow> ('r, 'k, 'p) server_state \<Rightarrow>
     (grpc_status + proto_escalation_request list) \<times> ('r, 'k, 'p) server_state" where
  "grpc_list_pending G sv mo md = with_grpc_auth sv mo md (gx_enc_list_pending G) (\<lambda>_ st.
     (Inr (map (\<lambda>(_, req). to_proto_escalation_request req)
        (pending_requests (mo_pending_order mo) (ss_escalation_manager st))), st))"

definition grpc_get_policy ::
  "grpc_ext \<Rightarrow> ('r, 'k, 'p) services \<Rightarrow> moment \<Rightarrow> headers \<Rightarrow> string \<Rightarrow>
     ('r, 'k, 'p) server_state \<Rightarrow> (grpc_status + proto_policy_response) \<times> ('r, 'k, 'p) server_state" where
  "grpc_get_policy G sv mo md agent_did = with_grpc_auth sv mo md (gx_enc_get_policy G agent_did) (\<lambda>_ st.
     case ps_load (sv_policies sv) (ss_policy_store st) agent_did of
       (r, ps) \<Rightarrow>
         ((case r of
             Inl e \<Rightarrow> Inl (internal e)
           | Inr (Some p) \<Rightarrow> map_err internal (map_sum id
               (\<lambda>json. \<lparr>pre_success = True, pre_policy_json = json, pre_error = []\<rparr>) (gx_policy_to_json G p))
           | Inr None \<Rightarrow> Inr \<lparr>pre_success = True, pre_policy_json = [], pre_error = ''Policy not found''\<rparr>),
          st\<lparr>ss_policy_store := ps\<rparr>))"

definition grpc_set_policy ::
  "grpc_ext \<Rightarrow> ('r, 'k, 'p) services \<Rightarrow> moment \<Rightarrow> headers \<Rightarrow> proto_set_policy_request \<Rightarrow>
     ('r, 'k, 'p) server_state \<Rightarrow> (grpc_status + proto_policy_response) \<times> ('r, 'k, 'p) server_state" where
  "grpc_set_policy G sv mo md inner = with_grpc_auth sv mo md (gx_enc_set_policy G inner) (\<lambda>_ st.
     case gx_policy_of_json G (psp_policy_json inner) of
       Inl e \<Rightarrow> (Inl (Invalid_argument, ''Invalid policy JSON: '' @ e), st)
     | Inr policy \<Rightarrow>
         (case ps_save (sv_policies sv) (ss_policy_store st) (psp_agent_did inner) policy of
            (r, ps) \<Rightarrow>
              (map_err internal (map_sum id (\<lambda>_. \<lparr>pre_success = True,
                 pre_policy_json = psp_policy_json inner, pre_error = []\<rparr>) r),
               st\<lparr>ss_policy_store := ps\<rparr>)))"

lemmas grpc_defs = grpc_register_def grpc_get_attestation_def grpc_report_presence_def
  grpc_watch_shadows_def grpc_request_escalation_def grpc_approve_def grpc_deny_def
  grpc_list_pending_def grpc_get_policy_def grpc_set_policy_def

section \<open>Calls that are refused\<close>

text \<open>Who is let in: the sender named in the metadata, and the body its signature is checked over.\<close>

lemma with_grpc_auth_refused:
  assumes "with_grpc_auth sv mo md body f st = (r, st')"
    and "\<And>did sig. extract_grpc_auth (sv_ext sv) md = Inr (did, sig) \<Longrightarrow>
      \<exists>s st1. grpc_verify sv mo did sig body st = (Inl s, st1) \<and> st1 = st"
  shows "\<exists>s. r = Inl s \<and> st' = st"
  using assms
  by (auto simp: with_grpc_auth_def split: sum.splits prod.splits)

lemma with_grpc_auth_passed:
  assumes "extract_grpc_auth (sv_ext sv) md = Inr (did, sig)"
    and "grpc_verify sv mo did sig body st = (Inr (), st1)"
  shows "with_grpc_auth sv mo md body f st = f did st1"
  using assms by (simp add: with_grpc_auth_def)

end
