(* ===== verification/Grpc_Safety.thy ===== *)
theory Grpc_Safety
  imports Grpc Daemon_Safety
begin

text \<open>
  What holds of the gRPC services: who is refused and that a refused call leaves no trace,
  what an agent that is let in can do, and that the watcher of shadow agents is told what the
  worker of the HTTP server logged.
\<close>

section \<open>Signed calls\<close>

text \<open>\<open>MetadataValue::try_from\<close>: any bytes but control characters, tabs excepted.\<close>

definition metadata_value :: "string \<Rightarrow> bytes res" where
  "metadata_value s = (if \<forall>c\<in>set s. byte_in 32 126 c \<or> byte_in 128 255 c \<or> byte_in 9 9 c
     then Inr s else Inl ''failed to parse metadata value'')"

text \<open>The metadata every client sends: its DID, and its signature over the encoded message.\<close>

definition signed_metadata :: "ext \<Rightarrow> signing_key \<Rightarrow> string \<Rightarrow> bytes \<Rightarrow> headers res" where
  "signed_metadata X key did body =
     res_bind (metadata_value did) (\<lambda>dv.
     res_bind (metadata_value (b64_encode X (ed_sign X key body))) (\<lambda>sv.
     Inr [''x-agt-agent-did'' \<mapsto> dv, ''x-agt-signature'' \<mapsto> sv]))"

text \<open>The DID and the signature's Base64 text can be sent in a header.\<close>

definition sendable :: "ext \<Rightarrow> string \<Rightarrow> signing_key \<Rightarrow> bytes \<Rightarrow> bool" where
  "sendable X did key body \<longleftrightarrow> header_to_str did \<noteq> None \<and>
     header_to_str (b64_encode X (ed_sign X key body)) \<noteq> None"

lemma header_to_str_sendable: "header_to_str v \<noteq> None \<Longrightarrow> metadata_value v = Inr v \<and> header_to_str v = Some v"
  by (auto simp: header_to_str_def metadata_value_def split: if_splits)

lemma grpc_header_names:
  "to_lowercase ''x-agt-agent-did'' = ''x-agt-agent-did''" "to_lowercase ''x-agt-signature'' = ''x-agt-signature''"
  by (simp_all add: lower_char_def)

lemma signed_metadata_extracted:
  assumes "crypto_ok X" "sendable X did key body"
  obtains md where "signed_metadata X key did body = Inr md"
    and "extract_grpc_auth X md = Inr (did, ed_sign X key body)"
proof -
  let ?sig = "b64_encode X (ed_sign X key body)"
  let ?md = "[''x-agt-agent-did'' \<mapsto> did, ''x-agt-signature'' \<mapsto> ?sig]"
  have v: "metadata_value did = Inr did" "header_to_str did = Some did"
    "metadata_value ?sig = Inr ?sig" "header_to_str ?sig = Some ?sig"
    using assms(2) header_to_str_sendable [of did] header_to_str_sendable [of ?sig] unfolding sendable_def by blast+
  have "signed_metadata X key did body = Inr ?md"
    using v(1,3) by (simp add: signed_metadata_def)
  moreover have "extract_grpc_auth X ?md = Inr (did, ed_sign X key body)"
    using v(2,4) crypto_okD(1) [OF assms(1)]
    by (simp only: extract_grpc_auth_def header_get_def grpc_header_names) simp
  ultimately show thesis by (rule that)
qed

text \<open>The agent \<open>did\<close> is on record in the file registry of the server with ring and key.\<close>

definition enrolled ::
  "registry_codec \<Rightarrow> (file_registry, 'k, 'p) services \<Rightarrow> moment \<Rightarrow> (file_registry, 'k, 'p) server_state \<Rightarrow>
     string \<Rightarrow> signing_key \<Rightarrow> privilege_ring \<Rightarrow> bool" where
  "enrolled C sv mo st did key ring \<longleftrightarrow>
     crypto_ok (sv_ext sv) \<and>
     sv_registry sv = file_registry_ops (sv_ext sv) (sv_claims sv) C \<and> fr_usable C (ss_registry st) \<and>
     ss_registry_pubkey st = b64_encode (sv_ext sv) (public_bytes (sv_ext sv) (mr_identity (fr_memory (ss_registry st)))) \<and>
     snd (mo_auth mo) \<le> dt_add (sv_ext sv) (snd (fst (mo_auth mo))) (hours 24) \<and>
     mr_entries (fr_memory (ss_registry st)) did = Some (b64_encode (sv_ext sv) (public_bytes (sv_ext sv) key), ring)"

context agent_registry
begin

lemma grpc_verify_registered:
  assumes "usable (ss_registry st)" "sv_ext sv = X" "sv_claims sv = J" "sv_registry sv = R" "crypto_ok X"
    and "ss_registry_pubkey st = b64_encode X (public_bytes X (rkey (ss_registry st)))"
    and "snd (mo_auth mo) \<le> dt_add X (snd (fst (mo_auth mo))) (hours 24)"
    and "entries (ss_registry st) did = Some (b64_encode X (public_bytes X k), r)"
  shows "grpc_verify sv mo did (ed_sign X k body) body st = (Inr (), st)"
proof -
  have "verify_signature X (identity_stub (b64_encode X (public_bytes X k))) body (ed_sign X k body)"
    by (rule verify_attested_key [OF assms(5)]) (simp add: identity_stub_def)
  then have "verify_request_signature X J R (mo_auth mo) did (ed_sign X k body) body
      (ss_registry_pubkey st) (ss_registry st) = (Inr (), ss_registry st)"
    using authenticated_own_key [OF assms(1,5,6,7)] assms(8) by simp
  then show ?thesis using assms(2-4) by (simp add: grpc_verify_def)
qed

lemma grpc_verify_refused:
  assumes "usable (ss_registry st)" "sv_ext sv = X" "sv_claims sv = J" "sv_registry sv = R"
    and "\<And>pk r. entries (ss_registry st) did = Some (pk, r) \<Longrightarrow> \<not> verify_signature X (identity_stub pk) body sig"
  shows "\<exists>s. grpc_verify sv mo did sig body st = (Inl s, st)"
proof -
  obtain r reg where r: "verify_request_signature X J R (mo_auth mo) did sig body
      (ss_registry_pubkey st) (ss_registry st) = (r, reg)" by fastforce
  have "reg = ss_registry st" by (rule verify_keeps_registry [OF assms(1) r])
  moreover have "r \<noteq> Inr ()" using r authenticated_iff [OF assms(1)] assms(5) by blast
  ultimately show ?thesis using r assms(2-4) by (cases r) (auto simp: grpc_verify_def)
qed

end

lemma enrolled_verified:
  assumes "enrolled C sv mo st did key ring"
  shows "grpc_verify sv mo did (ed_sign (sv_ext sv) key body) body st = (Inr (), st)"
  by (rule fr.grpc_verify_registered [where C = C, OF _ refl refl]) (use assms in \<open>simp_all add: enrolled_def\<close>)

lemma enrolled_call:
  assumes "enrolled C sv mo st did key ring" "sendable (sv_ext sv) did key body"
    and "signed_metadata (sv_ext sv) key did body = Inr md"
  shows "extract_grpc_auth (sv_ext sv) md = Inr (did, ed_sign (sv_ext sv) key body)"
    and "with_grpc_auth sv mo md body f st = f did st"
proof -
  have "crypto_ok (sv_ext sv)" using assms(1) by (simp add: enrolled_def)
  then show x: "extract_grpc_auth (sv_ext sv) md = Inr (did, ed_sign (sv_ext sv) key body)"
    by (rule signed_metadata_extracted [OF _ assms(2)]) (use assms(3) in simp)
  show "with_grpc_auth sv mo md body f st = f did st"
    by (rule with_grpc_auth_passed [OF x enrolled_verified [OF assms(1)]])
qed

text \<open>A signature of the sender on record over the message.\<close>

definition genuine :: "ext \<Rightarrow> file_registry \<Rightarrow> string \<Rightarrow> bytes \<Rightarrow> bytes \<Rightarrow> bool" where
  "genuine X s did sig body \<longleftrightarrow>
     (\<exists>pk r. mr_entries (fr_memory s) did = Some (pk, r) \<and> verify_signature X (identity_stub pk) body sig)"

lemma not_genuine_refused:
  assumes "sv_registry sv = file_registry_ops (sv_ext sv) (sv_claims sv) C" "fr_usable C (ss_registry st)"
    and "extract_grpc_auth (sv_ext sv) md = Inr (did, sig)" "\<not> genuine (sv_ext sv) (ss_registry st) did sig body"
  shows "\<exists>s. with_grpc_auth sv mo md body f st = (Inl s, st)"
    and "\<exists>s. grpc_verify sv mo did sig body st = (Inl s, st)"
proof -
  show v: "\<exists>s. grpc_verify sv mo did sig body st = (Inl s, st)"
    by (rule fr.grpc_verify_refused [where C = C, OF assms(2) refl refl assms(1)])
      (use assms(4) in \<open>auto simp: genuine_def\<close>)
  then show "\<exists>s. with_grpc_auth sv mo md body f st = (Inl s, st)"
    using assms(3) by (auto simp: with_grpc_auth_def)
qed

section \<open>Properties\<close>

text \<open>
  A gRPC call whose signature does not verify under the key on record for its sender, or
  whose sender is not on record, is refused with an error and changes nothing at all, the
  discovery records included, whatever the method.
\<close>

theorem forged_calls_change_nothing:
  assumes "sv_registry sv = file_registry_ops (sv_ext sv) (sv_claims sv) C" and "fr_usable C (ss_registry st)"
    and "extract_grpc_auth (sv_ext sv) md = Inr (did, sig)"
    and "\<forall>body. \<not> genuine (sv_ext sv) (ss_registry st) did sig body"
  shows "(\<exists>s. grpc_register G sv mo md m1 st = (Inl s, st)) \<and>
    (\<exists>s. grpc_get_attestation G sv mo md m2 st = (Inl s, st)) \<and>
    (\<exists>s. grpc_report_presence G sv mo md m3 st = (Inl s, st)) \<and>
    (\<exists>s. grpc_watch_shadows G sv mo live md m4 st = (Inl s, st)) \<and>
    (\<exists>s. grpc_request_escalation G sv mo md m5 st = (Inl s, st)) \<and>
    (\<exists>s. grpc_approve G sv mo md m6 st = (Inl s, st)) \<and>
    (\<exists>s. grpc_deny G sv mo md m7 st = (Inl s, st)) \<and>
    (\<exists>s. grpc_list_pending G sv mo md st = (Inl s, st)) \<and>
    (\<exists>s. grpc_get_policy G sv mo md m8 st = (Inl s, st)) \<and>
    (\<exists>s. grpc_set_policy G sv mo md m9 st = (Inl s, st))"
proof -
  note refused = not_genuine_refused [OF assms(1-3) spec [OF assms(4)]]
  obtain s where v: "grpc_verify sv mo did sig (gx_enc_watch_shadows G m4) st = (Inl s, st)"
    using refused(2) by blast
  have "reg_get_ring (sv_registry sv) (ss_registry st) did =
      (Inr (map_option snd (mr_entries (fr_memory (ss_registry st)) did)), ss_registry st)"
    unfolding assms(1) by (rule fr.get_ring [OF assms(2)])
  then have watch: "\<exists>s. grpc_watch_shadows G sv mo live md m4 st = (Inl s, st)"
    using v by (cases "mr_entries (fr_memory (ss_registry st)) did")
      (simp_all add: grpc_watch_shadows_def assms(3))
  show ?thesis
    unfolding grpc_register_def grpc_get_attestation_def grpc_report_presence_def grpc_request_escalation_def
      grpc_approve_def grpc_deny_def grpc_list_pending_def grpc_get_policy_def grpc_set_policy_def
    by (intro conjI refused(1) watch)
qed

text \<open>
  C25: any agent on record, of whatever ring, can deny any pending request, in the name of any
  approver: neither the sender's ring nor the approver is looked at.
\<close>

theorem any_agent_denies:
  assumes "enrolled C sv mo st did key ring"
    and "uuid_parse (sv_ext sv) (pdr_request_id inner) = Some i"
    and "em_pending (ss_escalation_manager st) i = Some req"
    and "sendable (sv_ext sv) did key (gx_enc_deny G inner)"
    and "signed_metadata (sv_ext sv) key did (gx_enc_deny G inner) = Inr md"
  shows "\<exists>ev st'. grpc_deny G sv mo md inner st = (Inr ev, st') \<and>
    pev_approver_did ev = pdr_approver_did inner \<and> pev_outcome ev = ''Denied: '' @ pdr_cause inner \<and>
    em_pending (ss_escalation_manager st') = (em_pending (ss_escalation_manager st))(i := None)"
  using assms(2,3)
  by (simp add: grpc_deny_def enrolled_call(2) [OF assms(1,4,5)] em_deny_def event_for_def
      to_proto_escalation_event_def Let_def)

lemma map_filter_seal:
  assumes "\<And>r h. f (r\<lparr>al_prev_hash := h\<rparr>) = f r"
  shows "List.map_filter f (seal X L h rs) = List.map_filter f rs"
  by (induction rs arbitrary: h) (simp_all add: map_filter_simps assms split: option.split)

fun shadows_in :: "discovery_event list \<Rightarrow> discovered_agent list" where
  "shadows_in [] = []"
| "shadows_in (Shadow a # evs) = a # shadows_in evs"
| "shadows_in (Presence a # evs) = shadows_in evs"

lemma bridged_alerts:
  assumes "\<And>a. Shadow a \<in> set evs \<Longrightarrow> gx_event_of_json G (to_json (Shadow a)) = Inr (Shadow a)"
  shows "List.map_filter (record_alert G) (bridge_records to_json fresh n evs) = map alert_of (shadows_in evs)"
  using assms
  by (induction to_json fresh n evs rule: bridge_records.induct)
    (simp_all add: map_filter_simps record_alert_def shadow_record_def)

lemma bridged_timestamps:
  "(\<And>k. since \<le> snd (fresh k)) \<Longrightarrow> r \<in> set (bridge_records to_json fresh n evs) \<Longrightarrow> since \<le> al_timestamp r"
  by (induction to_json fresh n evs rule: bridge_records.induct) (auto simp: shadow_record_def)

lemma filter_seal:
  assumes "\<And>r h. P (r\<lparr>al_prev_hash := h\<rparr>) = P r" "\<And>r. r \<in> set rs \<Longrightarrow> P r"
  shows "filter P (seal X L h rs) = seal X L h rs"
  using assms(2) by (induction rs arbitrary: h) (simp_all add: assms(1))

text \<open>
  C26: a System agent that watches from some time on is told every shadow agent the worker has
  logged since, in order, and then the live ones: the alerts come from the action log through
  the JSON of the events, and the call changes nothing.
\<close>

theorem watcher_sees_logged_shadows:
  assumes "enrolled C sv mo st did key System"
    and "sendable (sv_ext sv) did key (gx_enc_watch_shadows G (Some (to_proto_timestamp since)))"
    and "signed_metadata (sv_ext sv) key did (gx_enc_watch_shadows G (Some (to_proto_timestamp since))) = Inr md"
    and "timestamp_opt_ok (gx_timestamp_opt G) D" and "since \<in> D"
    and "fal_synced (sv_ext sv) (sv_log_codec sv) rs log" and "cps_ok (sv_ext sv) (sv_log_codec sv)"
    and "writable (sv_ext sv) (sv_log_codec sv) (bridge_records to_json fresh n evs)"
    and "ss_action_log st = discovery_bridge (sv_ext sv) (sv_log_codec sv) to_json fresh n (map Inr evs) log"
    and "\<And>a. Shadow a \<in> set evs \<Longrightarrow> gx_event_of_json G (to_json (Shadow a)) = Inr (Shadow a)"
    and "\<And>k. since \<le> snd (fresh k)"
  shows "grpc_watch_shadows G sv mo live md (Some (to_proto_timestamp since)) st =
    (Inr (List.map_filter (record_alert G) (filter (\<lambda>r. since \<le> al_timestamp r) rs) @
          map alert_of (shadows_in evs) @ List.map_filter live_alert live), st)"
proof -
  let ?X = "sv_ext sv" and ?L = "sv_log_codec sv"
  let ?new = "seal ?X ?L (fal_last_hash log) (bridge_records to_json fresh n evs)"
  have "fal_synced ?X ?L (rs @ ?new) (ss_action_log st)"
    using fal_append_all_synced [OF assms(6,8,7)] bridge_appends [OF assms(6-8)] assms(9) by force
  then have holds: "fal_holds ?L (rs @ ?new) (ss_action_log st)" by (simp add: fal_synced_defs)
  have "filter (\<lambda>r. since \<le> al_timestamp r) ?new = ?new"
    by (rule filter_seal) (use bridged_timestamps [of since fresh, OF assms(11)] in simp_all)
  moreover have "List.map_filter (record_alert G) ?new = map alert_of (shadows_in evs)"
    using bridged_alerts [OF assms(10)] by (subst map_filter_seal) (simp_all add: record_alert_def)
  ultimately have replay: "fal_replay_since ?L (ss_action_log st) since =
      (Inr (filter (\<lambda>r. since \<le> al_timestamp r) rs @ ?new), ss_action_log st)"
    and alerts: "List.map_filter (record_alert G) (filter (\<lambda>r. since \<le> al_timestamp r) rs @ ?new) =
      List.map_filter (record_alert G) (filter (\<lambda>r. since \<le> al_timestamp r) rs) @ map alert_of (shadows_in evs)"
    using fal_holds_reads(3) [OF holds, of since] by (simp_all add: map_filter_append)
  have ring: "reg_get_ring (sv_registry sv) (ss_registry st) did = (Inr (Some System), ss_registry st)"
    using assms(1) fr.get_ring [where C = C, of "ss_registry st" ?X "sv_claims sv" did] by (simp add: enrolled_def)
  show ?thesis
    using enrolled_call(1) [OF assms(1,2,3)] ring enrolled_verified [OF assms(1)] replay alerts
      timestamp_roundtrip [OF assms(4,5)]
    by (simp add: grpc_watch_shadows_def Let_def)
qed

section \<open>Witnesses\<close>

definition grpc_registry :: file_registry where
  "grpc_registry = sample_file_registry\<lparr>fr_memory := (mr_new ''rk'' ''did:mesh:registry'')
      \<lparr>mr_entries := [''did:mesh:a'' \<mapsto> (pad32 ''k'', Sandboxed), ''did:mesh:s'' \<mapsto> (pad32 ''s'', System)]\<rparr>\<rparr>"

definition uuid_ext :: ext where "uuid_ext = log_ext\<lparr>uuid_parse := \<lambda>_. Some 7\<rparr>"

definition grpc_services :: "ext \<Rightarrow> (file_registry, memory_key_store, memory_policy_store) services" where
  "grpc_services X = sample_services X (file_registry_ops X ac_subject_did sample_codec)"

definition grpc_server :: "file_action_log \<Rightarrow> (file_registry, memory_key_store, memory_policy_store) server_state" where
  "grpc_server log = (sample_server log_ext grpc_registry log)\<lparr>ss_escalation_manager :=
     sample_manager\<lparr>em_pending := [7 \<mapsto> \<lparr>er_agent_did = ''did:mesh:b'', er_current_ring = Standard,
       er_requested_ring = Trusted, er_reason = ''r'', er_timestamp = 0\<rparr>]\<rparr>\<rparr>"

definition sample_grpc_ext :: grpc_ext where
  "sample_grpc_ext = \<lparr>gx_enc_register = \<lambda>_. ''m'', gx_enc_get_attestation = \<lambda>_. ''m'',
     gx_enc_presence = \<lambda>_. ''m'', gx_enc_watch_shadows = \<lambda>_. ''m'', gx_enc_escalation = \<lambda>_. ''m'',
     gx_enc_approve = \<lambda>_. ''m'', gx_enc_deny = \<lambda>_. ''m'', gx_enc_list_pending = ''m'',
     gx_enc_get_policy = \<lambda>_. ''m'', gx_enc_set_policy = \<lambda>_. ''m'', gx_timestamp_opt = chrono_seconds,
     gx_policy_to_json = \<lambda>_. Inr ''{}'', gx_policy_of_json = \<lambda>_. Inr sample_policy,
     gx_event_of_json = \<lambda>_. Inr (Shadow sample_agent)\<rparr>"

lemma log_ext_simps:
  "crypto_ok log_ext" "crypto_ok uuid_ext"
  "ed_sign log_ext = (\<lambda>k m. pad32 k @ m)" "b64_encode log_ext = (\<lambda>b. b)" "public_bytes log_ext = pad32"
  "dt_add log_ext = (+)" "ed_sign uuid_ext = (\<lambda>k m. pad32 k @ m)" "b64_encode uuid_ext = (\<lambda>b. b)"
  "public_bytes uuid_ext = pad32" "dt_add uuid_ext = (+)"
  using log_ext_facts(1) by (simp_all add: uuid_ext_def crypto_ok_def) (simp_all add: log_ext_def toy_ext_def)

lemma grpc_enrolled:
  assumes "X = log_ext \<or> X = uuid_ext"
  shows "enrolled sample_codec (grpc_services X) sample_moment (grpc_server log) ''did:mesh:a'' ''k'' Sandboxed"
    and "enrolled sample_codec (grpc_services X) sample_moment (grpc_server log) ''did:mesh:s'' ''s'' System"
  using assms
  by (auto simp: enrolled_def grpc_services_def sample_services_def grpc_server_def sample_server_def
      grpc_registry_def sample_file_registry_def mr_new_def fr_usable_def sample_codec_def sample_moment_def
      log_ext_simps)

lemma set_pad32: "c \<in> set (pad32 b) \<Longrightarrow> c \<in> set b \<or> c = CHR ''0''"
  by (auto simp: pad32_def dest!: in_set_takeD split: if_splits)

lemma grpc_sendable:
  assumes "X = log_ext \<or> X = uuid_ext" "did \<in> {''did:mesh:a'', ''did:mesh:s''}" "key \<in> {''k'', ''s''}"
  shows "sendable X did key ''m''"
proof -
  have "byte_in 32 126 c" if "c \<in> set (pad32 key @ ''m'')" for c
    using that assms(3) set_pad32 [of c key] by (auto simp: byte_in_def)
  then have "header_to_str (pad32 key @ ''m'') \<noteq> None" by (simp add: header_to_str_def)
  moreover have "header_to_str did \<noteq> None" using assms(2) by (auto simp: header_to_str_def byte_in_def)
  ultimately show ?thesis using assms(1) by (auto simp: sendable_def log_ext_simps)
qed

theorem forged_calls_change_nothing_witness:
  "\<exists>s. grpc_list_pending sample_grpc_ext (grpc_services log_ext) sample_moment
      (sample_headers ''did:mesh:x'' []) (grpc_server (log_holding [])) = (Inl s, grpc_server (log_holding []))"
proof -
  let ?sv = "grpc_services log_ext"
  have sv: "sv_registry ?sv = file_registry_ops (sv_ext ?sv) (sv_claims ?sv) sample_codec"
    "fr_usable sample_codec (ss_registry (grpc_server (log_holding [])))"
    using grpc_enrolled(1) [of log_ext "log_holding []"] by (simp_all add: enrolled_def)
  have b: "b64_decode log_ext [] = Inr []" by (simp add: log_ext_def toy_ext_def)
  have md: "extract_grpc_auth (sv_ext ?sv) (sample_headers ''did:mesh:x'' []) = Inr (''did:mesh:x'', [])"
    by (simp only: extract_grpc_auth_def header_get_def grpc_header_names)
      (simp add: sample_headers_def header_to_str_def byte_in_def grpc_services_def sample_services_def b)
  have "\<forall>body. \<not> genuine (sv_ext ?sv) (ss_registry (grpc_server (log_holding []))) ''did:mesh:x'' [] body"
    by (simp add: genuine_def grpc_server_def sample_server_def grpc_registry_def)
  from forged_calls_change_nothing [OF sv md this] show ?thesis by blast
qed

theorem any_agent_denies_witness:
  "\<exists>md ev st'. grpc_deny sample_grpc_ext (grpc_services uuid_ext) sample_moment md
       \<lparr>pdr_request_id = ''7'', pdr_approver_did = ''did:mesh:s'', pdr_cause = ''no''\<rparr> (grpc_server (log_holding [])) = (Inr ev, st') \<and>
     pev_approver_did ev = ''did:mesh:s'' \<and> em_pending (ss_escalation_manager st') 7 = None"
proof -
  let ?m = "\<lparr>pdr_request_id = ''7'', pdr_approver_did = ''did:mesh:s'', pdr_cause = ''no''\<rparr>"
  have X: "sv_ext (grpc_services uuid_ext) = uuid_ext" by (simp add: grpc_services_def sample_services_def)
  have e: "enrolled sample_codec (grpc_services uuid_ext) sample_moment (grpc_server (log_holding [])) ''did:mesh:a'' ''k'' Sandboxed"
    by (rule grpc_enrolled) simp
  have s: "sendable (sv_ext (grpc_services uuid_ext)) ''did:mesh:a'' ''k'' (gx_enc_deny sample_grpc_ext ?m)"
    unfolding X by (simp add: sample_grpc_ext_def grpc_sendable)
  have u: "uuid_parse (sv_ext (grpc_services uuid_ext)) (pdr_request_id ?m) = Some 7"
    unfolding X by (simp add: uuid_ext_def)
  obtain req where p: "em_pending (ss_escalation_manager (grpc_server (log_holding []))) 7 = Some req"
    by (simp add: grpc_server_def)
  obtain md where md: "signed_metadata (sv_ext (grpc_services uuid_ext)) ''k'' ''did:mesh:a''
      (gx_enc_deny sample_grpc_ext ?m) = Inr md"
    using signed_metadata_extracted [OF _ s] e by (auto simp: enrolled_def)
  from any_agent_denies [OF e u p s md] show ?thesis by (intro exI [of _ md]) fastforce
qed

theorem watcher_sees_logged_shadows_witness:
  "\<exists>md log. fst (grpc_watch_shadows sample_grpc_ext (grpc_services log_ext) sample_moment [] md
       (Some (to_proto_timestamp 0)) (grpc_server log)) = Inr [alert_of sample_agent]"
proof -
  let ?sv = "grpc_services log_ext" and ?b = "gx_enc_watch_shadows sample_grpc_ext (Some (to_proto_timestamp 0))"
  obtain log where log: "fal_synced log_ext exec_codec [] log" using exec_synced by blast
  let ?evs = "[Presence sample_agent, Shadow sample_agent]"
  let ?log = "discovery_bridge log_ext exec_codec (\<lambda>_. ''{}'') (\<lambda>_. (0, 0)) 0 (map Inr ?evs) log"
  have X: "sv_ext ?sv = log_ext" "sv_log_codec ?sv = exec_codec" "ss_action_log (grpc_server ?log) = ?log"
    by (simp_all add: grpc_services_def sample_services_def grpc_server_def sample_server_def)
  have e: "enrolled sample_codec ?sv sample_moment (grpc_server ?log) ''did:mesh:s'' ''s'' System"
    by (rule grpc_enrolled) simp
  have s: "sendable (sv_ext ?sv) ''did:mesh:s'' ''s'' ?b"
    unfolding X by (simp add: sample_grpc_ext_def grpc_sendable)
  obtain md where md: "signed_metadata (sv_ext ?sv) ''s'' ''did:mesh:s'' ?b = Inr md"
    using signed_metadata_extracted [OF _ s] e by (auto simp: enrolled_def)
  have t: "timestamp_opt_ok (gx_timestamp_opt sample_grpc_ext) UNIV"
    by (simp add: sample_grpc_ext_def chrono_seconds_ok)
  have w: "writable log_ext exec_codec (bridge_records (\<lambda>_. ''{}'') (\<lambda>_. (0, 0)) 0 ?evs)"
    using exec_writable(3) by simp
  have j: "gx_event_of_json sample_grpc_ext ''{}'' = Inr (Shadow a)" if "Shadow a \<in> set ?evs" for a
    using that by (simp add: sample_grpc_ext_def)
  note th = watcher_sees_logged_shadows [OF e s md t UNIV_I, where rs = "[]" and log = log and fresh = "\<lambda>_. (0, 0)"
      and n = 0 and evs = ?evs and to_json = "\<lambda>_. ''{}''" and live = "[]"]
  have "grpc_watch_shadows sample_grpc_ext ?sv sample_moment [] md (Some (to_proto_timestamp 0)) (grpc_server ?log) =
      (Inr [alert_of sample_agent], grpc_server ?log)"
    using th [unfolded X, OF log exec_cps_ok w refl j] by (simp add: map_filter_simps del: discovery_bridge.simps)
  then show ?thesis by (intro exI [of _ md] exI [of _ ?log]) simp
qed

end
