(* ===== verification/Remote_Http.thy ===== *)
theory Remote_Http
  imports Grpc_Safety
begin

text \<open>
  The clients of the daemon's HTTP interface: \<open>HttpAgentRegistry\<close>
  (\<open>crates/core/mesh/src/identity/registry_http.rs\<close>), \<open>HttpKeyStore\<close> (\<open>keystore_http.rs\<close>)
  and \<open>HttpPolicyStore\<close> (\<open>crates/ext/mcp-governance/src/store.rs\<close>). The network with
  \<open>reqwest\<close> is a parameter: it answers a call with a status and a body, or fails; at the end
  it is instantiated with the daemon's own server.
\<close>

section \<open>Calls\<close>

record http_call =
  hc_method :: http_method
  hc_url :: string
  hc_headers :: headers
  hc_body :: bytes

type_synonym 's network = "http_call \<Rightarrow> 's \<Rightarrow> (nat \<times> bytes) res \<times> 's"

text \<open>JSON of the bodies, and the text of a status (\<open>404 Not Found\<close>).\<close>

record remote_codec =
  rm_register_body :: "agent_identity \<Rightarrow> privilege_ring \<Rightarrow> bytes res"
  rm_attestation_of :: "bytes \<Rightarrow> signed_attestation option res"
  rm_ring_of :: "bytes \<Rightarrow> privilege_ring option res"
  rm_key_body :: "string \<Rightarrow> bytes res"
  rm_key_of :: "bytes \<Rightarrow> attested_key_response option res"
  rm_policy_body :: "mcp_policy \<Rightarrow> bytes res"
  rm_policy_of :: "bytes \<Rightarrow> mcp_policy option res"
  rm_status_text :: "nat \<Rightarrow> string"

text \<open>What the three clients have in common; the policy store has no registry key.\<close>

record remote_client =
  rc_base_url :: string
  rc_registry_pubkey :: string
  rc_agent_did :: string
  rc_signing_key :: signing_key

definition sign_body :: "ext \<Rightarrow> remote_client \<Rightarrow> bytes \<Rightarrow> string" where
  "sign_body X c body = b64_encode X (ed_sign X (rc_signing_key c) body)"

text \<open>
  A request with the two headers; a value that cannot be sent makes \<open>send\<close> fail, and so may
  the network.
\<close>

definition send_signed ::
  "ext \<Rightarrow> 's network \<Rightarrow> remote_client \<Rightarrow> http_method \<Rightarrow> string \<Rightarrow> bytes \<Rightarrow> 's \<Rightarrow> (nat \<times> bytes) res \<times> 's" where
  "send_signed X N c method path body s =
     (case (metadata_value (sign_body X c body), metadata_value (rc_agent_did c)) of
        (Inr sv, Inr dv) \<Rightarrow> N \<lparr>hc_method = method, hc_url = rc_base_url c @ path,
            hc_headers = [''x-agt-agent-did'' \<mapsto> dv, ''x-agt-signature'' \<mapsto> sv], hc_body = body\<rparr> s
      | _ \<Rightarrow> (Inl ''builder error'', s))"

abbreviation is_success :: "nat \<Rightarrow> bool" where "is_success status \<equiv> status div 100 = 2"

abbreviation agent_path :: "string \<Rightarrow> string \<Rightarrow> string" where
  "agent_path did part \<equiv> ''/v1/agents/'' @ did @ part"

section \<open>\<open>HttpAgentRegistry\<close>\<close>

record http_registry = remote_client +
  hr_cache :: "string \<rightharpoonup> signed_attestation"

definition http_registry_new :: "string \<Rightarrow> string \<Rightarrow> string \<Rightarrow> signing_key \<Rightarrow> http_registry" where
  "http_registry_new base_url registry_pubkey agent_did signing_key =
     \<lparr>rc_base_url = base_url, rc_registry_pubkey = registry_pubkey, rc_agent_did = agent_did,
      rc_signing_key = signing_key, hr_cache = Map.empty\<rparr>"

abbreviation client_of :: "http_registry \<Rightarrow> remote_client" where "client_of \<equiv> remote_client.truncate"

text \<open>\<open>jitter_secs\<close> is drawn from 3600 to 7199.\<close>

definition is_cache_fresh :: "ext \<Rightarrow> datetime \<Rightarrow> int \<Rightarrow> signed_attestation \<Rightarrow> bool" where
  "is_cache_fresh X now jitter_secs attestation =
     (if ac_expires_at (sa_claim attestation) \<le> now then False
      else now < dt_sub X (ac_expires_at (sa_claim attestation)) (secs jitter_secs))"

definition http_register ::
  "ext \<Rightarrow> remote_codec \<Rightarrow> 's network \<Rightarrow> http_registry \<Rightarrow> agent_identity \<Rightarrow> privilege_ring \<Rightarrow> 's \<Rightarrow> unit res \<times> 's" where
  "http_register X D N c identity ring s =
     (case rm_register_body D identity ring of
        Inl e \<Rightarrow> (Inl e, s)
      | Inr body \<Rightarrow> (case send_signed X N (client_of c) POST ''/v1/agents/register'' body s of
          (Inl e, s') \<Rightarrow> (Inl e, s')
        | (Inr (status, _), s') \<Rightarrow>
            (if is_success status then Inr ()
             else Inl (''Failed to register agent: '' @ rm_status_text D status), s')))"

definition cached_attestation :: "ext \<Rightarrow> datetime \<Rightarrow> int \<Rightarrow> http_registry \<Rightarrow> string \<Rightarrow> signed_attestation option" where
  "cached_attestation X now jitter_secs c did = (case hr_cache c did of
       Some a \<Rightarrow> if is_cache_fresh X now jitter_secs a then Some a else None
     | None \<Rightarrow> None)"

text \<open>\<open>w\<close>: the reading of the clock and the jitter at the cache, and the reading at the check.\<close>

definition http_get_attestation ::
  "ext \<Rightarrow> claim_json \<Rightarrow> remote_codec \<Rightarrow> 's network \<Rightarrow> datetime \<times> int \<times> datetime \<Rightarrow> http_registry \<Rightarrow>
     string \<Rightarrow> 's \<Rightarrow> signed_attestation option res \<times> http_registry \<times> 's" where
  "http_get_attestation X J D N w c did s =
     (case w of (now, jitter_secs, later) \<Rightarrow>
      case cached_attestation X now jitter_secs c did of
        Some a \<Rightarrow> (Inr (Some a), c, s)
      | None \<Rightarrow>
          (case send_signed X N (client_of c) GET (agent_path did ''/attestation'') [] s of
             (Inl e, s') \<Rightarrow> (Inl e, c, s')
           | (Inr (status, body), s') \<Rightarrow>
               if is_success status then
                 (case rm_attestation_of D body of
                    Inl e \<Rightarrow> (Inl e, c, s')
                  | Inr None \<Rightarrow> (Inr None, c, s')
                  | Inr (Some a) \<Rightarrow>
                      (case sa_verify X J later a (rc_registry_pubkey c) of
                         Inl e \<Rightarrow> (Inl (''Attestation verification failed: '' @ attestation_error_display e), c, s')
                       | Inr _ \<Rightarrow> (Inr (Some a), c\<lparr>hr_cache := (hr_cache c)(did \<mapsto> a)\<rparr>, s')))
               else if status = NOT_FOUND then (Inr None, c, s')
               else (Inl (''Registry error: '' @ rm_status_text D status), c, s')))"

definition http_get_ring ::
  "ext \<Rightarrow> remote_codec \<Rightarrow> 's network \<Rightarrow> http_registry \<Rightarrow> string \<Rightarrow> 's \<Rightarrow> privilege_ring option res \<times> 's" where
  "http_get_ring X D N c did s =
     (case send_signed X N (client_of c) GET (agent_path did ''/ring'') [] s of
        (Inl e, s') \<Rightarrow> (Inl e, s')
      | (Inr (status, body), s') \<Rightarrow>
          (if is_success status then rm_ring_of D body
           else if status = NOT_FOUND then Inr None
           else Inl (''Registry error: '' @ rm_status_text D status), s'))"

definition http_is_registered ::
  "ext \<Rightarrow> claim_json \<Rightarrow> remote_codec \<Rightarrow> 's network \<Rightarrow> datetime \<times> int \<times> datetime \<Rightarrow> http_registry \<Rightarrow>
     string \<Rightarrow> 's \<Rightarrow> bool res \<times> http_registry \<times> 's" where
  "http_is_registered X J D N w c did s =
     (case http_get_attestation X J D N w c did s of
        (r, c', s') \<Rightarrow> (map_sum id (\<lambda>a. a \<noteq> None) r, c', s'))"

section \<open>\<open>HttpKeyStore\<close>\<close>

definition http_key_store_new :: "string \<Rightarrow> string \<Rightarrow> string \<Rightarrow> signing_key \<Rightarrow> remote_client" where
  "http_key_store_new base_url registry_pubkey agent_did signing_key =
     \<lparr>rc_base_url = base_url, rc_registry_pubkey = registry_pubkey, rc_agent_did = agent_did,
      rc_signing_key = signing_key\<rparr>"

definition http_save_key ::
  "ext \<Rightarrow> remote_codec \<Rightarrow> 's network \<Rightarrow> remote_client \<Rightarrow> string \<Rightarrow> signing_key \<Rightarrow> 's \<Rightarrow> unit res \<times> 's" where
  "http_save_key X D N c agent_did key s =
     (case rm_key_body D (b64_encode X key) of
        Inl e \<Rightarrow> (Inl e, s)
      | Inr body \<Rightarrow> (case send_signed X N c POST (agent_path agent_did ''/key'') body s of
          (Inl e, s') \<Rightarrow> (Inl e, s')
        | (Inr (status, _), s') \<Rightarrow>
            (if is_success status then Inr ()
             else Inl (''Failed to save key: '' @ rm_status_text D status), s')))"

text \<open>What \<open>load_key\<close> makes of a key that was answered.\<close>

definition accept_key ::
  "ext \<Rightarrow> claim_json \<Rightarrow> datetime \<Rightarrow> remote_client \<Rightarrow> attested_key_response \<Rightarrow> signing_key res" where
  "accept_key X J now c res =
     (case sa_verify X J now (akr_attestation res) (rc_registry_pubkey c) of
        Inl e \<Rightarrow> Inl (''Registry attestation verification failed: '' @ attestation_error_display e)
      | Inr _ \<Rightarrow> (case b64_decode X (akr_key_b64 res) of
          Inl e \<Rightarrow> Inl e
        | Inr key_bytes \<Rightarrow>
            if length key_bytes \<noteq> 32 then Inl ''Invalid key length''
            else if b64_encode X (public_bytes X key_bytes) \<noteq> ac_public_key_b64 (sa_claim (akr_attestation res))
            then Inl ''Key mismatch: private key does not match attested public key''
            else Inr key_bytes))"

definition http_load_key ::
  "ext \<Rightarrow> claim_json \<Rightarrow> remote_codec \<Rightarrow> 's network \<Rightarrow> datetime \<Rightarrow> remote_client \<Rightarrow> string \<Rightarrow> 's \<Rightarrow>
     signing_key option res \<times> 's" where
  "http_load_key X J D N now c agent_did s =
     (case send_signed X N c GET (agent_path agent_did ''/key'') [] s of
        (Inl e, s') \<Rightarrow> (Inl e, s')
      | (Inr (status, body), s') \<Rightarrow>
          (if is_success status then
             (case rm_key_of D body of
                Inl e \<Rightarrow> Inl e
              | Inr None \<Rightarrow> Inr None
              | Inr (Some res) \<Rightarrow> map_sum id Some (accept_key X J now c res))
           else if status = NOT_FOUND then Inr None
           else Inl (''Registry error: '' @ rm_status_text D status), s'))"

definition http_delete_key :: "string \<Rightarrow> 's \<Rightarrow> unit res \<times> 's" where
  "http_delete_key agent_did s = (Inl ''Delete not implemented in HttpKeyStore v1'', s)"

section \<open>\<open>HttpPolicyStore\<close>\<close>

text \<open>The client of a policy store has no key of the registry to check answers with.\<close>

definition http_policy_store_new :: "string \<Rightarrow> string \<Rightarrow> signing_key \<Rightarrow> remote_client" where
  "http_policy_store_new base_url agent_did signing_key =
     \<lparr>rc_base_url = base_url, rc_registry_pubkey = [], rc_agent_did = agent_did, rc_signing_key = signing_key\<rparr>"

definition http_save_policy ::
  "ext \<Rightarrow> remote_codec \<Rightarrow> 's network \<Rightarrow> remote_client \<Rightarrow> string \<Rightarrow> mcp_policy \<Rightarrow> 's \<Rightarrow> unit res \<times> 's" where
  "http_save_policy X D N c agent_did policy s =
     (case rm_policy_body D policy of
        Inl e \<Rightarrow> (Inl e, s)
      | Inr body \<Rightarrow> (case send_signed X N c POST (agent_path agent_did ''/policy'') body s of
          (Inl e, s') \<Rightarrow> (Inl e, s')
        | (Inr (status, _), s') \<Rightarrow>
            (if is_success status then Inr ()
             else Inl (''Failed to save policy: '' @ rm_status_text D status), s')))"

definition http_load_policy ::
  "ext \<Rightarrow> remote_codec \<Rightarrow> 's network \<Rightarrow> remote_client \<Rightarrow> string \<Rightarrow> 's \<Rightarrow> mcp_policy option res \<times> 's" where
  "http_load_policy X D N c agent_did s =
     (case send_signed X N c GET (agent_path agent_did ''/policy'') [] s of
        (Inl e, s') \<Rightarrow> (Inl e, s')
      | (Inr (status, body), s') \<Rightarrow>
          (if is_success status then rm_policy_of D body
           else if status = NOT_FOUND then Inr None
           else Inl (''Failed to load policy: '' @ rm_status_text D status), s'))"

definition http_delete_policy :: "string \<Rightarrow> 's \<Rightarrow> unit res \<times> 's" where
  "http_delete_policy agent_did s = (Inl ''Delete not implemented in HttpPolicyStore v1'', s)"

definition http_list_policies :: "'s \<Rightarrow> (string \<rightharpoonup> mcp_policy) res \<times> 's" where
  "http_list_policies s = (Inl ''List not implemented in HttpPolicyStore v1'', s)"

section \<open>What a client accepts\<close>

text \<open>Every attestation in the cache was verified when it came in.\<close>

definition cache_verified :: "ext \<Rightarrow> claim_json \<Rightarrow> http_registry \<Rightarrow> bool" where
  "cache_verified X J c \<longleftrightarrow> (\<forall>did a. hr_cache c did = Some a \<longrightarrow>
     (\<exists>t. sa_verify X J t a (rc_registry_pubkey c) = Inr ()))"

text \<open>The lookups a client can go through, in any states \<open>s\<close> of the network.\<close>

inductive client_reachable ::
  "ext \<Rightarrow> claim_json \<Rightarrow> remote_codec \<Rightarrow> 's network \<Rightarrow> string \<Rightarrow> http_registry \<Rightarrow> bool"
  for X J D N pub where
  start: "client_reachable X J D N pub (http_registry_new base_url pub did key)"
| lookup: "client_reachable X J D N pub c \<Longrightarrow> http_get_attestation X J D N w c did s = (r, c', s') \<Longrightarrow>
    client_reachable X J D N pub c'"

lemma sa_verify_unit: "sa_verify X J t a pub = Inr u \<longleftrightarrow> sa_verify X J t a pub = Inr ()"
  by simp

lemma cached_attestation_Some:
  "cached_attestation X now jitter_secs c did = Some a \<longleftrightarrow>
     hr_cache c did = Some a \<and> is_cache_fresh X now jitter_secs a"
  by (auto simp: cached_attestation_def split: option.splits)

lemma lookup_cases:
  assumes "http_get_attestation X J D N (now, jitter_secs, later) c did s = (r, c', s')"
  obtains (cached) a where "hr_cache c did = Some a" "is_cache_fresh X now jitter_secs a"
      "r = Inr (Some a)" "c' = c"
  | (fetched) a where "sa_verify X J later a (rc_registry_pubkey c) = Inr ()" "r = Inr (Some a)"
      "c' = c\<lparr>hr_cache := (hr_cache c)(did \<mapsto> a)\<rparr>"
  | (absent) "r = Inr None" "c' = c"
  | (failed) e where "r = Inl e" "c' = c"
proof (cases "cached_attestation X now jitter_secs c did")
  case (Some a)
  with assms have "r = Inr (Some a)" "c' = c" by (simp_all add: http_get_attestation_def)
  with Some cached show thesis by (simp add: cached_attestation_Some)
next
  case None
  obtain q s1 where q: "send_signed X N (client_of c) GET (agent_path did ''/attestation'') [] s = (q, s1)"
    by fastforce
  note eq = assms [unfolded http_get_attestation_def prod.case None option.case q]
  show thesis
  proof (cases q)
    case (Inl e)
    with eq failed show ?thesis by auto
  next
    case (Inr p)
    obtain status body where p: "p = (status, body)" by (cases p)
    show ?thesis
    proof (cases "is_success status")
      case False
      with eq Inr p have "r = Inr None \<and> c' = c \<or> (\<exists>e. r = Inl e) \<and> c' = c"
        by (auto split: if_splits)
      with absent failed show ?thesis by blast
    next
      case True
      show ?thesis
      proof (cases "rm_attestation_of D body")
        case l: (Inl e)
        with eq Inr p True have "r = Inl e" "c' = c" by simp_all
        then show ?thesis by (rule failed)
      next
        case o: (Inr found)
        show ?thesis
        proof (cases found)
          case None
          with eq Inr p True o have "r = Inr None" "c' = c" by simp_all
          then show ?thesis by (rule absent)
        next
          case (Some a)
          show ?thesis
          proof (cases "sa_verify X J later a (rc_registry_pubkey c)")
            case v: (Inl e)
            with eq Inr p True o Some
            have "r = Inl (''Attestation verification failed: '' @ attestation_error_display e)" "c' = c"
              by simp_all
            then show ?thesis by (rule failed)
          next
            case v: (Inr u)
            with eq Inr p True o Some
            have "r = Inr (Some a)" "c' = c\<lparr>hr_cache := (hr_cache c)(did \<mapsto> a)\<rparr>" by simp_all
            moreover have "sa_verify X J later a (rc_registry_pubkey c) = Inr ()" using v by simp
            ultimately show ?thesis by (intro fetched)
          qed
        qed
      qed
    qed
  qed
qed

lemma reachable_cache_verified:
  assumes "client_reachable X J D N pub c"
  shows "cache_verified X J c \<and> rc_registry_pubkey c = pub"
  using assms
proof induction
  case (start base_url did key)
  then show ?case by (simp add: cache_verified_def http_registry_new_def)
next
  case (lookup c w did s r c' s')
  obtain now j later where w: "w = (now, j, later)" by (cases w)
  from lookup.hyps(2) [unfolded w] show ?case
    by (cases rule: lookup_cases) (use lookup.IH in \<open>auto simp: cache_verified_def\<close>)
qed

section \<open>Properties\<close>

text \<open>
  C27: fail-closed: whatever the network answers, in any history of lookups, an attestation that
  a remote registry hands out verified under the registry's key when it came in, and at the
  moment of the lookup or later than the drawn margin before its expiry. That it speaks of
  the agent asked for is not checked: any verifying attestation is handed out and cached.
\<close>

theorem remote_attestations_verified:
  assumes "client_reachable X J D N pub c"
  shows "(\<forall>a c' s'. http_get_attestation X J D N (now, jitter_secs, later) c did s = (Inr (Some a), c', s') \<longrightarrow>
      (\<exists>t. sa_verify X J t a pub = Inr ()) \<and>
      (sa_verify X J later a pub = Inr () \<or>
         now < ac_expires_at (sa_claim a) \<and> now < dt_sub X (ac_expires_at (sa_claim a)) (secs jitter_secs))) \<and>
    (\<forall>a body s'. hr_cache c did = None \<and> rm_attestation_of D body = Inr (Some a) \<and>
      sa_verify X J later a pub = Inr () \<and>
      send_signed X N (client_of c) GET (agent_path did ''/attestation'') [] s = (Inr (OK, body), s') \<longrightarrow>
      http_get_attestation X J D N (now, jitter_secs, later) c did s =
        (Inr (Some a), c\<lparr>hr_cache := (hr_cache c)(did \<mapsto> a)\<rparr>, s'))"
proof -
  note c = reachable_cache_verified [OF assms]
  have "(\<exists>t. sa_verify X J t a pub = Inr ()) \<and> (sa_verify X J later a pub = Inr () \<or>
         now < ac_expires_at (sa_claim a) \<and> now < dt_sub X (ac_expires_at (sa_claim a)) (secs jitter_secs))"
    if "http_get_attestation X J D N (now, jitter_secs, later) c did s = (Inr (Some a), c', s')" for a c' s'
    using that
  proof (cases rule: lookup_cases)
    case (cached b)
    then show ?thesis using c by (auto simp: cache_verified_def is_cache_fresh_def split: if_splits)
  qed (use c in auto)
  moreover have "http_get_attestation X J D N (now, jitter_secs, later) c did s =
        (Inr (Some a), c\<lparr>hr_cache := (hr_cache c)(did \<mapsto> a)\<rparr>, s')"
    if "hr_cache c did = None \<and> rm_attestation_of D body = Inr (Some a) \<and>
      sa_verify X J later a pub = Inr () \<and>
      send_signed X N (client_of c) GET (agent_path did ''/attestation'') [] s = (Inr (OK, body), s')" for a body s'
    using that c by (simp add: http_get_attestation_def cached_attestation_def)
  ultimately show ?thesis by blast
qed

text \<open>
  A key that a remote key store hands out is 32 bytes long, comes with an attestation that
  verifies, and is the private key of the attested public key.
\<close>

theorem remote_key_matches_attestation:
  assumes "http_load_key X J D N now c did s = (Inr (Some k), s')"
  shows "length k = 32 \<and> (\<exists>a. sa_verify X J now a (rc_registry_pubkey c) = Inr () \<and>
    ac_public_key_b64 (sa_claim a) = b64_encode X (public_bytes X k))"
proof -
  obtain body res where "rm_key_of D body = Inr (Some res)" "accept_key X J now c res = Inr k"
    using assms by (auto simp: http_load_key_def map_sum_eq_Inr split: sum.splits prod.splits if_splits option.splits)
  then show ?thesis
    by (auto simp: accept_key_def split: sum.splits if_splits intro!: exI [of _ "akr_attestation res"])
qed

section \<open>Clients of the daemon\<close>

text \<open>
  The network with the daemon at its end: the path is the part of the URL after the base,
  \<open>ser\<close> is the serialisation of the bodies.
\<close>

definition daemon_net ::
  "axum \<Rightarrow> ('r, 'k, 'p) services \<Rightarrow> moment \<Rightarrow> string \<Rightarrow> string \<Rightarrow> (http_body \<Rightarrow> bytes) \<Rightarrow>
     ('r, 'k, 'p) server_state network" where
  "daemon_net ax sv mo base peer ser call st =
     (case auth_middleware ax sv mo \<lparr>rq_method = hc_method call, rq_path = drop (length base) (hc_url call),
             rq_headers = hc_headers call, rq_body = Inr (hc_body call), rq_peer = peer\<rparr> st of
        (resp, st') \<Rightarrow> (Inr (rs_status resp, ser (rs_body resp)), st'))"

lemma client_headers_str:
  assumes "h = [''x-agt-agent-did'' \<mapsto> dv, ''x-agt-signature'' \<mapsto> sg]"
  shows "header_str h agent_did_header = header_to_str dv" "header_str h signature_header = header_to_str sg"
  unfolding assms by (simp_all only: header_str_def header_get_def header_names) simp_all

text \<open>A call of an agent on record reaches the routes; one that meets none is answered 404.\<close>

lemma unrouted_call:
  assumes "enrolled C sv mo st (rc_agent_did c) (rc_signing_key c) ring"
    and "sendable (sv_ext sv) (rc_agent_did c) (rc_signing_key c) body"
    and "dispatch ax sv mo \<lparr>rq_method = method, rq_path = path,
        rq_headers = [''x-agt-agent-did'' \<mapsto> rc_agent_did c, ''x-agt-signature'' \<mapsto> sign_body (sv_ext sv) c body],
        rq_body = Inr body, rq_peer = peer\<rparr> body st = (Inl (NOT_FOUND, []), st)"
  shows "send_signed (sv_ext sv) (daemon_net ax sv mo (rc_base_url c) peer ser) c method path body st =
    (Inr (NOT_FOUND, ser (Text [])), st)"
proof -
  let ?h = "[''x-agt-agent-did'' \<mapsto> rc_agent_did c, ''x-agt-signature'' \<mapsto> sign_body (sv_ext sv) c body]"
  let ?rq = "\<lparr>rq_method = method, rq_path = path, rq_headers = ?h, rq_body = Inr body, rq_peer = peer\<rparr>"
  have v: "metadata_value (rc_agent_did c) = Inr (rc_agent_did c)" "header_to_str (rc_agent_did c) = Some (rc_agent_did c)"
    "metadata_value (sign_body (sv_ext sv) c body) = Inr (sign_body (sv_ext sv) c body)"
    "header_to_str (sign_body (sv_ext sv) c body) = Some (sign_body (sv_ext sv) c body)"
    using assms(2) header_to_str_sendable [of "rc_agent_did c"] header_to_str_sendable [of "sign_body (sv_ext sv) c body"]
    unfolding sendable_def sign_body_def by blast+
  have "authenticate sv mo ?rq st = (Inr body, st)"
    by (rule fr.authenticate_registered [where C = C, OF _ refl refl])
      (use assms(1) v(2,4) client_headers_str [OF refl, of "rc_agent_did c" "sign_body (sv_ext sv) c body"]
       in \<open>simp_all add: enrolled_def sign_body_def\<close>)
  then have "auth_middleware ax sv mo ?rq st = (into_response True (Inl (NOT_FOUND, [])), st)"
    using assms(3) by (simp add: auth_middleware_def)
  then show ?thesis
    using v(1,3) by (simp add: send_signed_def daemon_net_def into_response_def)
qed

text \<open>
  C28: through the daemon's HTTP interface an agent on record that signs correctly finds nothing:
  its lookups of a ring, an attestation, a policy or a key are answered "none", not with an
  error, whatever the daemon has on record, since the routes with a parameter are never met.
\<close>

theorem remote_lookups_find_nothing:
  assumes "enrolled C sv mo st (rc_agent_did c) (rc_signing_key c) ring"
    and "sendable (sv_ext sv) (rc_agent_did c) (rc_signing_key c) []"
    and "literal_patterns ax" and "did \<noteq> ''{did}''" and "hr_cache c did = None"
    and "N = daemon_net ax sv mo (rc_base_url c) peer ser"
  shows "http_get_ring (sv_ext sv) D N c did st = (Inr None, st) \<and>
    http_get_attestation (sv_ext sv) J D N w c did st = (Inr None, c, st) \<and>
    http_load_key (sv_ext sv) J D N now (client_of c) did st = (Inr None, st) \<and>
    http_load_policy (sv_ext sv) D N (client_of c) did st = (Inr None, st)"
proof -
  have trunc: "rc_agent_did (client_of c) = rc_agent_did c" "rc_signing_key (client_of c) = rc_signing_key c"
    "rc_base_url (client_of c) = rc_base_url c" by (simp_all add: remote_client.truncate_def)
  have sent: "send_signed (sv_ext sv) N (client_of c) GET (agent_path did part) [] st =
      (Inr (NOT_FOUND, ser (Text [])), st)"
    if "part \<in> {''/attestation'', ''/ring'', ''/policy'', ''/key''}" for part
    unfolding assms(6) trunc(3) [symmetric]
    by (rule unrouted_call [where C = C and ring = ring])
      (use assms(1,2) that assms(4) in \<open>simp_all add: trunc agent_routes_unmatched [OF assms(3)]\<close>)
  show ?thesis
    using sent [of "''/ring''"] sent [of "''/attestation''"] sent [of "''/key''"] sent [of "''/policy''"] assms(5)
    by (auto simp: http_get_ring_def http_get_attestation_def cached_attestation_def http_load_key_def
        http_load_policy_def split: prod.split)
qed

section \<open>Witnesses\<close>

definition sample_remote_codec :: remote_codec where
  "sample_remote_codec = \<lparr>rm_register_body = \<lambda>_ _. Inr ''{}'', rm_attestation_of = \<lambda>_. Inr None,
     rm_ring_of = \<lambda>_. Inr None, rm_key_body = Inr, rm_key_of = \<lambda>_. Inr None,
     rm_policy_body = \<lambda>_. Inr ''{}'', rm_policy_of = \<lambda>_. Inr None, rm_status_text = \<lambda>_. ''404 Not Found''\<rparr>"

definition sample_client :: http_registry where
  "sample_client = http_registry_new ''http://localhost:7700'' (pad32 ''rk'') ''did:mesh:a'' ''k''"

theorem remote_lookups_find_nothing_witness:
  "mr_entries (fr_memory (ss_registry (grpc_server (log_holding [])))) ''did:mesh:s'' \<noteq> None \<and>
   http_get_ring log_ext sample_remote_codec
     (daemon_net any_axum (grpc_services log_ext) sample_moment (rc_base_url sample_client) ''peer'' (\<lambda>_. []))
     sample_client ''did:mesh:s'' (grpc_server (log_holding [])) = (Inr None, grpc_server (log_holding []))"
proof -
  have X: "sv_ext (grpc_services log_ext) = log_ext" by (simp add: grpc_services_def sample_services_def)
  have c: "rc_agent_did sample_client = ''did:mesh:a''" "rc_signing_key sample_client = ''k''"
    "hr_cache sample_client ''did:mesh:s'' = None" by (simp_all add: sample_client_def http_registry_new_def)
  have e: "enrolled sample_codec (grpc_services log_ext) sample_moment (grpc_server (log_holding []))
      (rc_agent_did sample_client) (rc_signing_key sample_client) Sandboxed"
    unfolding c by (rule grpc_enrolled) simp
  have "byte_in 32 126 d" if "d \<in> set (pad32 ''k'')" for d
    using that set_pad32 [of d "''k''"] by (auto simp: byte_in_def)
  then have s: "sendable (sv_ext (grpc_services log_ext)) (rc_agent_did sample_client) (rc_signing_key sample_client) []"
    by (simp add: sendable_def c X log_ext_simps header_to_str_def byte_in_def)
  have ax: "literal_patterns any_axum" by (simp add: literal_patterns_def any_axum_def)
  from remote_lookups_find_nothing [OF e s ax _ c(3) refl, of sample_remote_codec] show ?thesis
    unfolding X by (auto simp: grpc_server_def sample_server_def grpc_registry_def)
qed

definition sample_signed_attestation :: signed_attestation where
  "sample_signed_attestation = issue_attestation toy_ext ac_subject_did ''rk'' ''did:mesh:registry'' (0, 0)
     ''did:mesh:b'' (pad32 ''k'')"

lemma sample_signed_verifies:
  "sa_verify toy_ext ac_subject_did 5 sample_signed_attestation (pad32 ''rk'') = Inr ()"
  by (simp add: sample_signed_attestation_def issue_attestation_def sa_verify_def sa_canonical_bytes_def toy_ext_def Let_def)

lemma sample_signed_claim:
  "ac_subject_did (sa_claim sample_signed_attestation) = ''did:mesh:b''"
  "ac_public_key_b64 (sa_claim sample_signed_attestation) = pad32 ''k''"
  by (simp_all add: sample_signed_attestation_def issue_attestation_def Let_def)

text \<open>The attestation of one agent is taken for that of another.\<close>

theorem remote_attestations_verified_witness:
  "\<exists>c'. http_get_attestation toy_ext ac_subject_did
     (sample_remote_codec\<lparr>rm_attestation_of := \<lambda>_. Inr (Some sample_signed_attestation)\<rparr>)
     (\<lambda>_ s. (Inr (200, []), s)) (0, 3600, 5) sample_client ''did:mesh:a'' () =
       (Inr (Some sample_signed_attestation), c', ()) \<and>
     ac_subject_did (sa_claim sample_signed_attestation) = ''did:mesh:b''"
proof -
  let ?D = "sample_remote_codec\<lparr>rm_attestation_of := \<lambda>_. Inr (Some sample_signed_attestation)\<rparr>"
  let ?N = "\<lambda>(_ :: http_call) s :: unit. (Inr (200, []) :: (nat \<times> bytes) res, s)"
  have r: "client_reachable toy_ext ac_subject_did ?D ?N (pad32 ''rk'') sample_client"
    unfolding sample_client_def by (rule client_reachable.start)
  have m: "metadata_value (pad32 ''k'') = Inr (pad32 ''k'')" "metadata_value ''did:mesh:a'' = Inr ''did:mesh:a''"
    using set_pad32 [of _ "''k''"] by (fastforce simp: metadata_value_def byte_in_def)+
  have "send_signed toy_ext ?N (client_of sample_client) GET (agent_path ''did:mesh:a'' ''/attestation'') [] () =
      (Inr (OK, []), ())"
    using m by (simp add: send_signed_def sample_client_def http_registry_new_def remote_client.truncate_def
        sign_body_def toy_ext_def)
  moreover have "hr_cache sample_client ''did:mesh:a'' = None" by (simp add: sample_client_def http_registry_new_def)
  moreover have "rm_attestation_of ?D [] = Inr (Some sample_signed_attestation)" by simp
  ultimately have "http_get_attestation toy_ext ac_subject_did ?D ?N (0, 3600, 5) sample_client ''did:mesh:a'' () =
      (Inr (Some sample_signed_attestation),
       sample_client\<lparr>hr_cache := (hr_cache sample_client)(''did:mesh:a'' \<mapsto> sample_signed_attestation)\<rparr>, ())"
    using conjunct2 [OF remote_attestations_verified [OF r, of 0 3600 5 "''did:mesh:a''" "()"]]
      sample_signed_verifies by blast
  then show ?thesis by (simp add: sample_signed_claim)
qed

theorem remote_key_matches_attestation_witness:
  "\<exists>k. fst (http_load_key toy_ext ac_subject_did (sample_remote_codec\<lparr>rm_key_of :=
        \<lambda>_. Inr (Some \<lparr>akr_key_b64 = pad32 ''k'', akr_attestation = sample_signed_attestation\<rparr>)\<rparr>)
      (\<lambda>_ s. (Inr (200, []), s)) 5 (client_of sample_client) ''did:mesh:a'' ()) = Inr (Some k) \<and> length k = 32"
proof -
  let ?D = "sample_remote_codec\<lparr>rm_key_of :=
        \<lambda>_. Inr (Some \<lparr>akr_key_b64 = pad32 ''k'', akr_attestation = sample_signed_attestation\<rparr>)\<rparr>"
  have m: "metadata_value (pad32 ''k'') = Inr (pad32 ''k'')" "metadata_value ''did:mesh:a'' = Inr ''did:mesh:a''"
    using set_pad32 [of _ "''k''"] by (fastforce simp: metadata_value_def byte_in_def)+
  have p: "pad32 (pad32 ''k'') = pad32 ''k''" by (simp add: pad32_def)
  have "accept_key toy_ext ac_subject_did 5 (client_of sample_client)
      \<lparr>akr_key_b64 = pad32 ''k'', akr_attestation = sample_signed_attestation\<rparr> = Inr (pad32 ''k'')"
    using sample_signed_verifies
    by (simp add: accept_key_def sample_client_def http_registry_new_def remote_client.truncate_def)
      (simp add: toy_ext_def sample_signed_claim p)
  then have l: "http_load_key toy_ext ac_subject_did ?D (\<lambda>_ s. (Inr (200, []), s)) 5 (client_of sample_client)
      ''did:mesh:a'' () = (Inr (Some (pad32 ''k'')), ())"
    using m by (simp add: http_load_key_def send_signed_def sample_client_def http_registry_new_def
        remote_client.truncate_def sign_body_def toy_ext_def)
  from remote_key_matches_attestation [OF l] l show ?thesis by auto
qed

end
