(* ===== verification/Remote_Policy.thy ===== *)
theory Remote_Policy
  imports Grpc_Safety
begin

text \<open>
  \<open>NetworkPolicyStore\<close>, the policy store over gRPC of
  \<open>crates/ext/mcp-governance/src/store.rs\<close>, and that with the daemon's escalation service
  at the other end it keeps the contract \<open>policy_table\<close>: what is saved through it is loaded
  through it. The connection (\<open>tonic\<close>) is the parameter \<open>rpc\<close>, instantiated with the server.
\<close>

section \<open>The store\<close>

record network_policy_store =
  nps_server_addr :: string
  nps_agent_did :: string
  nps_signing_key :: signing_key

definition network_policy_store_new :: "string \<Rightarrow> string \<Rightarrow> signing_key \<Rightarrow> network_policy_store" where
  "network_policy_store_new server_addr agent_did signing_key =
     \<lparr>nps_server_addr = server_addr, nps_agent_did = agent_did, nps_signing_key = signing_key\<rparr>"

text \<open>Connecting to an address, the two calls, and the text of a status.\<close>

record 's rpc =
  rp_connect :: "string \<Rightarrow> unit res"
  rp_set_policy :: "headers \<Rightarrow> proto_set_policy_request \<Rightarrow> 's \<Rightarrow> (grpc_status + proto_policy_response) \<times> 's"
  rp_get_policy :: "headers \<Rightarrow> string \<Rightarrow> 's \<Rightarrow> (grpc_status + proto_policy_response) \<times> 's"
  rp_status_text :: "grpc_status \<Rightarrow> string"

definition get_client :: "'s rpc \<Rightarrow> network_policy_store \<Rightarrow> unit res" where
  "get_client net c = map_err (\<lambda>e. ''Failed to connect to gRPC server: '' @ e) (rp_connect net (nps_server_addr c))"

definition network_save_policy ::
  "ext \<Rightarrow> grpc_ext \<Rightarrow> 's rpc \<Rightarrow> network_policy_store \<Rightarrow> 's \<Rightarrow> string \<Rightarrow> mcp_policy \<Rightarrow> unit res \<times> 's" where
  "network_save_policy X G net c s agent_did policy =
     (case get_client net c of
        Inl e \<Rightarrow> (Inl e, s)
      | Inr _ \<Rightarrow> (case gx_policy_to_json G policy of
          Inl e \<Rightarrow> (Inl e, s)
        | Inr policy_json \<Rightarrow>
            let req = \<lparr>psp_agent_did = agent_did, psp_policy_json = policy_json\<rparr> in
            (case signed_metadata X (nps_signing_key c) (nps_agent_did c) (gx_enc_set_policy G req) of
               Inl e \<Rightarrow> (Inl e, s)
             | Inr md \<Rightarrow> (case rp_set_policy net md req s of
                 (Inl st, s') \<Rightarrow> (Inl (rp_status_text net st), s')
               | (Inr response, s') \<Rightarrow>
                   (if pre_success response then Inr () else Inl ''Failed to save policy via gRPC'', s')))))"

definition network_load_policy ::
  "ext \<Rightarrow> grpc_ext \<Rightarrow> 's rpc \<Rightarrow> network_policy_store \<Rightarrow> 's \<Rightarrow> string \<Rightarrow> mcp_policy option res \<times> 's" where
  "network_load_policy X G net c s agent_did =
     (case get_client net c of
        Inl e \<Rightarrow> (Inl e, s)
      | Inr _ \<Rightarrow>
          (case signed_metadata X (nps_signing_key c) (nps_agent_did c) (gx_enc_get_policy G agent_did) of
             Inl e \<Rightarrow> (Inl e, s)
           | Inr md \<Rightarrow> (case rp_get_policy net md agent_did s of
               (Inl st, s') \<Rightarrow> (Inl (rp_status_text net st), s')
             | (Inr response, s') \<Rightarrow>
                 (if pre_success response \<and> pre_policy_json response \<noteq> []
                  then map_sum id Some (gx_policy_of_json G (pre_policy_json response))
                  else Inr None, s'))))"

definition network_delete_policy :: "'s \<Rightarrow> string \<Rightarrow> unit res \<times> 's" where
  "network_delete_policy s agent_did = (Inl ''Delete not implemented in NetworkPolicyStore'', s)"

definition network_list_policies :: "'s \<Rightarrow> (string \<rightharpoonup> mcp_policy) res \<times> 's" where
  "network_list_policies s = (Inl ''List not implemented in NetworkPolicyStore'', s)"

definition network_policy_ops :: "ext \<Rightarrow> grpc_ext \<Rightarrow> 's rpc \<Rightarrow> network_policy_store \<Rightarrow> 's policy_ops" where
  "network_policy_ops X G net c = \<lparr>ps_save = network_save_policy X G net c,
     ps_load = network_load_policy X G net c, ps_delete = network_delete_policy\<rparr>"

section \<open>With the daemon at the other end\<close>

definition server_rpc ::
  "grpc_ext \<Rightarrow> ('r, 'k, 'p) services \<Rightarrow> moment \<Rightarrow> (grpc_status \<Rightarrow> string) \<Rightarrow> ('r, 'k, 'p) server_state rpc" where
  "server_rpc G sv mo say = \<lparr>rp_connect = \<lambda>_. Inr (), rp_set_policy = grpc_set_policy G sv mo,
     rp_get_policy = grpc_get_policy G sv mo, rp_status_text = say\<rparr>"

text \<open>A policy whose JSON on the wire is not empty and reads back.\<close>

definition wire_ok :: "grpc_ext \<Rightarrow> mcp_policy \<Rightarrow> bool" where
  "wire_ok G p \<longleftrightarrow> (\<exists>j. gx_policy_to_json G p = Inr j \<and> j \<noteq> [] \<and> gx_policy_of_json G j = Inr p)"

text \<open>
  The client is on record at the server and can send its signatures, the server's policies
  are in files in good order, and every policy on record can be sent.
\<close>

definition network_usable ::
  "registry_codec \<Rightarrow> policy_codec \<Rightarrow> string set \<Rightarrow> grpc_ext \<Rightarrow> (file_registry, 'k, file_policy_store) services \<Rightarrow>
     moment \<Rightarrow> network_policy_store \<Rightarrow> (file_registry, 'k, file_policy_store) server_state \<Rightarrow> bool" where
  "network_usable C PC D G sv mo c st \<longleftrightarrow>
     (\<exists>ring. enrolled C sv mo st (nps_agent_did c) (nps_signing_key c) ring) \<and>
     (\<forall>body. sendable (sv_ext sv) (nps_agent_did c) (nps_signing_key c) body) \<and>
     sv_policies sv = file_policy_ops (sv_ext sv) PC \<and>
     fps_usable (sv_ext sv) PC D (ss_policy_store st) \<and>
     (\<forall>d\<in>D. \<forall>p. fps_policies (sv_ext sv) PC (ss_policy_store st) d = Some p \<longrightarrow> wire_ok G p)"

lemma enrolled_policy_store [simp]:
  "enrolled C sv mo (st\<lparr>ss_policy_store := ps\<rparr>) did key ring = enrolled C sv mo st did key ring"
  by (simp add: enrolled_def)

lemma network_usable_call:
  assumes "network_usable C PC D G sv mo c st"
  obtains md where "signed_metadata (sv_ext sv) (nps_signing_key c) (nps_agent_did c) body = Inr md"
    and "\<And>f :: string \<Rightarrow> _ \<Rightarrow> (grpc_status + proto_policy_response) \<times> _.
      with_grpc_auth sv mo md body f st = f (nps_agent_did c) st"
proof -
  obtain ring where e: "enrolled C sv mo st (nps_agent_did c) (nps_signing_key c) ring"
    and s: "sendable (sv_ext sv) (nps_agent_did c) (nps_signing_key c) body"
    using assms unfolding network_usable_def by blast
  then have "crypto_ok (sv_ext sv)" by (simp add: enrolled_def)
  then obtain md where md: "signed_metadata (sv_ext sv) (nps_signing_key c) (nps_agent_did c) body = Inr md"
    by (rule signed_metadata_extracted [OF _ s])
  show thesis by (rule that [OF md enrolled_call(2) [OF e s md]])
qed

lemma network_save_effect:
  assumes "network_usable C PC D G sv mo c st" "d \<in> D" "policy_json_ok PC p \<and> wire_ok G p"
  shows "\<exists>ps. network_save_policy (sv_ext sv) G (server_rpc G sv mo say) c st d p =
      (Inr (), st\<lparr>ss_policy_store := ps\<rparr>) \<and>
    network_usable C PC D G sv mo c (st\<lparr>ss_policy_store := ps\<rparr>) \<and>
    (\<forall>d'\<in>D. fps_policies (sv_ext sv) PC ps d' =
      (if d' = d then Some p else fps_policies (sv_ext sv) PC (ss_policy_store st) d'))"
proof -
  have u: "fps_usable (sv_ext sv) PC D (ss_policy_store st)" "sv_policies sv = file_policy_ops (sv_ext sv) PC"
    using assms(1) by (simp_all add: network_usable_def)
  obtain j where j: "gx_policy_to_json G p = Inr j" "j \<noteq> []" "gx_policy_of_json G j = Inr p"
    using assms(3) unfolding wire_ok_def by blast
  obtain ps where ps: "fps_save_policy (sv_ext sv) PC (ss_policy_store st) d p = (Inr (), ps)"
    "fps_usable (sv_ext sv) PC D ps"
    "\<forall>d'\<in>D. fps_policies (sv_ext sv) PC ps d' =
      (if d' = d then Some p else fps_policies (sv_ext sv) PC (ss_policy_store st) d')"
    using fps_save_usable [OF u(1) assms(2)] assms(3) by blast
  obtain md where md: "signed_metadata (sv_ext sv) (nps_signing_key c) (nps_agent_did c)
      (gx_enc_set_policy G \<lparr>psp_agent_did = d, psp_policy_json = j\<rparr>) = Inr md"
    "\<And>f :: string \<Rightarrow> _ \<Rightarrow> (grpc_status + proto_policy_response) \<times> _.
      with_grpc_auth sv mo md (gx_enc_set_policy G \<lparr>psp_agent_did = d, psp_policy_json = j\<rparr>) f st =
      f (nps_agent_did c) st"
    by (rule network_usable_call [OF assms(1), where body = "gx_enc_set_policy G \<lparr>psp_agent_did = d, psp_policy_json = j\<rparr>"]) (rule that)
  have "network_save_policy (sv_ext sv) G (server_rpc G sv mo say) c st d p =
      (Inr (), st\<lparr>ss_policy_store := ps\<rparr>)"
    using j md ps(1) u(2)
    by (simp add: network_save_policy_def get_client_def server_rpc_def grpc_set_policy_def file_policy_ops_def Let_def)
  moreover have "network_usable C PC D G sv mo c (st\<lparr>ss_policy_store := ps\<rparr>)"
    using assms(1,3) ps(2,3) unfolding network_usable_def by auto
  ultimately show ?thesis using ps(3) by blast
qed

lemma network_load_effect:
  assumes "network_usable C PC D G sv mo c st" "d \<in> D"
  shows "network_load_policy (sv_ext sv) G (server_rpc G sv mo say) c st d =
    (Inr (fps_policies (sv_ext sv) PC (ss_policy_store st) d), st)"
proof -
  have u: "fps_usable (sv_ext sv) PC D (ss_policy_store st)" "sv_policies sv = file_policy_ops (sv_ext sv) PC"
    using assms(1) by (simp_all add: network_usable_def)
  obtain md where md: "signed_metadata (sv_ext sv) (nps_signing_key c) (nps_agent_did c) (gx_enc_get_policy G d) = Inr md"
    "\<And>f :: string \<Rightarrow> _ \<Rightarrow> (grpc_status + proto_policy_response) \<times> _.
      with_grpc_auth sv mo md (gx_enc_get_policy G d) f st = f (nps_agent_did c) st"
    by (rule network_usable_call [OF assms(1), where body = "gx_enc_get_policy G d"]) (rule that)
  have load: "fps_load_policy (sv_ext sv) PC (ss_policy_store st) d =
      (Inr (fps_policies (sv_ext sv) PC (ss_policy_store st) d), ss_policy_store st)"
    by (rule fps_load_usable [OF u(1) assms(2)])
  show ?thesis
  proof (cases "fps_policies (sv_ext sv) PC (ss_policy_store st) d")
    case None
    then show ?thesis using md load u(2)
      by (simp add: network_load_policy_def get_client_def server_rpc_def grpc_get_policy_def file_policy_ops_def)
  next
    case (Some p)
    then obtain j where j: "gx_policy_to_json G p = Inr j" "j \<noteq> []" "gx_policy_of_json G j = Inr p"
      using assms unfolding network_usable_def wire_ok_def by blast
    then show ?thesis using md load u(2) Some
      by (simp add: network_load_policy_def get_client_def server_rpc_def grpc_get_policy_def file_policy_ops_def)
  qed
qed

interpretation nps: policy_table "network_policy_ops (sv_ext sv) G (server_rpc G sv mo say) c"
    "\<lambda>st. fps_policies (sv_ext sv) PC (ss_policy_store st)" "network_usable C PC D G sv mo c" "\<lambda>_. D"
    "\<lambda>p. policy_json_ok PC p \<and> wire_ok G p"
  for sv G mo say c PC C D
proof unfold_locales
  fix st d p
  assume "network_usable C PC D G sv mo c st" "d \<in> D" "policy_json_ok PC p \<and> wire_ok G p"
  from network_save_effect [OF this, of say]
  show "\<exists>s'. ps_save (network_policy_ops (sv_ext sv) G (server_rpc G sv mo say) c) st d p = (Inr (), s') \<and>
      network_usable C PC D G sv mo c s' \<and> D = D \<and>
      (\<forall>d'\<in>D. fps_policies (sv_ext sv) PC (ss_policy_store s') d' =
        (if d' = d then Some p else fps_policies (sv_ext sv) PC (ss_policy_store st) d'))"
    by (auto simp: network_policy_ops_def)
next
  fix st d
  assume "network_usable C PC D G sv mo c st" "d \<in> D"
  from network_load_effect [OF this, of say] this(1)
  show "\<exists>s'. ps_load (network_policy_ops (sv_ext sv) G (server_rpc G sv mo say) c) st d =
        (Inr (fps_policies (sv_ext sv) PC (ss_policy_store st) d), s') \<and>
      network_usable C PC D G sv mo c s' \<and> D = D \<and>
      (\<forall>d'\<in>D. fps_policies (sv_ext sv) PC (ss_policy_store s') d' =
        fps_policies (sv_ext sv) PC (ss_policy_store st) d')"
    by (simp add: network_policy_ops_def)
qed

section \<open>Properties\<close>

text \<open>
  C24: the policy store over gRPC refines the file store behind the daemon: a policy saved by a
  remote agent on record is what that agent then loads over the network, what the daemon
  loads from its files, and the policies of all other agents are untouched.
\<close>

theorem network_store_refines_file_store:
  assumes "network_usable C PC D G sv mo c st" and "d \<in> D" and "d' \<in> D"
    and "policy_json_ok PC p" and "wire_ok G p"
    and "network_save_policy (sv_ext sv) G (server_rpc G sv mo say) c st d p = (r, st')"
  shows "r = Inr () \<and>
    fst (network_load_policy (sv_ext sv) G (server_rpc G sv mo say) c st' d') =
      (if d' = d then Inr (Some p) else fst (network_load_policy (sv_ext sv) G (server_rpc G sv mo say) c st d')) \<and>
    fst (network_load_policy (sv_ext sv) G (server_rpc G sv mo say) c st' d') =
      fst (fps_load_policy (sv_ext sv) PC (ss_policy_store st') d')"
proof -
  have save: "ps_save (network_policy_ops (sv_ext sv) G (server_rpc G sv mo say) c) st d p = (r, st')"
    using assms(6) by (simp add: network_policy_ops_def)
  have load: "ps_load (network_policy_ops (sv_ext sv) G (server_rpc G sv mo say) c) =
      network_load_policy (sv_ext sv) G (server_rpc G sv mo say) c"
    by (simp add: network_policy_ops_def)
  have "r = Inr () \<and> fst (network_load_policy (sv_ext sv) G (server_rpc G sv mo say) c st' d') =
      Inr (if d' = d then Some p else fps_policies (sv_ext sv) PC (ss_policy_store st) d')"
    using nps.load_after_save [OF assms(1,2) _ save assms(3)] assms(4,5) unfolding load by blast
  moreover obtain ps where "st' = st\<lparr>ss_policy_store := ps\<rparr>" "network_usable C PC D G sv mo c st'"
    using network_save_effect [OF assms(1,2), of p say] assms(4-6) by auto
  moreover from this(2) have "fps_usable (sv_ext sv) PC D (ss_policy_store st')"
    by (simp add: network_usable_def)
  ultimately show ?thesis
    using network_load_effect [OF assms(1,3), of say] network_load_effect [of C PC D G sv mo c st' d' say]
      fps_load_usable [of "sv_ext sv" PC D "ss_policy_store st'" d'] assms(3)
    by simp
qed

section \<open>Witness\<close>

definition hex_ext :: ext where
  "hex_ext = toy_ext\<lparr>b64_encode := to_hex, b64_decode := \<lambda>s. Inr (from_hex s)\<rparr>"

lemma hex_ext_facts:
  "crypto_ok hex_ext" "sha_ok hex_ext" "sha256_hex hex_ext ''a'' \<noteq> sha256_hex hex_ext ''b''"
  using crypto_ok_toy sha_ok_toy toy_hash_ab by (simp_all add: hex_ext_def crypto_ok_def sha_ok_def)

lemma hex_ext_sendable: "sendable hex_ext ''did:mesh:a'' key body"
proof -
  have "\<forall>c\<in>set hex_digits. byte_in 32 126 c" by (simp add: hex_digits_def byte_in_def)
  then have "header_to_str (to_hex b) \<noteq> None" for b
    using set_to_hex [of b] by (auto simp: header_to_str_def)
  then show ?thesis by (simp add: sendable_def hex_ext_def header_to_str_def byte_in_def)
qed

definition hex_services :: "(file_registry, memory_key_store, file_policy_store) services" where
  "hex_services = \<lparr>sv_ext = hex_ext, sv_claims = ac_subject_did, sv_event_json = \<lambda>_. Inr ''{}'',
     sv_log_codec = exec_codec, sv_registry = file_registry_ops hex_ext ac_subject_did sample_codec,
     sv_keys = memory_keystore_ops, sv_policies = file_policy_ops hex_ext sample_policy_codec\<rparr>"

definition hex_server :: "(file_registry, memory_key_store, file_policy_store) server_state" where
  "hex_server = \<lparr>ss_registry = sample_file_registry\<lparr>fr_memory := (mr_new ''rk'' ''did:mesh:registry'')
        \<lparr>mr_entries := [''did:mesh:a'' \<mapsto> (to_hex (pad32 ''k''), Standard)]\<rparr>\<rparr>,
     ss_key_store = mks_new, ss_policy_store = sample_policy_dir,
     ss_escalation_manager = sample_manager, ss_discovery_manager = dm_new,
     ss_compliance_verifier = default_policy hex_ext, ss_action_log = log_holding [], ss_siem_exporter = True,
     ss_exported = [], ss_registry_pubkey = to_hex (pad32 ''rk'')\<rparr>"

definition hex_client :: network_policy_store where
  "hex_client = \<lparr>nps_server_addr = ''http://localhost:50051'', nps_agent_did = ''did:mesh:a'',
     nps_signing_key = ''k''\<rparr>"

theorem network_store_refines_file_store_witness:
  "\<exists>st'. network_save_policy hex_ext sample_grpc_ext
       (server_rpc sample_grpc_ext hex_services sample_moment (\<lambda>_. [])) hex_client hex_server ''a'' sample_policy =
     (Inr (), st') \<and>
   fst (network_load_policy hex_ext sample_grpc_ext
       (server_rpc sample_grpc_ext hex_services sample_moment (\<lambda>_. [])) hex_client st' ''a'') =
     Inr (Some sample_policy)"
proof -
  have X: "sv_ext hex_services = hex_ext" by (simp add: hex_services_def)
  have b: "b64_encode hex_ext = to_hex" "public_bytes hex_ext = pad32" "dt_add hex_ext = (+)"
    by (simp_all add: hex_ext_def toy_ext_def)
  have e: "enrolled sample_codec hex_services sample_moment hex_server ''did:mesh:a'' ''k'' Standard"
    by (simp add: enrolled_def X hex_ext_facts(1) b) (simp add: hex_services_def hex_server_def
        sample_file_registry_def mr_new_def fr_usable_def sample_codec_def sample_moment_def)
  have f: "fps_usable hex_ext sample_policy_codec {''a'', ''b''} (ss_policy_store hex_server)"
    using hex_ext_facts by (simp add: fps_usable_def sample_policy_dir_def hex_server_def)
  have "\<exists>ring. enrolled sample_codec hex_services sample_moment hex_server
      (nps_agent_did hex_client) (nps_signing_key hex_client) ring"
    using e by (auto simp: hex_client_def)
  moreover have "wire_ok sample_grpc_ext sample_policy" "\<forall>d. fps_policies hex_ext sample_policy_codec (ss_policy_store hex_server) d = None"
    by (simp_all add: wire_ok_def sample_grpc_ext_def fps_policies_def hex_server_def sample_policy_dir_def)
  moreover have "\<forall>body. sendable hex_ext (nps_agent_did hex_client) (nps_signing_key hex_client) body"
    unfolding hex_client_def network_policy_store.simps by (intro allI hex_ext_sendable)
  ultimately have u: "network_usable sample_codec sample_policy_codec {''a'', ''b''} sample_grpc_ext hex_services
      sample_moment hex_client hex_server"
    using f by (simp add: network_usable_def X) (simp add: hex_services_def)
  have p: "policy_json_ok sample_policy_codec sample_policy"
    by (simp add: policy_json_ok_def sample_policy_codec_def byte_in_def)
  obtain r st' where s: "network_save_policy (sv_ext hex_services) sample_grpc_ext
      (server_rpc sample_grpc_ext hex_services sample_moment (\<lambda>_. [])) hex_client hex_server ''a'' sample_policy = (r, st')"
    by fastforce
  from network_store_refines_file_store [OF u _ _ p \<open>wire_ok sample_grpc_ext sample_policy\<close> s, of "''a''"] s
  show ?thesis unfolding X by auto
qed

end
