(* ===== verification/Keystore_File.thy ===== *)
theory Keystore_File
  imports Keystore Hashed_Files
begin

text \<open>
  Private keys in encrypted files, \<open>FileKeyStore\<close> of
  \<open>crates/core/mesh/src/identity/keystore.rs\<close>: one JSON file per agent, named by the hash
  of its DID, holding the key sealed with XChaCha20-Poly1305 under a key that Argon2 derives
  from the passphrase. It interprets the contract \<open>key_store\<close>; a store opened again with
  the passphrase reads the keys, one opened with another passphrase does not.
\<close>

section \<open>Third-party code\<close>

text \<open>
  \<open>Argon2::default().hash_password_into\<close> (password and salt), \<open>XChaCha20Poly1305::encrypt\<close>
  and \<open>decrypt\<close> (key, nonce, message), and \<open>serde_json\<close> for \<open>EncryptedKeyFile\<close>. The errors are
  their texts.
\<close>

record encrypted_key_file =
  ek_salt :: string
  ek_nonce :: string
  ek_ciphertext :: string

record key_crypto =
  kc_argon2 :: "bytes \<Rightarrow> bytes \<Rightarrow> bytes res"
  kc_encrypt :: "bytes \<Rightarrow> bytes \<Rightarrow> bytes \<Rightarrow> bytes res"
  kc_decrypt :: "bytes \<Rightarrow> bytes \<Rightarrow> bytes \<Rightarrow> bytes res"
  kc_to_json :: "encrypted_key_file \<Rightarrow> string res"
  kc_of_json :: "string \<Rightarrow> encrypted_key_file res"

text \<open>
  Documented behaviour: a key of up to 32 bytes is sealed, what was sealed opens under the
  same key and nonce, and the JSON of a key file is text that reads back.
\<close>

definition key_crypto_ok :: "key_crypto \<Rightarrow> bool" where
  "key_crypto_ok A \<longleftrightarrow>
     (\<forall>kek n m. length m = 32 \<longrightarrow> (\<exists>c. kc_encrypt A kek n m = Inr c \<and> kc_decrypt A kek n c = Inr m)) \<and>
     (\<forall>f. \<exists>j. kc_to_json A f = Inr j \<and> utf8_valid j \<and> kc_of_json A j = Inr f)"

text \<open>
  What authenticated encryption promises of two keys: what was sealed under one is
  rejected under the other. \<open>key_crypto_separates\<close> asks it of all distinct keys of 32 bytes, the
  size of the buffer Argon2 fills.
\<close>

definition keys_apart :: "key_crypto \<Rightarrow> bytes \<Rightarrow> bytes \<Rightarrow> bool" where
  "keys_apart A kek kek' \<longleftrightarrow>
     (\<forall>n m c. kc_encrypt A kek n m = Inr c \<longrightarrow> kc_decrypt A kek' n c = Inl ''aead::Error'')"

definition key_crypto_separates :: "key_crypto \<Rightarrow> bool" where
  "key_crypto_separates A \<longleftrightarrow>
     (\<forall>kek kek'. length kek = 32 \<longrightarrow> length kek' = 32 \<longrightarrow> kek \<noteq> kek' \<longrightarrow> keys_apart A kek kek') \<and>
     (\<forall>p salt kek. kc_argon2 A p salt = Inr kek \<longrightarrow> length kek = 32)"

section \<open>The store\<close>

text \<open>
  \<open>fks_random\<close> is the sequence of bytes the operating system's generator delivers and
  \<open>fks_drawn\<close> how many were drawn from it; \<open>fill_bytes n\<close> draws \<open>n\<close> of them.
\<close>

record file_key_store =
  fks_base_dir :: string
  fks_kek :: bytes
  fks_fs :: fs
  fks_random :: "nat \<Rightarrow> char"
  fks_drawn :: nat

definition fill_bytes :: "nat \<Rightarrow> file_key_store \<Rightarrow> bytes \<times> file_key_store" where
  "fill_bytes n s =
     (map (fks_random s) [fks_drawn s ..< fks_drawn s + n], s\<lparr>fks_drawn := fks_drawn s + n\<rparr>)"

definition kek_salt :: bytes where "kek_salt = ''microsoft-agt-rust-stable-salt-01''"

text \<open>\<open>dir_exists\<close> says what \<open>base_dir.exists()\<close> answered.\<close>

definition fks_new ::
  "key_crypto \<Rightarrow> bool \<Rightarrow> (nat \<Rightarrow> char) \<Rightarrow> string \<Rightarrow> string \<Rightarrow> fs \<Rightarrow> file_key_store res \<times> fs" where
  "fks_new A dir_exists random base_dir passphrase w =
     (case (if dir_exists then (Io_ok, w) else fs_next w) of
        (Io_err e _, w') \<Rightarrow> (Inl e, w')
      | (Io_ok, w') \<Rightarrow>
          (case kc_argon2 A passphrase kek_salt of
             Inl e \<Rightarrow> (Inl (''KDF failure: '' @ e), w')
           | Inr kek \<Rightarrow>
               (Inr \<lparr>fks_base_dir = base_dir, fks_kek = kek, fks_fs = w', fks_random = random,
                     fks_drawn = 0\<rparr>, w')))"

definition fks_get_path :: "ext \<Rightarrow> file_key_store \<Rightarrow> string \<Rightarrow> string" where
  "fks_get_path X s agent_did = path_join (fks_base_dir s) (sha256_hex X agent_did @ ''.json'')"

definition fks_save_key ::
  "ext \<Rightarrow> key_crypto \<Rightarrow> file_key_store \<Rightarrow> string \<Rightarrow> signing_key \<Rightarrow> unit res \<times> file_key_store" where
  "fks_save_key X A s agent_did key =
     (let path = fks_get_path X s agent_did;
          (salt_bytes, s1) = fill_bytes 16 s;
          (nonce_bytes, s2) = fill_bytes 24 s1
      in case kc_encrypt A (fks_kek s2) nonce_bytes key of
           Inl e \<Rightarrow> (Inl (''Encryption failure: '' @ e), s2)
         | Inr ciphertext \<Rightarrow>
             (case kc_to_json A \<lparr>ek_salt = b64_encode X salt_bytes,
                ek_nonce = b64_encode X nonce_bytes, ek_ciphertext = b64_encode X ciphertext\<rparr> of
                Inl e \<Rightarrow> (Inl e, s2)
              | Inr json \<Rightarrow>
                  let tmp_path = with_extension ''tmp'' path in
                  (case fs_write tmp_path json (fks_fs s2) of
                     (Inl e, w) \<Rightarrow> (Inl e, s2\<lparr>fks_fs := w\<rparr>)
                   | (Inr _, w) \<Rightarrow>
                       (case fs_rename tmp_path path w of (r, w') \<Rightarrow> (r, s2\<lparr>fks_fs := w'\<rparr>)))))"

text \<open>
  What \<open>load_key\<close> makes of the text of a key file. \<open>XNonce::from_slice\<close> panics, \<open>None\<close>, on
  a nonce that does not have 24 bytes.
\<close>

definition open_key_file ::
  "ext \<Rightarrow> key_crypto \<Rightarrow> bytes \<Rightarrow> string \<Rightarrow> signing_key res option" where
  "open_key_file X A kek json =
     (case kc_of_json A json of
        Inl e \<Rightarrow> Some (Inl e)
      | Inr key_file \<Rightarrow> (case b64_decode X (ek_nonce key_file) of
          Inl e \<Rightarrow> Some (Inl e)
        | Inr nonce_bytes \<Rightarrow> (case b64_decode X (ek_ciphertext key_file) of
            Inl e \<Rightarrow> Some (Inl e)
          | Inr ciphertext \<Rightarrow>
              if length nonce_bytes \<noteq> 24 then None
              else (case kc_decrypt A kek nonce_bytes ciphertext of
                  Inl e \<Rightarrow> Some (Inl (''Decryption failure: '' @ e))
                | Inr plaintext \<Rightarrow>
                    if length plaintext \<noteq> 32 then Some (Inl ''Invalid key length'')
                    else Some (Inr plaintext)))))"

definition fks_load_key ::
  "ext \<Rightarrow> key_crypto \<Rightarrow> file_key_store \<Rightarrow> string \<Rightarrow> signing_key option res option \<times> file_key_store" where
  "fks_load_key X A s agent_did =
     (let path = fks_get_path X s agent_did in
      case fs_exists path (fks_fs s) of
        (False, w) \<Rightarrow> (Some (Inr None), s\<lparr>fks_fs := w\<rparr>)
      | (True, w) \<Rightarrow>
          (case fs_read_to_string path w of
             (Inl e, w') \<Rightarrow> (Some (Inl e), s\<lparr>fks_fs := w'\<rparr>)
           | (Inr json, w') \<Rightarrow>
               (map_option (map_sum id Some) (open_key_file X A (fks_kek s) json), s\<lparr>fks_fs := w'\<rparr>)))"

definition fks_delete_key ::
  "ext \<Rightarrow> file_key_store \<Rightarrow> string \<Rightarrow> unit res \<times> file_key_store" where
  "fks_delete_key X s agent_did =
     (let path = fks_get_path X s agent_did in
      case fs_exists path (fks_fs s) of
        (False, w) \<Rightarrow> (Inr (), s\<lparr>fks_fs := w\<rparr>)
      | (True, w) \<Rightarrow> (case fs_remove path w of (r, w') \<Rightarrow> (r, s\<lparr>fks_fs := w'\<rparr>)))"

text \<open>
  As operations of the trait; a panic unwinds through the caller, which the result type
  of the trait cannot say, so it is shown as an error here.
\<close>

definition file_keystore_ops :: "ext \<Rightarrow> key_crypto \<Rightarrow> file_key_store keystore_ops" where
  "file_keystore_ops X A =
     \<lparr>ks_save = fks_save_key X A,
      ks_load = (\<lambda>s d. case fks_load_key X A s d of
          (None, s') \<Rightarrow> (Inl ''panicked'', s')
        | (Some r, s') \<Rightarrow> (r, s')),
      ks_delete = fks_delete_key X\<rparr>"

section \<open>The contract\<close>

text \<open>Distinct agents have distinct files, and the temporary file is no agent's file.\<close>

lemma fks_get_path_dir: "fks_base_dir s' = fks_base_dir s \<Longrightarrow> fks_get_path X s' = fks_get_path X s"
  by (simp add: fks_get_path_def fun_eq_iff)

lemma fks_path_facts:
  assumes "sha_ok X"
  shows "fks_get_path X s d' \<noteq> with_extension ''tmp'' (fks_get_path X s d)"
    and "inj_on (sha256_hex X) D \<Longrightarrow> d \<in> D \<Longrightarrow> d' \<in> D \<Longrightarrow> fks_get_path X s d = fks_get_path X s d' \<longleftrightarrow> d = d'"
  using hashed_paths [OF assms] by (auto simp: fks_get_path_def)

definition fks_keys :: "ext \<Rightarrow> key_crypto \<Rightarrow> file_key_store \<Rightarrow> string \<rightharpoonup> signing_key" where
  "fks_keys X A s d = (case files (fks_fs s) (fks_get_path X s d) of
       None \<Rightarrow> None
     | Some c \<Rightarrow> (case open_key_file X A (fks_kek s) c of Some (Inr k) \<Rightarrow> Some k | _ \<Rightarrow> None))"

text \<open>
  The agents \<open>D\<close> have distinct hashes, the key files open under the store's key and no
  system call fails.
\<close>

definition fks_usable :: "ext \<Rightarrow> key_crypto \<Rightarrow> string set \<Rightarrow> file_key_store \<Rightarrow> bool" where
  "fks_usable X A D s \<longleftrightarrow> sha_ok X \<and> crypto_ok X \<and> key_crypto_ok A \<and> inj_on (sha256_hex X) D \<and>
     script (fks_fs s) = [] \<and>
     (\<forall>d\<in>D. \<forall>c. files (fks_fs s) (fks_get_path X s d) = Some c \<longrightarrow>
        utf8_valid c \<and> (\<exists>k. open_key_file X A (fks_kek s) c = Some (Inr k)))"

lemma open_saved_key:
  assumes "crypto_ok X" "key_crypto_ok A" "length nonce = 24"
    and "kc_encrypt A kek nonce k = Inr c" "kc_decrypt A kek' nonce c = r"
    and "kc_to_json A \<lparr>ek_salt = t, ek_nonce = b64_encode X nonce, ek_ciphertext = b64_encode X c\<rparr> = Inr j"
  shows "open_key_file X A kek' j = Some (case r of
      Inl e \<Rightarrow> Inl (''Decryption failure: '' @ e)
    | Inr p \<Rightarrow> if length p \<noteq> 32 then Inl ''Invalid key length'' else Inr p)"
proof -
  have "kc_of_json A j = Inr \<lparr>ek_salt = t, ek_nonce = b64_encode X nonce, ek_ciphertext = b64_encode X c\<rparr>"
    using assms(2,6) unfolding key_crypto_ok_def by (metis sum.inject(2))
  then show ?thesis
    using assms crypto_okD(1) [OF assms(1)] by (auto simp: open_key_file_def split: sum.splits)
qed

text \<open>What a save without failures does: a new file, sealed under a fresh nonce.\<close>

lemma fks_save_quiet:
  assumes "sha_ok X" "key_crypto_ok A" "script (fks_fs s) = []" "length k = 32"
  obtains nonce salt c j s' where "length nonce = 24" "kc_encrypt A (fks_kek s) nonce k = Inr c"
    and "kc_decrypt A (fks_kek s) nonce c = Inr k"
    and "kc_to_json A \<lparr>ek_salt = salt, ek_nonce = b64_encode X nonce, ek_ciphertext = b64_encode X c\<rparr> = Inr j"
    and "utf8_valid j" "fks_save_key X A s d k = (Inr (), s')"
    and "fks_base_dir s' = fks_base_dir s" "fks_kek s' = fks_kek s" "script (fks_fs s') = []"
    and "files (fks_fs s') = (files (fks_fs s))(fks_get_path X s d \<mapsto> j,
           with_extension ''tmp'' (fks_get_path X s d) := None)"
proof -
  let ?salt = "map (fks_random s) [fks_drawn s ..< fks_drawn s + 16]"
  let ?nonce = "map (fks_random s) [fks_drawn s + 16 ..< fks_drawn s + 16 + 24]"
  obtain c where c: "kc_encrypt A (fks_kek s) ?nonce k = Inr c" "kc_decrypt A (fks_kek s) ?nonce c = Inr k"
    using assms(2,4) unfolding key_crypto_ok_def by blast
  let ?file = "\<lparr>ek_salt = b64_encode X ?salt, ek_nonce = b64_encode X ?nonce, ek_ciphertext = b64_encode X c\<rparr>"
  obtain j where j: "kc_to_json A ?file = Inr j" "utf8_valid j"
    using assms(2) unfolding key_crypto_ok_def by blast
  let ?tmp = "with_extension ''tmp'' (fks_get_path X s d)"
  obtain r w1 r' w2 where w: "fs_write ?tmp j (fks_fs s) = (r, w1)" "fs_rename ?tmp (fks_get_path X s d) w1 = (r', w2)"
    by (metis surj_pair)
  note q = fs_replace [OF assms(3) fks_path_facts(1) [OF assms(1)] w]
  have "fks_save_key X A s d k =
      (Inr (), s\<lparr>fks_drawn := fks_drawn s + 16 + 24, fks_fs := w2\<rparr>)"
    using c(1) j(1) w q by (simp add: fks_save_key_def fill_bytes_def Let_def)
  with c j q show thesis
    by (intro that [of ?nonce c _ j "s\<lparr>fks_drawn := fks_drawn s + 16 + 24, fks_fs := w2\<rparr>"]) simp_all
qed

lemma fks_save_usable:
  assumes "fks_usable X A D s" "d \<in> D" "length k = 32"
  shows "\<exists>s'. fks_save_key X A s d k = (Inr (), s') \<and> fks_usable X A D s' \<and>
    (\<forall>d'\<in>D. fks_keys X A s' d' = (if d' = d then Some k else fks_keys X A s d'))"
proof -
  have u: "sha_ok X" "crypto_ok X" "key_crypto_ok A" "inj_on (sha256_hex X) D" "script (fks_fs s) = []"
    using assms(1) by (simp_all add: fks_usable_def)
  obtain nonce salt c j s' where sv: "length nonce = 24" "kc_encrypt A (fks_kek s) nonce k = Inr c"
      "kc_decrypt A (fks_kek s) nonce c = Inr k"
      "kc_to_json A \<lparr>ek_salt = salt, ek_nonce = b64_encode X nonce, ek_ciphertext = b64_encode X c\<rparr> = Inr j"
      "utf8_valid j" "fks_save_key X A s d k = (Inr (), s')"
    and s': "fks_base_dir s' = fks_base_dir s" "fks_kek s' = fks_kek s" "script (fks_fs s') = []"
      "files (fks_fs s') = (files (fks_fs s))(fks_get_path X s d \<mapsto> j,
           with_extension ''tmp'' (fks_get_path X s d) := None)"
    by (rule fks_save_quiet [OF u(1,3,5) assms(3)])
  have opened: "open_key_file X A (fks_kek s) j = Some (Inr k)"
    using open_saved_key [OF u(2,3) sv(1-4)] assms(3) by simp
  have content: "files (fks_fs s') (fks_get_path X s' d') =
      (if d' = d then Some j else files (fks_fs s) (fks_get_path X s d'))" if "d' \<in> D" for d'
    using fks_path_facts(1) [OF u(1), of s d' d] fks_path_facts(2) [OF u(1,4) that assms(2), of s]
      fks_get_path_dir [OF s'(1)] s'(4) by auto
  show ?thesis
    using assms(1) sv(5,6) opened s'(2,3) content by (auto simp: fks_usable_def fks_keys_def cong: option.case_cong)
qed

lemma fks_delete_usable:
  assumes "fks_usable X A D s" "d \<in> D"
  shows "\<exists>s'. fks_delete_key X s d = (Inr (), s') \<and> fks_usable X A D s' \<and>
    (\<forall>d'\<in>D. fks_keys X A s' d' = (if d' = d then None else fks_keys X A s d'))"
proof -
  have u: "sha_ok X" "inj_on (sha256_hex X) D" "script (fks_fs s) = []"
    using assms(1) by (simp_all add: fks_usable_def)
  let ?p = "fks_get_path X s d"
  obtain w where del: "fks_delete_key X s d = (Inr (), s\<lparr>fks_fs := w\<rparr>)" "script w = []"
    "files w = (files (fks_fs s))(?p := None)"
  proof (cases "files (fks_fs s) ?p")
    case None
    then have "(files (fks_fs s))(?p := None) = files (fks_fs s)" by (simp add: fun_upd_idem)
    with None u(3) show thesis
      by (intro that [of "fks_fs s"]) (simp_all add: fks_delete_key_def fs_exists_def Let_def)
  next
    case (Some c)
    obtain r w where w: "fs_remove ?p (fks_fs s) = (r, w)" by fastforce
    from fs_remove_quiet [OF u(3) w] Some w u(3) show thesis
      by (intro that [of w]) (simp_all add: fks_delete_key_def fs_exists_def Let_def)
  qed
  have content: "files w (fks_get_path X s d') = (if d' = d then None else files (fks_fs s) (fks_get_path X s d'))"
    if "d' \<in> D" for d'
    using fks_path_facts(2) [OF u(1,2) that assms(2), of s] del(3) by auto
  have "fks_get_path X (s\<lparr>fks_fs := w\<rparr>) = fks_get_path X s" by (rule fks_get_path_dir) simp
  then show ?thesis using assms(1) del content by (auto simp: fks_usable_def fks_keys_def cong: option.case_cong)
qed

lemma fks_load_quiet:
  assumes "script (fks_fs s) = []" "\<And>c. files (fks_fs s) (fks_get_path X s d) = Some c \<Longrightarrow> utf8_valid c"
  shows "fks_load_key X A s d = (case files (fks_fs s) (fks_get_path X s d) of
      None \<Rightarrow> (Some (Inr None), s)
    | Some c \<Rightarrow> (map_option (map_sum id Some) (open_key_file X A (fks_kek s) c), s))"
  using assms by (auto simp: fks_load_key_def fs_exists_def fs_read_to_string_def fs_read_def Let_def split: option.split)

lemma fks_load_usable:
  assumes "fks_usable X A D s" "d \<in> D"
  shows "fks_load_key X A s d = (Some (Inr (fks_keys X A s d)), s)"
proof -
  have "fks_load_key X A s d = (case files (fks_fs s) (fks_get_path X s d) of
      None \<Rightarrow> (Some (Inr None), s)
    | Some c \<Rightarrow> (map_option (map_sum id Some) (open_key_file X A (fks_kek s) c), s))"
    by (rule fks_load_quiet) (use assms in \<open>auto simp: fks_usable_def\<close>)
  moreover have "\<exists>k. open_key_file X A (fks_kek s) c = Some (Inr k)"
    if "files (fks_fs s) (fks_get_path X s d) = Some c" for c
    using assms that by (auto simp: fks_usable_def)
  ultimately show ?thesis by (force simp: fks_keys_def split: option.splits)
qed

interpretation fks: key_store "file_keystore_ops X A" "fks_keys X A" "fks_usable X A D" "\<lambda>_. D"
    "\<lambda>k. length k = 32"
  for X A D
  by unfold_locales
    (simp_all add: file_keystore_ops_def fks_load_usable fks_save_usable fks_delete_usable)

section \<open>Properties\<close>

lemma fks_new_eq:
  assumes "script w = []" "fks_new A dir_exists random dir passphrase w = (r, w')"
  shows "w' = w \<and> r = (case kc_argon2 A passphrase kek_salt of
      Inl e \<Rightarrow> Inl (''KDF failure: '' @ e)
    | Inr kek \<Rightarrow> Inr \<lparr>fks_base_dir = dir, fks_kek = kek, fks_fs = w, fks_random = random, fks_drawn = 0\<rparr>)"
  using assms by (auto simp: fks_new_def split: if_splits sum.splits)

text \<open>
  C29: a key saved by a file key store is there after the directory is opened again: with the
  same passphrase it is loaded, with another passphrase the file is rejected with an error, and
  no key is returned. What is asked of the libraries is that Argon2 derives different keys from
  the two passphrases under the store's fixed salt and that what is sealed under a key is rejected
  under every other. The salt drawn for the file plays no part in either.
\<close>

theorem saved_key_needs_passphrase:
  assumes "sha_ok X" and "crypto_ok X" and "key_crypto_ok A" and "script w = []" and "length k = 32"
    and "fks_new A ex random dir passphrase w = (Inr s, w1)"
    and "fks_save_key X A s d k = (r, s1)"
    and "fks_new A ex' random' dir passphrase' (fks_fs s1) = (Inr s2, w2)"
    and "key_crypto_separates A"
    and "passphrase' \<noteq> passphrase \<Longrightarrow> kc_argon2 A passphrase' kek_salt \<noteq> kc_argon2 A passphrase kek_salt"
  shows "r = Inr () \<and> fst (fks_load_key X A s2 d) =
    Some (if passphrase' = passphrase then Inr (Some k) else Inl ''Decryption failure: aead::Error'')"
proof -
  have s: "fks_fs s = w" "fks_base_dir s = dir" "kc_argon2 A passphrase kek_salt = Inr (fks_kek s)"
    using fks_new_eq [OF assms(4,6)] by (auto split: sum.splits)
  have quiet: "script (fks_fs s) = []" using assms(4) s(1) by simp
  obtain nonce salt c j s' where sv: "length nonce = 24" "kc_encrypt A (fks_kek s) nonce k = Inr c"
      "kc_decrypt A (fks_kek s) nonce c = Inr k"
      "kc_to_json A \<lparr>ek_salt = salt, ek_nonce = b64_encode X nonce, ek_ciphertext = b64_encode X c\<rparr> = Inr j"
      "utf8_valid j" "fks_save_key X A s d k = (Inr (), s')"
    and s': "fks_base_dir s' = fks_base_dir s" "fks_kek s' = fks_kek s" "script (fks_fs s') = []"
      "files (fks_fs s') = (files (fks_fs s))(fks_get_path X s d \<mapsto> j,
           with_extension ''tmp'' (fks_get_path X s d) := None)"
    by (rule fks_save_quiet [OF assms(1,3) quiet assms(5)])
  have s1: "s1 = s'" "r = Inr ()" using sv(6) assms(7) by simp_all
  have s2: "fks_fs s2 = fks_fs s1" "fks_base_dir s2 = dir" "kc_argon2 A passphrase' kek_salt = Inr (fks_kek s2)"
    using fks_new_eq [OF _ assms(8)] s'(3) s1 by (auto split: sum.splits)
  have same: "passphrase' = passphrase \<Longrightarrow> fks_kek s2 = fks_kek s" using s(3) s2(3) by simp
  have apart: "keys_apart A (fks_kek s) (fks_kek s2)" if "passphrase' \<noteq> passphrase"
    using assms(9) assms(10) [OF that] s(3) s2(3) unfolding key_crypto_separates_def by metis
  have content: "files (fks_fs s2) (fks_get_path X s2 d) = Some j"
    using fks_path_facts(1) [OF assms(1), of s d d] fks_get_path_dir [of s2 s X] s(2) s2(1,2) s'(4) s1 by simp
  have opened: "open_key_file X A (fks_kek s2) j = Some (case kc_decrypt A (fks_kek s2) nonce c of
      Inl e \<Rightarrow> Inl (''Decryption failure: '' @ e)
    | Inr p \<Rightarrow> if length p \<noteq> 32 then Inl ''Invalid key length'' else Inr p)"
    by (rule open_saved_key [OF assms(2,3) sv(1,2) refl sv(4)])
  have "fks_load_key X A s2 d = (map_option (map_sum id Some) (open_key_file X A (fks_kek s2) j), s2)"
    using fks_load_quiet [of s2 X d A] content sv(5) s2(1) s'(3) s1 by simp
  with opened s1(2) same apart sv(2,3) assms(5) show ?thesis
    unfolding keys_apart_def by (cases "passphrase' = passphrase") auto
qed

text \<open>
  A sample: the key-encryption key is prefixed to the message, and the JSON of a key file
  holds its three texts in hexadecimal, one letter apart.
\<close>

definition sample_key_crypto :: key_crypto where
  "sample_key_crypto = \<lparr>kc_argon2 = (\<lambda>p s. Inr (pad32 p)),
     kc_encrypt = (\<lambda>kek n m. Inr (pad32 kek @ m)),
     kc_decrypt = (\<lambda>kek n c. if take 32 c = pad32 kek then Inr (drop 32 c) else Inl ''aead::Error''),
     kc_to_json = (\<lambda>f. Inr (to_hex (ek_salt f) @ ''x'' @ to_hex (ek_nonce f) @ ''x'' @ to_hex (ek_ciphertext f))),
     kc_of_json = (\<lambda>j. let ps = str_split CHR ''x'' j in
       Inr \<lparr>ek_salt = from_hex (ps ! 0), ek_nonce = from_hex (ps ! 1), ek_ciphertext = from_hex (ps ! 2)\<rparr>)\<rparr>"

lemma hex_no_x: "CHR ''x'' \<notin> set (to_hex b)"
  using set_to_hex [of b] by (auto simp: hex_digits_def)

lemma hex_ascii: "c \<in> set (to_hex b) \<Longrightarrow> byte_in 0 127 c"
  using set_to_hex [of b] by (force simp: hex_digits_def byte_in_def)

lemma key_crypto_ok_sample: "key_crypto_ok sample_key_crypto"
proof -
  have "\<exists>j. kc_to_json sample_key_crypto f = Inr j \<and> utf8_valid j \<and> kc_of_json sample_key_crypto j = Inr f" for f
  proof -
    let ?j = "to_hex (ek_salt f) @ CHR ''x'' # to_hex (ek_nonce f) @ CHR ''x'' # to_hex (ek_ciphertext f)"
    have "str_split CHR ''x'' ?j = [to_hex (ek_salt f), to_hex (ek_nonce f), to_hex (ek_ciphertext f)]"
      by (simp add: str_split_append str_split_no_sep hex_no_x)
    moreover have "utf8_valid ?j" by (rule utf8_ascii) (auto simp: hex_ascii, simp_all add: byte_in_def)
    ultimately show ?thesis by (simp add: sample_key_crypto_def Let_def)
  qed
  then show ?thesis unfolding key_crypto_ok_def by (simp add: sample_key_crypto_def)
qed

lemma key_crypto_separates_sample: "key_crypto_separates sample_key_crypto"
proof -
  have "pad32 kek = kek" if "length kek = 32" for kek using that by (simp add: pad32_def)
  then show ?thesis by (auto simp: key_crypto_separates_def keys_apart_def sample_key_crypto_def)
qed

theorem saved_key_needs_passphrase_witness:
  "\<exists>s w1 r s1 s2 w2 s3 w3.
     fks_new sample_key_crypto True (\<lambda>_. CHR ''0'') ''keys'' ''secret'' \<lparr>files = Map.empty, script = []\<rparr> = (Inr s, w1) \<and>
     fks_save_key toy_ext sample_key_crypto s ''a'' (pad32 ''key'') = (r, s1) \<and>
     fks_new sample_key_crypto True (\<lambda>_. CHR ''1'') ''keys'' ''secret'' (fks_fs s1) = (Inr s2, w2) \<and>
     fst (fks_load_key toy_ext sample_key_crypto s2 ''a'') = Some (Inr (Some (pad32 ''key''))) \<and>
     fks_new sample_key_crypto True (\<lambda>_. CHR ''1'') ''keys'' ''guess'' (fks_fs s1) = (Inr s3, w3) \<and>
     fst (fks_load_key toy_ext sample_key_crypto s3 ''a'') = Some (Inl ''Decryption failure: aead::Error'')"
proof -
  let ?w = "\<lparr>files = Map.empty, script = []\<rparr> :: fs"
  have new: "\<exists>s w'. fks_new sample_key_crypto True rnd ''keys'' p w = (Inr s, w') \<and> fks_kek s = pad32 p" for rnd p w
    by (simp add: fks_new_def sample_key_crypto_def)
  obtain s w1 where s: "fks_new sample_key_crypto True (\<lambda>_. CHR ''0'') ''keys'' ''secret'' ?w = (Inr s, w1)"
    "fks_kek s = pad32 ''secret''" using new by blast
  obtain r s1 where s1: "fks_save_key toy_ext sample_key_crypto s ''a'' (pad32 ''key'') = (r, s1)" by fastforce
  obtain s2 w2 where s2: "fks_new sample_key_crypto True (\<lambda>_. CHR ''1'') ''keys'' ''secret'' (fks_fs s1) = (Inr s2, w2)"
    using new by blast
  obtain s3 w3 where s3: "fks_new sample_key_crypto True (\<lambda>_. CHR ''1'') ''keys'' ''guess'' (fks_fs s1) = (Inr s3, w3)"
    "fks_kek s3 = pad32 ''guess''" using new by blast
  have differ: "kc_argon2 sample_key_crypto ''guess'' kek_salt \<noteq> kc_argon2 sample_key_crypto ''secret'' kek_salt"
    by (simp add: sample_key_crypto_def) (simp add: pad32_def)
  note th = saved_key_needs_passphrase [OF sha_ok_toy crypto_ok_toy key_crypto_ok_sample _ length_pad32 s(1) s1]
  from th [OF _ s2 key_crypto_separates_sample] th [OF _ s3(1) key_crypto_separates_sample differ] s(1) s1 s2 s3(1) show ?thesis by auto
qed

end
