(* ===== verification/Siem.thy ===== *)
theory Siem
  imports Remote_Http
begin

text \<open>
  The SIEM exporter of \<open>crates/ext/compliance/src/lib.rs\<close>: \<open>HttpSiemExporter\<close> posts one record
  or event to the collector and looks at the status. The daemon and the escalation manager
  ignore what it returns; here is what a collector is told of a run of the manager.
\<close>

section \<open>The exporter\<close>

record siem_exporter =
  sx_endpoint :: string
  sx_token :: string

text \<open>JSON of the bodies, and the text of a status.\<close>

record siem_codec =
  sc_action_body :: "action_log_record \<Rightarrow> bytes res"
  sc_escalation_body :: "escalation_event \<Rightarrow> bytes res"
  sc_status_text :: "nat \<Rightarrow> string"

definition http_siem_new :: "string \<Rightarrow> string \<Rightarrow> siem_exporter" where
  "http_siem_new endpoint token = \<lparr>sx_endpoint = endpoint, sx_token = token\<rparr>"

text \<open>
  A token that cannot be sent in a header, a body that cannot be serialised and a network
  failure all make \<open>send\<close> fail; the builder keeps the first error.
\<close>

definition siem_call :: "siem_exporter \<Rightarrow> string \<Rightarrow> bytes res \<Rightarrow> http_call res" where
  "siem_call x event_type body =
     (case metadata_value (''Bearer '' @ sx_token x) of
        Inl e \<Rightarrow> Inl ''builder error''
      | Inr auth \<Rightarrow> map_sum id (\<lambda>b. \<lparr>hc_method = POST, hc_url = sx_endpoint x,
          hc_headers = [''authorization'' \<mapsto> auth, ''x-agt-event-type'' \<mapsto> event_type,
            ''content-type'' \<mapsto> ''application/json''], hc_body = b\<rparr>) body)"

definition siem_post ::
  "siem_codec \<Rightarrow> 's network \<Rightarrow> siem_exporter \<Rightarrow> string \<Rightarrow> bytes res \<Rightarrow> 's \<Rightarrow> unit res \<times> 's" where
  "siem_post D N x event_type body s =
     (case siem_call x event_type body of
        Inl e \<Rightarrow> (Inl e, s)
      | Inr call \<Rightarrow> (case N call s of
          (Inl e, s') \<Rightarrow> (Inl e, s')
        | (Inr (status, _), s') \<Rightarrow>
            (if is_success status then Inr ()
             else Inl (''SIEM export failed with status: '' @ sc_status_text D status), s')))"

definition http_export_action ::
  "siem_codec \<Rightarrow> 's network \<Rightarrow> siem_exporter \<Rightarrow> action_log_record \<Rightarrow> 's \<Rightarrow> unit res \<times> 's" where
  "http_export_action D N x rec = siem_post D N x ''action'' (sc_action_body D rec)"

definition http_export_escalation ::
  "siem_codec \<Rightarrow> 's network \<Rightarrow> siem_exporter \<Rightarrow> escalation_event \<Rightarrow> 's \<Rightarrow> unit res \<times> 's" where
  "http_export_escalation D N x event = siem_post D N x ''escalation'' (sc_escalation_body D event)"

text \<open>What the manager hands the exporter, one event after the other, each result ignored.\<close>

fun siem_deliver ::
  "siem_codec \<Rightarrow> 's network \<Rightarrow> siem_exporter \<Rightarrow> escalation_event list \<Rightarrow> 's \<Rightarrow> 's" where
  "siem_deliver D N x [] s = s"
| "siem_deliver D N x (ev # evs) s = siem_deliver D N x evs (snd (http_export_escalation D N x ev s))"

section \<open>A collector\<close>

text \<open>A collector keeps the calls it gets, newest last, and answers each as it likes.\<close>

definition collector :: "(http_call list \<Rightarrow> (nat \<times> bytes) res) \<Rightarrow> http_call list network" where
  "collector answer call seen = (answer (seen @ [call]), seen @ [call])"

lemma siem_post_collector:
  "siem_post D (collector answer) x ty body seen =
     (case siem_call x ty body of
        Inl e \<Rightarrow> (Inl e, seen)
      | Inr call \<Rightarrow>
          (case answer (seen @ [call]) of
             Inl e \<Rightarrow> Inl e
           | Inr (status, _) \<Rightarrow> if is_success status then Inr ()
               else Inl (''SIEM export failed with status: '' @ sc_status_text D status), seen @ [call]))"
  by (auto simp: siem_post_def collector_def split: sum.splits)

text \<open>The export succeeds exactly when the one call it makes is answered with a 2xx status.\<close>

lemma siem_post_ok_iff:
  "fst (siem_post D N x ty body s) = Inr () \<longleftrightarrow>
     (\<exists>call status b. siem_call x ty body = Inr call \<and> fst (N call s) = Inr (status, b) \<and> is_success status)"
  by (force simp: siem_post_def split: sum.splits prod.splits)

lemma siem_deliver_collector:
  assumes "metadata_value (''Bearer '' @ sx_token x) = Inr auth"
    and "\<forall>ev\<in>set evs. sc_escalation_body D ev = Inr (body ev)"
  shows "\<exists>calls. siem_deliver D (collector answer) x evs seen = seen @ calls \<and> map hc_body calls = map body evs \<and>
    (\<forall>c\<in>set calls. hc_url c = sx_endpoint x \<and> hc_headers c ''authorization'' = Some auth)"
  using assms(2)
proof (induction evs arbitrary: seen)
  case (Cons ev evs)
  obtain call where c: "siem_call x ''escalation'' (sc_escalation_body D ev) = Inr call" "hc_body call = body ev"
      "hc_url call = sx_endpoint x" "hc_headers call ''authorization'' = Some auth"
    using assms(1) Cons.prems by (simp add: siem_call_def)
  have "\<exists>calls. siem_deliver D (collector answer) x evs (seen @ [call]) = (seen @ [call]) @ calls \<and>
      map hc_body calls = map body evs \<and>
      (\<forall>c\<in>set calls. hc_url c = sx_endpoint x \<and> hc_headers c ''authorization'' = Some auth)"
    using Cons.prems by (intro Cons.IH) simp
  then obtain calls where "siem_deliver D (collector answer) x evs (seen @ [call]) = (seen @ [call]) @ calls"
      "map hc_body calls = map body evs"
      "\<forall>c\<in>set calls. hc_url c = sx_endpoint x \<and> hc_headers c ''authorization'' = Some auth" by blast
  with c show ?case
    by (intro exI [of _ "call # calls"]) (simp add: http_export_escalation_def siem_post_collector)
qed simp

section \<open>What a run of the manager leaves at the collector\<close>

text \<open>
  With a token that can be sent, the collector gets one call for each decision of the run, in
  the order of the decisions, whatever it answers: no export is retried and none stops the
  later ones. No two of the calls are about the same request.
\<close>

theorem collector_told_each_decision_once:
  assumes "em_run X J EJ reqs evs m" and "em_siem_exporter m"
    and "metadata_value (''Bearer '' @ sx_token x) = Inr auth"
    and "\<forall>ev\<in>set evs. sc_escalation_body D ev = Inr (body ev)"
  shows "\<exists>calls. siem_deliver D (collector answer) x (em_exported m) [] = calls \<and>
    map hc_body calls = map body evs \<and> distinct (map ee_event_id evs) \<and>
    (\<forall>c\<in>set calls. hc_url c = sx_endpoint x \<and> hc_headers c ''authorization'' = Some auth)"
proof -
  have "em_exported m = evs" "distinct (map ee_event_id evs)"
    using em_run_inv [OF assms(1)] assms(2) by (simp_all add: em_inv_def)
  with siem_deliver_collector [OF assms(3,4), of answer "[]"] show ?thesis by auto
qed

end
