(* ===== verification/Escalation_Interleaving.thy ===== *)
theory Escalation_Interleaving
  imports Escalation "HOL-Library.Multiset"
begin

text \<open>
  Calls of the escalation manager that run at the same time. \<open>approve\<close> and \<open>deny\<close> hold the lock
  of the pending requests only while they take a request out, and the lock of the audit file
  only while they write a line; between these steps other calls run. Here the two operations
  are cut into those steps, the sequential definitions are shown to be their composition, and
  requests are still decided at most once, however the steps interleave.
\<close>

section \<open>The steps\<close>

datatype decision = Approval string bytes | Denial string string

definition em_take :: "uuid \<Rightarrow> escalation_manager \<Rightarrow> escalation_request res \<times> escalation_manager" where
  "em_take event_id m =
     (case em_pending m event_id of
        None \<Rightarrow> (Inl ''Escalation request not found'', m)
      | Some request \<Rightarrow> (Inr request, m\<lparr>em_pending := (em_pending m)(event_id := None)\<rparr>))"

definition decide_approval ::
  "ext \<Rightarrow> claim_json \<Rightarrow> readings \<Rightarrow> ring_lookup \<Rightarrow> attestation_lookup \<Rightarrow> string \<Rightarrow> uuid \<Rightarrow>
     escalation_request \<Rightarrow> string \<Rightarrow> bytes \<Rightarrow> escalation_event res" where
  "decide_approval X J t get_ring get_attestation registry_pubkey event_id request approver_did signature =
     (let deny = (\<lambda>cause. Inr (create_denied_event event_id request approver_did cause (snd t)))
      in case res_bind (get_ring approver_did) (ok_or ''Approver DID not in registry'') of
        Inl e \<Rightarrow> Inl e
      | Inr approver_ring \<Rightarrow>
          if approver_ring \<noteq> System then deny ''Only System-ring agents can approve escalation''
          else case res_bind (get_attestation approver_did) (ok_or ''Approver attestation not found'') of
            Inl e \<Rightarrow> Inl e
          | Inr attestation \<Rightarrow>
              (case sa_verify X J (fst t) attestation registry_pubkey of
                 Inl e \<Rightarrow> Inl (''Registry attestation verification failed: '' @ attestation_error_display e)
               | Inr _ \<Rightarrow>
                   if \<not> verify_signature X (identity_stub (ac_public_key_b64 (sa_claim attestation)))
                          (approval_payload X event_id (er_agent_did request) (er_requested_ring request)) signature
                   then deny ''Approval signature invalid''
                   else if er_current_ring request \<le> er_requested_ring request
                   then deny ''Requested ring must be more privileged''
                   else Inr (event_for event_id request approver_did Approved (snd t))))"

fun decide ::
  "ext \<Rightarrow> claim_json \<Rightarrow> readings \<Rightarrow> ring_lookup \<Rightarrow> attestation_lookup \<Rightarrow> string \<Rightarrow> uuid \<Rightarrow>
     escalation_request \<Rightarrow> decision \<Rightarrow> escalation_event res" where
  "decide X J t gr ga pub event_id request (Approval approver_did signature) =
     decide_approval X J t gr ga pub event_id request approver_did signature"
| "decide X J t gr ga pub event_id request (Denial approver_did cause) =
     Inr (event_for event_id request approver_did (EscalationDenied cause) (snd t))"

text \<open>A call on its own is the four steps in a row.\<close>

definition decide_alone ::
  "ext \<Rightarrow> claim_json \<Rightarrow> event_json \<Rightarrow> readings \<Rightarrow> ring_lookup \<Rightarrow> attestation_lookup \<Rightarrow> uuid \<Rightarrow> decision \<Rightarrow>
     escalation_manager \<Rightarrow> escalation_event res \<times> escalation_manager" where
  "decide_alone X J EJ t gr ga event_id d m =
     (case em_take event_id m of
        (Inl e, m1) \<Rightarrow> (Inl e, m1)
      | (Inr request, m1) \<Rightarrow>
          (case decide X J t gr ga (em_registry_pubkey m1) event_id request d of
             Inl e \<Rightarrow> (Inl e, m1)
           | Inr event \<Rightarrow> (Inr event, em_export_to_siem event (snd (em_log_event EJ event m1)))))"

lemma em_approve_steps:
  "em_approve X J EJ t i a sig gr ga m = decide_alone X J EJ t gr ga i (Approval a sig) m"
  by (cases "em_pending m i"; cases "res_bind (gr a) (ok_or ''Approver DID not in registry'')";
      cases "res_bind (ga a) (ok_or ''Approver attestation not found'')")
    (auto simp: em_approve_def decide_alone_def em_take_def decide_approval_def em_publish_def Let_def
      split: sum.splits)

lemma em_deny_steps:
  "em_deny EJ now i a cause m = decide_alone X J EJ (u, now) gr ga i (Denial a cause) m"
  by (simp add: em_deny_def decide_alone_def em_take_def em_publish_def Let_def split: option.splits)

section \<open>Interleaved calls\<close>

text \<open>
  What a call in progress holds: a request it has taken; the event it has made of it, to be
  logged; the event, to be exported.
\<close>

datatype em_task = Taken uuid escalation_request decision | Decided escalation_event | Logged escalation_event

text \<open>
  \<open>em_conc X J EJ reqs evs m ts\<close>: requests \<open>reqs\<close> were made and events \<open>evs\<close> decided, in this
  order, by calls that ran at the same time; \<open>m\<close> is the manager and \<open>ts\<close> the calls in progress.
  Each step may use another clock and another state of the registry.
\<close>

inductive em_conc ::
  "ext \<Rightarrow> claim_json \<Rightarrow> event_json \<Rightarrow> (uuid \<times> escalation_request) list \<Rightarrow> escalation_event list \<Rightarrow>
     escalation_manager \<Rightarrow> em_task multiset \<Rightarrow> bool"
  for X J EJ where
  start: "em_new log pub siem w = (Inr m, w') \<Longrightarrow> em_conc X J EJ [] [] m {#}"
| request: "em_conc X J EJ reqs evs m ts \<Longrightarrow> i \<notin> fst ` set reqs \<Longrightarrow>
    request_escalation i q m = (i', m') \<Longrightarrow> em_conc X J EJ (reqs @ [(i, q)]) evs m' ts"
| take: "em_conc X J EJ reqs evs m ts \<Longrightarrow> em_take i m = (Inr q, m') \<Longrightarrow>
    em_conc X J EJ reqs evs m' (add_mset (Taken i q d) ts)"
| decide: "em_conc X J EJ reqs evs m (add_mset (Taken i q d) ts) \<Longrightarrow>
    decide X J t gr ga (em_registry_pubkey m) i q d = Inr ev \<Longrightarrow>
    em_conc X J EJ reqs (evs @ [ev]) m (add_mset (Decided ev) ts)"
| fail: "em_conc X J EJ reqs evs m (add_mset (Taken i q d) ts) \<Longrightarrow>
    decide X J t gr ga (em_registry_pubkey m) i q d = Inl e \<Longrightarrow> em_conc X J EJ reqs evs m ts"
| log: "em_conc X J EJ reqs evs m (add_mset (Decided ev) ts) \<Longrightarrow>
    em_conc X J EJ reqs evs (snd (em_log_event EJ ev m)) (add_mset (Logged ev) ts)"
| export: "em_conc X J EJ reqs evs m (add_mset (Logged ev) ts) \<Longrightarrow>
    em_conc X J EJ reqs evs (em_export_to_siem ev m) ts"

text \<open>The sequential runs are among the interleaved ones.\<close>

lemma decide_alone_conc:
  assumes "em_conc X J EJ reqs evs m {#}" "decide_alone X J EJ t gr ga i d m = (r, m')"
  shows "em_conc X J EJ reqs (case r of Inl _ \<Rightarrow> evs | Inr ev \<Rightarrow> evs @ [ev]) m' {#}"
proof (cases "em_pending m i")
  case None
  with assms show ?thesis by (auto simp: decide_alone_def em_take_def)
next
  case (Some q)
  let ?m1 = "m\<lparr>em_pending := (em_pending m)(i := None)\<rparr>"
  have taken: "em_conc X J EJ reqs evs ?m1 {#Taken i q d#}"
    by (rule em_conc.take [OF assms(1)]) (simp add: em_take_def Some)
  show ?thesis
  proof (cases "decide X J t gr ga (em_registry_pubkey ?m1) i q d")
    case (Inl e)
    with assms(2) Some have "r = Inl e" "m' = ?m1" by (simp_all add: decide_alone_def em_take_def)
    with em_conc.fail [OF taken Inl] show ?thesis by simp
  next
    case (Inr ev)
    with assms(2) Some have "r = Inr ev" "m' = em_export_to_siem ev (snd (em_log_event EJ ev ?m1))"
      by (simp_all add: decide_alone_def em_take_def)
    with em_conc.export [OF em_conc.log [OF em_conc.decide [OF taken Inr]]] show ?thesis by simp
  qed
qed

lemma em_run_conc: "em_run X J EJ reqs evs m \<Longrightarrow> em_conc X J EJ reqs evs m {#}"
proof (induction rule: em_run.induct)
  case start
  then show ?case by (rule em_conc.start)
next
  case request
  then show ?case by (auto intro: em_conc.request)
next
  case (answer_approve reqs evs m t i a sig gr ga ev m')
  from decide_alone_conc [OF answer_approve.IH] answer_approve.hyps(2)
  show ?case unfolding em_approve_steps by fastforce
next
  case (fail_approve reqs evs m t i a sig gr ga e m')
  from decide_alone_conc [OF fail_approve.IH] fail_approve.hyps(2)
  show ?case unfolding em_approve_steps by fastforce
next
  case (answer_deny reqs evs m now i a cause ev m')
  from decide_alone_conc [OF answer_deny.IH] answer_deny.hyps(2)
  show ?case unfolding em_deny_steps [where X = X and J = J and u = undefined and gr = undefined and ga = undefined]
    by fastforce
next
  case (fail_deny reqs evs m now i a cause e m')
  from decide_alone_conc [OF fail_deny.IH] fail_deny.hyps(2)
  show ?case unfolding em_deny_steps [where X = X and J = J and u = undefined and gr = undefined and ga = undefined]
    by fastforce
qed

section \<open>Where a request is\<close>

primrec task_ids :: "em_task \<Rightarrow> uuid multiset" where
  "task_ids (Taken i q d) = {#i#}"
| "task_ids (Decided ev) = {#}"
| "task_ids (Logged ev) = {#}"

primrec task_events :: "em_task \<Rightarrow> escalation_event multiset" where
  "task_events (Taken i q d) = {#}"
| "task_events (Decided ev) = {#ev#}"
| "task_events (Logged ev) = {#ev#}"

text \<open>
  A request made is in at most one place: it is pending, or with one call, or decided. What
  was decided is exported, once, or still on its way.
\<close>

definition places :: "escalation_event list \<Rightarrow> escalation_manager \<Rightarrow> em_task multiset \<Rightarrow> uuid \<Rightarrow> nat" where
  "places evs m ts i = count (mset (map ee_event_id evs)) i + count (\<Sum>\<^sub># (image_mset task_ids ts)) i +
     (if em_pending m i = None then 0 else 1)"

definition conc_inv ::
  "(uuid \<times> escalation_request) list \<Rightarrow> escalation_event list \<Rightarrow> escalation_manager \<Rightarrow> em_task multiset \<Rightarrow> bool" where
  "conc_inv reqs evs m ts \<longleftrightarrow>
     (\<forall>i. places evs m ts i \<le> (if i \<in> fst ` set reqs then 1 else 0)) \<and>
     (\<forall>i q. em_pending m i = Some q \<longrightarrow> (i, q) \<in> set reqs) \<and>
     (\<forall>i q d. Taken i q d \<in># ts \<longrightarrow> (i, q) \<in> set reqs) \<and>
     (\<forall>ev\<in>set evs. reports reqs ev) \<and>
     (em_siem_exporter m \<longrightarrow> mset (em_exported m) + \<Sum>\<^sub># (image_mset task_events ts) = mset evs)"

lemma log_event_keeps [simp]:
  "em_pending (snd (em_log_event EJ ev m)) = em_pending m"
  "em_siem_exporter (snd (em_log_event EJ ev m)) = em_siem_exporter m"
  "em_exported (snd (em_log_event EJ ev m)) = em_exported m"
  by (simp_all add: em_log_event_def split: option.splits sum.splits prod.splits)

lemma export_keeps [simp]:
  "em_pending (em_export_to_siem ev m) = em_pending m"
  "em_siem_exporter (em_export_to_siem ev m) = em_siem_exporter m"
  by (simp_all add: em_export_to_siem_def)

text \<open>An event made of a request that was made reports it; an approval raises privilege.\<close>

lemma decide_event:
  assumes "decide X J t gr ga pub i q d = Inr ev" "(i, q) \<in> set reqs"
  shows "ee_event_id ev = i \<and> reports reqs ev"
proof -
  have "ee_event_id ev = i \<and> ee_agent_did ev = er_agent_did q \<and> ee_from_ring ev = er_current_ring q \<and>
      ee_to_ring ev = er_requested_ring q \<and> (ee_outcome ev = Approved \<longrightarrow> er_requested_ring q < er_current_ring q)"
    using assms(1)
    by (cases d) (auto simp: decide_approval_def create_denied_event_def event_for_def Let_def
        split: sum.splits if_splits)
  with assms(2) show ?thesis by (auto simp: reports_def)
qed

lemma em_conc_inv: "em_conc X J EJ reqs evs m ts \<Longrightarrow> conc_inv reqs evs m ts"
proof (induction rule: em_conc.induct)
  case (start log pub siem w m w')
  then show ?case
    by (auto simp: conc_inv_def places_def em_new_def split: option.splits sum.splits prod.splits)
next
  case (request reqs evs m ts i q i' m')
  have old: "places evs m ts j \<le> (if j \<in> fst ` set reqs then 1 else 0)" for j
    using request.IH unfolding conc_inv_def by blast
  have m': "em_pending m' = (em_pending m)(i \<mapsto> q)" "em_siem_exporter m' = em_siem_exporter m"
    "em_exported m' = em_exported m"
    using request.hyps(3) by (auto simp: request_escalation_def)
  have "places evs m ts i = 0" using old [of i] request.hyps(2) by (simp only: if_False le_zero_eq)
  then have "places evs m' ts i \<le> 1" by (simp add: places_def m')
  moreover have "places evs m' ts j = places evs m ts j" if "j \<noteq> i" for j using that by (simp add: places_def m')
  ultimately have "places evs m' ts j \<le> (if j \<in> fst ` set (reqs @ [(i, q)]) then 1 else 0)" for j
    using old [of j] by (cases "j = i") simp_all
  with request.IH show ?case
    using reports_more [where reqs = reqs and reqs' = "reqs @ [(i, q)]"]
    by (simp add: conc_inv_def m') blast
next
  case (take reqs evs m ts i q m' d)
  then have q: "em_pending m i = Some q" "m' = m\<lparr>em_pending := (em_pending m)(i := None)\<rparr>"
    by (auto simp: em_take_def split: option.splits)
  then have "places evs m' (add_mset (Taken i q d) ts) j = places evs m ts j" for j
    by (simp add: places_def)
  with take.IH q show ?case by (auto simp: conc_inv_def)
next
  case (decide reqs evs m i q d ts t gr ga ev)
  from decide.IH have "(i, q) \<in> set reqs" by (auto simp: conc_inv_def)
  note ev = decide_event [OF decide.hyps(2) this]
  then have "places (evs @ [ev]) m (add_mset (Decided ev) ts) j = places evs m (add_mset (Taken i q d) ts) j" for j
    by (simp add: places_def)
  with decide.IH ev show ?case by (auto simp: conc_inv_def)
next
  case (fail reqs evs m i q d ts t gr ga e)
  have "places evs m (add_mset (Taken i q d) ts) j \<le> (if j \<in> fst ` set reqs then 1 else 0)" for j
    using fail.IH unfolding conc_inv_def by blast
  moreover have "places evs m ts j \<le> places evs m (add_mset (Taken i q d) ts) j" for j
    by (simp add: places_def)
  ultimately have "places evs m ts j \<le> (if j \<in> fst ` set reqs then 1 else 0)" for j
    by (rule order_trans [rotated])
  with fail.IH show ?case by (simp add: conc_inv_def)
next
  case (log reqs evs m ev ts)
  then show ?case by (auto simp: conc_inv_def places_def)
next
  case (export reqs evs m ev ts)
  then show ?case by (auto simp: conc_inv_def places_def em_export_to_siem_def)
qed

section \<open>Properties\<close>

text \<open>
  C6: approvals and denials that run at the same time, with the registry and the clock changing
  meanwhile: each request is decided at most once and is not pending once it is, an event
  reports a request that was made, an approval only raises privilege, and when no call is in
  progress the SIEM exporter, if there is one, was handed each event exactly once.
\<close>

theorem decided_at_most_once_interleaved:
  assumes "em_conc X J EJ reqs evs m ts"
  shows "distinct (map ee_event_id evs) \<and> (\<forall>i\<in>dom (em_pending m). i \<notin> ee_event_id ` set evs) \<and>
    (\<forall>ev\<in>set evs. \<exists>q. (ee_event_id ev, q) \<in> set reqs \<and> ee_agent_did ev = er_agent_did q \<and>
       (ee_outcome ev = Approved \<longrightarrow> er_requested_ring q < er_current_ring q)) \<and>
    (em_siem_exporter m \<and> ts = {#} \<longrightarrow> mset (em_exported m) = mset evs)"
proof -
  have inv: "conc_inv reqs evs m ts" by (rule em_conc_inv [OF assms])
  then have one: "places evs m ts i \<le> 1" for i
    by (auto simp: conc_inv_def intro: order_trans [where y = "if i \<in> fst ` set reqs then 1 else 0"])
  have "count (mset (map ee_event_id evs)) i \<le> 1" for i using one [of i] by (simp add: places_def)
  then have "distinct (map ee_event_id evs)"
    by (simp add: distinct_count_atmost_1 le_Suc_eq count_eq_zero_iff)
  moreover have "i \<notin> ee_event_id ` set evs" if "em_pending m i \<noteq> None" for i
  proof -
    have "count (mset (map ee_event_id evs)) i = 0" using one [of i] that by (simp add: places_def)
    then show ?thesis by (simp add: count_mset_0_iff del: mset_map)
  qed
  ultimately show ?thesis using inv by (auto simp: conc_inv_def reports_def)
qed

text \<open>Two denials at the same time: decided in one order, exported in the other.\<close>

theorem decided_at_most_once_interleaved_witness:
  "\<exists>evs m. em_conc toy_ext ac_subject_did (\<lambda>_. Inr ''{}'') [(1, sample_request), (2, sample_request)] evs m {#} \<and>
     map ee_event_id evs = [2, 1] \<and> map ee_event_id (em_exported m) = [1, 2] \<and> mset (em_exported m) = mset evs"
proof -
  let ?C = "em_conc toy_ext ac_subject_did (\<lambda>_. Inr ''{}'')" and ?d = "Denial ''a'' ''no''" and ?q = sample_request
  let ?ev = "\<lambda>i. event_for i ?q ''a'' (EscalationDenied ''no'') 5" and ?r = "[(1, ?q), (2, ?q)]"
  let ?M = "\<lambda>p e. \<lparr>em_pending = p, em_audit_log = None, em_audit_poisoned = False, em_siem_exporter = True,
      em_exported = e, em_registry_pubkey = ''pk'', em_fs = \<lparr>files = Map.empty, script = []\<rparr>\<rparr>"
  note swap = add_mset_commute
  have "?C [] [] (?M Map.empty []) {#}"
    by (rule em_conc.start [of None "''pk''" True "\<lparr>files = Map.empty, script = []\<rparr>"]) (simp add: em_new_def)
  from em_conc.request [OF this, of 1 ?q] have "?C [(1, ?q)] [] (?M [1 \<mapsto> ?q] []) {#}"
    by (simp add: request_escalation_def)
  from em_conc.request [OF this, of 2 ?q] have "?C ?r [] (?M [1 \<mapsto> ?q, 2 \<mapsto> ?q] []) {#}"
    by (simp add: request_escalation_def)
  then have "?C ?r [] (?M [2 \<mapsto> ?q] []) {#Taken 1 ?q ?d#}"
    by (rule em_conc.take) (simp add: em_take_def fun_upd_twist)
  then have "?C ?r [] (?M Map.empty []) {#Taken 2 ?q ?d, Taken 1 ?q ?d#}"
    by (rule em_conc.take) (simp add: em_take_def)
  then have "?C ?r ([] @ [?ev 2]) (?M Map.empty []) {#Decided (?ev 2), Taken 1 ?q ?d#}"
    by (rule em_conc.decide [where t = "(5, 5)"]) simp
  then have "?C ?r [?ev 2] (?M Map.empty []) {#Taken 1 ?q ?d, Decided (?ev 2)#}" by (simp add: swap)
  then have "?C ?r ([?ev 2] @ [?ev 1]) (?M Map.empty []) {#Decided (?ev 1), Decided (?ev 2)#}"
    by (rule em_conc.decide [where t = "(5, 5)"]) simp
  from em_conc.log [OF this] have "?C ?r [?ev 2, ?ev 1] (?M Map.empty []) {#Logged (?ev 1), Decided (?ev 2)#}"
    by (simp add: em_log_event_def)
  from em_conc.export [OF this] have "?C ?r [?ev 2, ?ev 1] (?M Map.empty [?ev 1]) {#Decided (?ev 2)#}"
    by (simp add: em_export_to_siem_def)
  from em_conc.export [OF em_conc.log [OF this]]
  have run: "?C ?r [?ev 2, ?ev 1] (?M Map.empty [?ev 1, ?ev 2]) {#}"
    by (simp add: em_export_to_siem_def em_log_event_def)
  have "mset (em_exported (?M Map.empty [?ev 1, ?ev 2])) = mset [?ev 2, ?ev 1]"
    using decided_at_most_once_interleaved [OF run] by simp
  with run show ?thesis
    by (intro exI [of _ "[?ev 2, ?ev 1]"] exI [of _ "?M Map.empty [?ev 1, ?ev 2]"]) simp
qed

end
