(* ===== verification/Daemon_Interleaving.thy ===== *)
theory Daemon_Interleaving
  imports Daemon_Safety "HOL-Library.Multiset"
begin

text \<open>
  Requests to execute an action that run at the same time. The handler reads the agent's
  history from the action log and evaluates the rules; later it appends its record. The
  append holds the log's lock, but nothing holds it in between, so other requests, the
  worker and the gateway append there. The chain stays intact under every interleaving; the
  rule that separates writers of the audit log from its readers does not.
\<close>

section \<open>The two steps of the handler\<close>

record prepared =
  pr_record :: action_log_record
  pr_compliant :: bool
  pr_results :: "compliance_result list"

definition execute_check ::
  "('r, 'k, 'p) services \<Rightarrow> moment \<Rightarrow> headers \<Rightarrow> execute_request \<Rightarrow> ('r, 'k, 'p) server_state \<Rightarrow>
     (nat \<times> string + prepared) \<times> ('r, 'k, 'p) server_state" where
  "execute_check sv mo h req st =
     (case header_str h agent_did_header of
        None \<Rightarrow> (Inl (UNAUTHORIZED, ''Missing X-AGT-Agent-DID''), st)
      | Some did_str \<Rightarrow>
          (case reg_get_ring (sv_registry sv) (ss_registry st) did_str of
             (Inl e, reg) \<Rightarrow> (Inl (INTERNAL_SERVER_ERROR, e), st\<lparr>ss_registry := reg\<rparr>)
           | (Inr None, reg) \<Rightarrow> (Inl (UNAUTHORIZED, agent_not_registered), st\<lparr>ss_registry := reg\<rparr>)
           | (Inr (Some ring), reg) \<Rightarrow>
               (case fal_load_history (sv_log_codec sv) (ss_action_log st) did_str of
                  (Inl e, log) \<Rightarrow>
                    (Inl (INTERNAL_SERVER_ERROR, e), st\<lparr>ss_registry := reg, ss_action_log := log\<rparr>)
                | (Inr history, log) \<Rightarrow>
                    let input = execute_input did_str ring req history;
                        results = verifier_evaluate (mo_evaluate mo) (ss_compliance_verifier st) input;
                        compliant = is_compliant (mo_is_compliant mo) (ss_compliance_verifier st) input
                    in (Inr \<lparr>pr_record = execute_record mo did_str req (execute_outcome compliant results),
                            pr_compliant = compliant, pr_results = results\<rparr>,
                        st\<lparr>ss_registry := reg, ss_action_log := log\<rparr>))))"

definition execute_commit ::
  "('r, 'k, 'p) services \<Rightarrow> prepared \<Rightarrow> ('r, 'k, 'p) server_state \<Rightarrow> http_result \<times> ('r, 'k, 'p) server_state" where
  "execute_commit sv p st =
     (case fal_append (sv_ext sv) (sv_log_codec sv) (ss_action_log st) (pr_record p) of
        (Inl e, log) \<Rightarrow> (Inl (INTERNAL_SERVER_ERROR, e), st\<lparr>ss_action_log := log\<rparr>)
      | (Inr _, log) \<Rightarrow>
          (Inr (OK, Execute_json (pr_compliant p) (pr_results p)),
           st\<lparr>ss_action_log := log,
              ss_exported := ss_exported st @ (if ss_siem_exporter st then [pr_record p] else [])\<rparr>))"

lemma execute_action_steps:
  "execute_action_handler sv mo h req st =
     (case execute_check sv mo h req st of
        (Inl e, st1) \<Rightarrow> (Inl e, st1)
      | (Inr p, st1) \<Rightarrow> execute_commit sv p st1)"
proof (cases "header_str h agent_did_header")
  case (Some did)
  obtain r reg where r: "reg_get_ring (sv_registry sv) (ss_registry st) did = (r, reg)" by fastforce
  obtain hr log where hr: "fal_load_history (sv_log_codec sv) (ss_action_log st) did = (hr, log)" by fastforce
  show ?thesis
    by (cases r; cases hr; cases "case r of Inr o1 \<Rightarrow> o1 | Inl e \<Rightarrow> None")
      (auto simp: execute_action_handler_def execute_check_def execute_commit_def Let_def Some r hr
        split: sum.splits prod.splits)
qed (simp add: execute_action_handler_def execute_check_def)

section \<open>Interleaved requests\<close>

text \<open>
  \<open>exec_conc sv st0 st ts app ans\<close>: from \<open>st0\<close> the daemon has come to \<open>st\<close>; \<open>ts\<close> are the
  requests that have been checked and not yet recorded, \<open>app\<close> the records handed to the log in
  this order, by whatever task, and \<open>ans\<close> the records of requests with their answers.
\<close>

inductive exec_conc ::
  "('r, 'k, 'p) services \<Rightarrow> ('r, 'k, 'p) server_state \<Rightarrow> ('r, 'k, 'p) server_state \<Rightarrow> prepared multiset \<Rightarrow>
     action_log_record list \<Rightarrow> (action_log_record \<times> http_result) list \<Rightarrow> bool"
  for sv st0 where
  start: "exec_conc sv st0 st0 {#} [] []"
| check: "exec_conc sv st0 st ts app ans \<Longrightarrow> execute_check sv mo h req st = (Inr p, st') \<Longrightarrow>
    exec_conc sv st0 st' (add_mset p ts) app ans"
| refuse: "exec_conc sv st0 st ts app ans \<Longrightarrow> execute_check sv mo h req st = (Inl e, st') \<Longrightarrow>
    exec_conc sv st0 st' ts app ans"
| commit: "exec_conc sv st0 st (add_mset p ts) app ans \<Longrightarrow> execute_commit sv p st = (res, st') \<Longrightarrow>
    exec_conc sv st0 st' ts (app @ [pr_record p]) (ans @ [(pr_record p, res)])"
| append: "exec_conc sv st0 st ts app ans \<Longrightarrow>
    fal_append (sv_ext sv) (sv_log_codec sv) (ss_action_log st) rec = (r, log) \<Longrightarrow>
    exec_conc sv st0 (st\<lparr>ss_action_log := log\<rparr>) ts (app @ [rec]) ans"

lemma execute_outcome_permitted [simp]: "execute_outcome ok results = Permitted \<longleftrightarrow> ok"
  by (simp add: execute_outcome_def split: option.splits)

lemma append_one_synced:
  assumes "fal_synced X L rs s" "writable X L [r]" "cps_ok X L"
  shows "\<exists>s'. fal_append X L s r = (Inr (), s') \<and> fal_synced X L (rs @ [r\<lparr>al_prev_hash := chain_end X L genesis rs\<rparr>]) s'"
proof -
  have "log_json_ok L (r\<lparr>al_prev_hash := fal_last_hash s\<rparr>)"
    using assms(2) fal_synced_link [OF assms(1)] unfolding writable_def by (meson list.set_intros(1))
  moreover have "fal_last_hash s = chain_end X L genesis rs" using assms(1) by (simp add: fal_synced_defs)
  ultimately show ?thesis using fal_append_synced [OF assms(1) _ assms(3)] by auto
qed

context agent_registry
begin

lemma execute_check_keeps:
  assumes "usable (ss_registry st)" "sv_registry sv = R" "fal_holds (sv_log_codec sv) rs (ss_action_log st)"
    and "execute_check sv mo h req st = (r, st')"
  shows "st' = st \<and> (\<forall>p. r = Inr p \<longrightarrow> (pr_compliant p \<longleftrightarrow> al_outcome (pr_record p) = Permitted))"
  using assms(4) get_ring [OF assms(1)] fal_holds_reads(2) [OF assms(3)]
  by (auto simp: execute_check_def assms(2) Let_def split: option.splits)

lemma execute_check_prepares:
  assumes "usable (ss_registry st)" "sv_registry sv = R" "fal_holds (sv_log_codec sv) rs (ss_action_log st)"
    and "header_str h agent_did_header = Some did" "entries (ss_registry st) did = Some (pk, ring)"
    and "is_compliant (mo_is_compliant mo) (ss_compliance_verifier st) (execute_input did ring req (history_of did rs))"
  shows "\<exists>results. execute_check sv mo h req st = (Inr \<lparr>pr_record = execute_record mo did req Permitted,
    pr_compliant = True, pr_results = results\<rparr>, st)"
  using get_ring [OF assms(1)] fal_holds_reads(2) [OF assms(3)] assms(2,4-6)
  by (simp add: execute_check_def Let_def execute_outcome_def)

text \<open>Whatever the schedule, the log is that of the appends in their order.\<close>

lemma exec_conc_synced:
  assumes "exec_conc sv st0 st ts app ans" "sv_registry sv = R" "usable (ss_registry st0)"
    and "fal_synced (sv_ext sv) (sv_log_codec sv) rs (ss_action_log st0)" "cps_ok (sv_ext sv) (sv_log_codec sv)"
    and "writable (sv_ext sv) (sv_log_codec sv) app"
  shows "fal_synced (sv_ext sv) (sv_log_codec sv)
      (rs @ seal (sv_ext sv) (sv_log_codec sv) (chain_end (sv_ext sv) (sv_log_codec sv) genesis rs) app) (ss_action_log st) \<and>
    ss_registry st = ss_registry st0 \<and>
    (\<forall>p\<in>#ts. pr_compliant p \<longleftrightarrow> al_outcome (pr_record p) = Permitted) \<and>
    (\<forall>(rec, res)\<in>set ans. rec \<in> set app \<and>
       (\<exists>results. res = Inr (OK, Execute_json (al_outcome rec = Permitted) results)))"
    (is "fal_synced ?X ?L (rs @ ?seal app) _ \<and> _")
  using assms(1,6)
proof induction
  case start
  then show ?case using assms(4) by simp
next
  case (check st ts app ans mo h req p st')
  then have h: "fal_holds (sv_log_codec sv) (rs @ seal (sv_ext sv) (sv_log_codec sv)
      (chain_end (sv_ext sv) (sv_log_codec sv) genesis rs) app) (ss_action_log st)" "usable (ss_registry st)"
    using assms(3) by (simp_all add: fal_synced_defs)
  from execute_check_keeps [OF h(2) assms(2) h(1) check.hyps(2)] check show ?case by auto
next
  case (refuse st ts app ans mo h req e st')
  then have h: "fal_holds (sv_log_codec sv) (rs @ seal (sv_ext sv) (sv_log_codec sv)
      (chain_end (sv_ext sv) (sv_log_codec sv) genesis rs) app) (ss_action_log st)" "usable (ss_registry st)"
    using assms(3) by (simp_all add: fal_synced_defs)
  from execute_check_keeps [OF h(2) assms(2) h(1) refuse.hyps(2)] refuse show ?case by auto
next
  case (commit st p ts app ans res st')
  from commit.prems have w: "writable ?X ?L app" "writable ?X ?L [pr_record p]" by (simp_all add: writable_def)
  note IH = commit.IH [OF w(1)]
  obtain log where a: "fal_append ?X ?L (ss_action_log st) (pr_record p) = (Inr (), log)"
    "fal_synced ?X ?L ((rs @ ?seal app) @ [(pr_record p)\<lparr>al_prev_hash := chain_end ?X ?L genesis (rs @ ?seal app)\<rparr>]) log"
    using append_one_synced [OF conjunct1 [OF IH] w(2) assms(5)] by blast
  have "res = Inr (OK, Execute_json (pr_compliant p) (pr_results p))" "ss_action_log st' = log"
    "ss_registry st' = ss_registry st"
    using commit.hyps(2) a(1) by (auto simp: execute_commit_def)
  with IH a(2) show ?case by (auto simp: seal_append chain_end_append)
next
  case (append st ts app ans rec r log)
  from append.prems have w: "writable ?X ?L app" "writable ?X ?L [rec]" by (simp_all add: writable_def)
  note IH = append.IH [OF w(1)]
  obtain log' where "fal_append ?X ?L (ss_action_log st) rec = (Inr (), log')"
    "fal_synced ?X ?L ((rs @ ?seal app) @ [rec\<lparr>al_prev_hash := chain_end ?X ?L genesis (rs @ ?seal app)\<rparr>]) log'"
    using append_one_synced [OF conjunct1 [OF IH] w(2) assms(5)] by blast
  with IH append.hyps(2) show ?case by (auto simp: seal_append chain_end_append)
qed

end

text \<open>Under the default policy a write is not checked against the history, a read is.\<close>

lemma default_permits_writer:
  assumes "starts_with (ci_action i) ''write'' \<or> starts_with (ci_action i) ''delete'' \<or> starts_with (ci_action i) ''update''"
  shows "is_compliant clk (default_policy X) i"
  using assms
  by (auto simp: is_compliant_def verifier_evaluate_default gdpr_data_export_rule_def
      sox_audit_immutability_rule_def is_violation_def)

lemma default_permits_reader:
  assumes "ci_action i \<in> {''read'', ''read_audit_log''}"
    and "\<forall>r\<in>set (ci_action_history i). \<not> recent_write (dt_sub X (clk 1) (hours 24)) r"
  shows "is_compliant clk (default_policy X) i"
  using assms
  by (auto simp: is_compliant_def verifier_evaluate_default gdpr_data_export_rule_def
      sox_audit_immutability_rule_def is_violation_def)

section \<open>Properties\<close>

text \<open>
  C7: requests, the worker and the gateway that use the action log at the same time, in any
  interleaving of their steps: every record handed to the log is appended once, in the order
  of the appends, to an intact chain, and every request that was recorded was answered as its
  record says. No schedule loses a record, breaks the chain or fails an append.
\<close>

theorem log_intact_under_interleaving:
  assumes "exec_conc sv st0 st ts app ans"
    and "sv_registry sv = file_registry_ops (sv_ext sv) (sv_claims sv) C" and "fr_usable C (ss_registry st0)"
    and "fal_synced (sv_ext sv) (sv_log_codec sv) rs (ss_action_log st0)" and "cps_ok (sv_ext sv) (sv_log_codec sv)"
    and "writable (sv_ext sv) (sv_log_codec sv) app"
  shows "fal_synced (sv_ext sv) (sv_log_codec sv)
      (rs @ seal (sv_ext sv) (sv_log_codec sv) (chain_end (sv_ext sv) (sv_log_codec sv) genesis rs) app) (ss_action_log st) \<and>
    (\<forall>(rec, res)\<in>set ans. rec \<in> set app \<and>
       (\<exists>results. res = Inr (OK, Execute_json (al_outcome rec = Permitted) results)))"
  using fr.exec_conc_synced [OF assms(1,2,3,4,5,6)] by simp

text \<open>
  C8: the separation of writers and readers of the audit log does not survive interleaving: an
  agent that asks to read while its own write is on the way is permitted both, and the log
  has the permitted read right after the permitted write, which the rule rules out for
  requests that come one after the other.
\<close>

theorem interleaved_writer_reads_audit_log:
  assumes "sv_registry sv = file_registry_ops (sv_ext sv) (sv_claims sv) C" and "fr_usable C (ss_registry st)"
    and "mr_entries (fr_memory (ss_registry st)) did = Some (pk, ring)"
    and "ss_compliance_verifier st = default_policy (sv_ext sv)"
    and "header_str h agent_did_header = Some did" and "header_str h2 agent_did_header = Some did"
    and "fal_synced (sv_ext sv) (sv_log_codec sv) rs (ss_action_log st)" and "cps_ok (sv_ext sv) (sv_log_codec sv)"
    and "writable (sv_ext sv) (sv_log_codec sv) [execute_record mo did wr Permitted, execute_record mo2 did rd Permitted]"
    and "starts_with (exr_action wr) ''write'' \<or> starts_with (exr_action wr) ''delete'' \<or>
      starts_with (exr_action wr) ''update''"
    and "exr_action rd \<in> {''read'', ''read_audit_log''}"
    and "\<forall>r\<in>set (history_of did rs). \<not> recent_write (dt_sub (sv_ext sv) (mo_is_compliant mo2 1) (hours 24)) r"
  shows "\<exists>st' results results2. exec_conc sv st st' {#}
      [execute_record mo did wr Permitted, execute_record mo2 did rd Permitted]
      [(execute_record mo did wr Permitted, Inr (OK, Execute_json True results)),
       (execute_record mo2 did rd Permitted, Inr (OK, Execute_json True results2))]"
proof -
  let ?X = "sv_ext sv" and ?L = "sv_log_codec sv"
  have holds: "fal_holds ?L rs (ss_action_log st)" using assms(7) by (simp add: fal_synced_defs)
  obtain res where w: "execute_check sv mo h wr st =
      (Inr \<lparr>pr_record = execute_record mo did wr Permitted, pr_compliant = True, pr_results = res\<rparr>, st)"
    using fr.execute_check_prepares [OF assms(2,1) holds assms(5,3), of mo wr] assms(4,10)
    by (auto simp: default_permits_writer)
  obtain res2 where r: "execute_check sv mo2 h2 rd st =
      (Inr \<lparr>pr_record = execute_record mo2 did rd Permitted, pr_compliant = True, pr_results = res2\<rparr>, st)"
    using fr.execute_check_prepares [OF assms(2,1) holds assms(6,3), of mo2 rd] assms(4,11,12)
    by (auto simp: default_permits_reader)
  let ?pw = "\<lparr>pr_record = execute_record mo did wr Permitted, pr_compliant = True, pr_results = res\<rparr>"
  let ?pr = "\<lparr>pr_record = execute_record mo2 did rd Permitted, pr_compliant = True, pr_results = res2\<rparr>"
  have writable: "writable ?X ?L [pr_record ?pw]" "writable ?X ?L [pr_record ?pr]"
    using assms(9) by (simp_all add: writable_def)
  obtain log1 where a1: "fal_append ?X ?L (ss_action_log st) (pr_record ?pw) = (Inr (), log1)"
    and s1: "fal_synced ?X ?L (rs @ [(pr_record ?pw)\<lparr>al_prev_hash := chain_end ?X ?L genesis rs\<rparr>]) log1"
    using append_one_synced [OF assms(7) writable(1) assms(8)] by blast
  obtain log2 where a2: "fal_append ?X ?L log1 (pr_record ?pr) = (Inr (), log2)"
    using append_one_synced [OF s1 writable(2) assms(8)] by blast
  obtain st1 where c1: "execute_commit sv ?pw st = (Inr (OK, Execute_json True res), st1)" "ss_action_log st1 = log1"
    using a1 by (simp add: execute_commit_def)
  obtain st2 where c2: "execute_commit sv ?pr st1 = (Inr (OK, Execute_json True res2), st2)"
    using a2 c1(2) by (simp add: execute_commit_def)
  have "exec_conc sv st st {#?pw, ?pr#} [] []"
    by (rule exec_conc.check [OF exec_conc.check [OF exec_conc.start r] w])
  from exec_conc.commit [OF exec_conc.commit [OF this c1(1)] c2] show ?thesis by auto
qed

theorem log_intact_under_interleaving_witness:
  "\<exists>log st ans. exec_conc exec_services (exec_server log) st {#}
     [execute_record sample_moment ''did:mesh:a'' sample_write Permitted] ans \<and>
     fal_synced log_ext exec_codec [(execute_record sample_moment ''did:mesh:a'' sample_write Permitted)
       \<lparr>al_prev_hash := genesis\<rparr>] (ss_action_log st)"
proof -
  obtain log where log: "fal_synced log_ext exec_codec [] log" using exec_synced by blast
  let ?r = "execute_record sample_moment ''did:mesh:a'' sample_write Permitted"
  obtain r st where "fal_append (sv_ext exec_services) (sv_log_codec exec_services) (ss_action_log (exec_server log)) ?r = (r, st)"
    by fastforce
  from exec_conc.append [OF exec_conc.start this]
  have run: "exec_conc exec_services (exec_server log) ((exec_server log)\<lparr>ss_action_log := st\<rparr>) {#} [?r] []" by simp
  have "fal_synced log_ext exec_codec [?r\<lparr>al_prev_hash := genesis\<rparr>] st"
    using log_intact_under_interleaving [OF run exec_facts(3,6), of "[]"] log exec_cps_ok exec_writable(1)
    by (simp add: exec_facts(1,2,5))
  with run show ?thesis
    by (intro exI [of _ log] exI [of _ "(exec_server log)\<lparr>ss_action_log := st\<rparr>"] exI [of _ "[]"]) simp
qed

theorem interleaved_writer_reads_audit_log_witness:
  "\<exists>log st' results results2. exec_conc exec_services (exec_server log) st' {#}
      [execute_record sample_moment ''did:mesh:a'' sample_write Permitted,
       execute_record sample_moment ''did:mesh:a'' sample_read Permitted]
      [(execute_record sample_moment ''did:mesh:a'' sample_write Permitted, Inr (OK, Execute_json True results)),
       (execute_record sample_moment ''did:mesh:a'' sample_read Permitted, Inr (OK, Execute_json True results2))]"
proof -
  obtain log where log: "fal_synced log_ext exec_codec [] log" using exec_synced by blast
  have sy: "fal_synced (sv_ext exec_services) (sv_log_codec exec_services) [] (ss_action_log (exec_server log))"
    and cp: "cps_ok (sv_ext exec_services) (sv_log_codec exec_services)"
    using log exec_cps_ok by (simp_all add: exec_facts(1,2,5))
  have w: "writable (sv_ext exec_services) (sv_log_codec exec_services)
      [execute_record sample_moment ''did:mesh:a'' sample_write Permitted,
       execute_record sample_moment ''did:mesh:a'' sample_read Permitted]"
    using exec_writable(1,2) by (simp add: exec_facts(1,2) writable_def)
  from interleaved_writer_reads_audit_log [OF exec_facts(3,6,8,7,9,9) sy cp w]
  show ?thesis by (auto simp: sample_write_def sample_read_def history_of_def)
qed

end
