(* ===== verification/Daemon_System.thy ===== *)
theory Daemon_System
  imports Grpc_Safety
begin

text \<open>
  The running daemon, \<open>AgentServer::run\<close> of \<open>crates/daemon/src/lib.rs\<close>: the HTTP server, the
  three gRPC services and the discovery worker over the state they share. A task is an HTTP
  request, a gRPC call or a turn of the worker; a run takes tasks one after the other, in any
  order. The broadcast channel of \<open>tokio\<close> is a parameter.
\<close>

section \<open>The gRPC services\<close>

datatype grpc_call =
    Register_call proto_register_request
  | Get_attestation_call string
  | Watch_presence_call
  | Report_presence_call proto_presence_report
  | Watch_shadows_call "proto_timestamp option" "(recv_error + discovery_event) list"
      \<comment> \<open>with what its subscription delivers\<close>
  | Request_escalation_call proto_escalation_request
  | Approve_call proto_approve_request
  | Deny_call proto_deny_request
  | List_pending_call
  | Get_policy_call string
  | Set_policy_call proto_set_policy_request

datatype grpc_answer =
    Success bool
  | Attestation_answer proto_attestation
  | No_stream unit
  | Alert_stream "shadow_alert list"
  | Request_id string
  | Event_answer proto_escalation_event
  | Pending_answer "proto_escalation_request list"
  | Policy_answer proto_policy_response

fun grpc_serve ::
  "grpc_ext \<Rightarrow> ('r, 'k, 'p) services \<Rightarrow> moment \<Rightarrow> headers \<Rightarrow> grpc_call \<Rightarrow> ('r, 'k, 'p) server_state \<Rightarrow>
     (grpc_status + grpc_answer) \<times> ('r, 'k, 'p) server_state" where
  "grpc_serve G sv mo md (Register_call m) st =
     apfst (map_sum id Success) (grpc_register G sv mo md m st)"
| "grpc_serve G sv mo md (Get_attestation_call did) st =
     apfst (map_sum id Attestation_answer) (grpc_get_attestation G sv mo md did st)"
| "grpc_serve G sv mo md Watch_presence_call st =
     apfst (map_sum id No_stream) (grpc_watch_presence st)"
| "grpc_serve G sv mo md (Report_presence_call m) st =
     apfst (map_sum id Success) (grpc_report_presence G sv mo md m st)"
| "grpc_serve G sv mo md (Watch_shadows_call since live) st =
     apfst (map_sum id Alert_stream) (grpc_watch_shadows G sv mo live md since st)"
| "grpc_serve G sv mo md (Request_escalation_call m) st =
     apfst (map_sum id Request_id) (grpc_request_escalation G sv mo md m st)"
| "grpc_serve G sv mo md (Approve_call m) st =
     apfst (map_sum id Event_answer) (grpc_approve G sv mo md m st)"
| "grpc_serve G sv mo md (Deny_call m) st =
     apfst (map_sum id Event_answer) (grpc_deny G sv mo md m st)"
| "grpc_serve G sv mo md List_pending_call st =
     apfst (map_sum id Pending_answer) (grpc_list_pending G sv mo md st)"
| "grpc_serve G sv mo md (Get_policy_call did) st =
     apfst (map_sum id Policy_answer) (grpc_get_policy G sv mo md did st)"
| "grpc_serve G sv mo md (Set_policy_call m) st =
     apfst (map_sum id Policy_answer) (grpc_set_policy G sv mo md m st)"

text \<open>The body a call is signed over.\<close>

fun grpc_body :: "grpc_ext \<Rightarrow> grpc_call \<Rightarrow> bytes" where
  "grpc_body G (Register_call m) = gx_enc_register G m"
| "grpc_body G (Get_attestation_call did) = gx_enc_get_attestation G did"
| "grpc_body G Watch_presence_call = []"
| "grpc_body G (Report_presence_call m) = gx_enc_presence G m"
| "grpc_body G (Watch_shadows_call since live) = gx_enc_watch_shadows G since"
| "grpc_body G (Request_escalation_call m) = gx_enc_escalation G m"
| "grpc_body G (Approve_call m) = gx_enc_approve G m"
| "grpc_body G (Deny_call m) = gx_enc_deny G m"
| "grpc_body G List_pending_call = gx_enc_list_pending G"
| "grpc_body G (Get_policy_call did) = gx_enc_get_policy G did"
| "grpc_body G (Set_policy_call m) = gx_enc_set_policy G m"

section \<open>The worker\<close>

text \<open>
  The worker has not yet subscribed, or it waits for the event at a position among all that
  were sent, or its loop has ended.
\<close>

datatype worker = Not_started | Receiving nat | Stopped

type_synonym channel = "nat \<Rightarrow> discovery_event list \<Rightarrow> (recv_error + discovery_event) option"

text \<open>
  Documented behaviour of \<open>tokio::sync::broadcast\<close>: a receiver waits when there is nothing new
  and gets the events in order, except that one which is more than \<open>capacity\<close> events behind
  gets \<open>Lagged\<close>. The sender lives as long as the daemon, so the channel is never closed.
\<close>

definition broadcast_ok :: "nat \<Rightarrow> channel \<Rightarrow> bool" where
  "broadcast_ok capacity recv \<longleftrightarrow> (\<forall>pos sent. pos \<le> length sent \<longrightarrow>
     (if pos = length sent then recv pos sent = None
      else if length sent - pos \<le> capacity then recv pos sent = Some (Inr (sent ! pos))
      else \<exists>k. recv pos sent = Some (Inl (Lagged k))))"

record ('r, 'k, 'p) daemon_env =
  de_axum :: axum
  de_grpc :: grpc_ext
  de_services :: "('r, 'k, 'p) services"
  de_event_json :: "discovery_event \<Rightarrow> string"
  de_recv :: channel

record ('r, 'k, 'p) daemon =
  dn_server :: "('r, 'k, 'p) server_state"
  dn_worker :: worker

text \<open>A turn of the worker; \<open>w\<close> is a fresh identifier and a clock reading.\<close>

definition worker_turn ::
  "('r, 'k, 'p) daemon_env \<Rightarrow> uuid \<times> datetime \<Rightarrow> ('r, 'k, 'p) daemon \<Rightarrow> ('r, 'k, 'p) daemon" where
  "worker_turn E w d = (case dn_worker d of
       Not_started \<Rightarrow> d\<lparr>dn_worker := Receiving (length (dm_events (ss_discovery_manager (dn_server d))))\<rparr>
     | Receiving pos \<Rightarrow>
         (case de_recv E pos (dm_events (ss_discovery_manager (dn_server d))) of
            None \<Rightarrow> d
          | Some (Inl e) \<Rightarrow> d\<lparr>dn_worker := Stopped\<rparr>
          | Some (Inr (Presence a)) \<Rightarrow> d\<lparr>dn_worker := Receiving (Suc pos)\<rparr>
          | Some (Inr (Shadow a)) \<Rightarrow>
              d\<lparr>dn_worker := Receiving (Suc pos),
                dn_server := (dn_server d)\<lparr>ss_action_log :=
                  snd (fal_append (sv_ext (de_services E)) (sv_log_codec (de_services E))
                    (ss_action_log (dn_server d)) (shadow_record (de_event_json E) w (Shadow a) a))\<rparr>\<rparr>)
     | Stopped \<Rightarrow> d)"

section \<open>Tasks and runs\<close>

datatype task =
    Http moment http_request
  | Grpc moment headers grpc_call
  | Worker "uuid \<times> datetime"

datatype answer =
    Http_answer http_response
  | Grpc_answer "grpc_status + grpc_answer"
  | No_answer

fun daemon_step ::
  "('r, 'k, 'p) daemon_env \<Rightarrow> task \<Rightarrow> ('r, 'k, 'p) daemon \<Rightarrow> answer \<times> ('r, 'k, 'p) daemon" where
  "daemon_step E (Http mo rq) d =
     (case auth_middleware (de_axum E) (de_services E) mo rq (dn_server d) of
        (resp, st) \<Rightarrow> (Http_answer resp, d\<lparr>dn_server := st\<rparr>))"
| "daemon_step E (Grpc mo md call) d =
     (case grpc_serve (de_grpc E) (de_services E) mo md call (dn_server d) of
        (r, st) \<Rightarrow> (Grpc_answer r, d\<lparr>dn_server := st\<rparr>))"
| "daemon_step E (Worker w) d = (No_answer, worker_turn E w d)"

fun daemon_run ::
  "('r, 'k, 'p) daemon_env \<Rightarrow> task list \<Rightarrow> ('r, 'k, 'p) daemon \<Rightarrow> answer list \<times> ('r, 'k, 'p) daemon" where
  "daemon_run E [] d = ([], d)"
| "daemon_run E (t # ts) d =
     (case daemon_step E t d of
        (a, d1) \<Rightarrow> (case daemon_run E ts d1 of (as, d2) \<Rightarrow> (a # as, d2)))"

definition daemon_start :: "('r, 'k, 'p) server_state \<Rightarrow> ('r, 'k, 'p) daemon" where
  "daemon_start st = \<lparr>dn_server = st, dn_worker = Not_started\<rparr>"

lemma daemon_run_append:
  "daemon_run E (ts @ us) d =
     (case daemon_run E ts d of (as, d1) \<Rightarrow> (case daemon_run E us d1 of (bs, d2) \<Rightarrow> (as @ bs, d2)))"
  by (induction ts arbitrary: d) (simp_all split: prod.split)

text \<open>An invariant of the steps, over the answers so far and the state, is one of the runs.\<close>

lemma daemon_run_invariant:
  assumes "daemon_run E ts d = (as, d')" "I [] d"
    and "\<And>t as d a d'. t \<in> set ts \<Longrightarrow> I as d \<Longrightarrow> daemon_step E t d = (a, d') \<Longrightarrow> I (as @ [a]) d'"
  shows "I as d'"
  using assms
proof (induction ts arbitrary: as d' rule: rev_induct)
  case (snoc t ts)
  obtain as1 d1 a where s: "daemon_run E ts d = (as1, d1)" "daemon_step E t d1 = (a, d')" "as = as1 @ [a]"
    using snoc.prems(1) by (auto simp: daemon_run_append split: prod.splits)
  have "I as1 d1" by (rule snoc.IH [OF s(1) snoc.prems(2)], rule snoc.prems(3)) auto
  with snoc.prems(3) [OF _ _ s(2)] s(3) show ?case by simp
qed simp

lemma apfst_eq_iff: "apfst f x = (r, s) \<longleftrightarrow> (\<exists>q. x = (q, s) \<and> r = f q)"
  by (cases x) auto

section \<open>What a request can change\<close>

text \<open>A refused request of the HTTP server, and one that goes on to a handler.\<close>

lemma middleware_cases:
  assumes "auth_middleware ax sv mo rq st = (resp, st')"
  obtains (refused) e where "authenticate sv mo rq st = (Inl e, st')" "resp = into_response False (Inl e)"
  | (handled) body st1 r where "authenticate sv mo rq st = (Inr body, st1)"
      "dispatch ax sv mo rq body st1 = (r, st')" "resp = into_response True r"
  using assms
  by (cases "authenticate sv mo rq st"; cases "fst (authenticate sv mo rq st)")
    (auto simp: auth_middleware_def split: prod.splits)

lemma dispatch_cases:
  assumes "dispatch ax sv mo rq body st = (r, st')"
  obtains (no_route) code where "r = Inl (code, [])" "st' = st"
  | (endpoint) ep caps where "call_endpoint ax sv mo (rq_headers rq) (rq_peer rq) body caps ep st = (r, st')"
  using assms by (auto simp: dispatch_def split: option.splits)

text \<open>
  The parts of the state: every request keeps the registry usable and its key, the rules and
  whether there is an exporter, and only adds to the events of discovery.
\<close>

definition keeps_shape ::
  "('r \<Rightarrow> bool) \<Rightarrow> ('r \<Rightarrow> signing_key) \<Rightarrow> ('r, 'k, 'p) server_state \<Rightarrow> ('r, 'k, 'p) server_state \<Rightarrow> bool" where
  "keeps_shape usable rkey st st' \<longleftrightarrow>
     usable (ss_registry st') \<and> rkey (ss_registry st') = rkey (ss_registry st) \<and>
     ss_registry_pubkey st' = ss_registry_pubkey st \<and>
     ss_compliance_verifier st' = ss_compliance_verifier st \<and> ss_siem_exporter st' = ss_siem_exporter st \<and>
     (\<exists>evs. dm_events (ss_discovery_manager st') = dm_events (ss_discovery_manager st) @ evs)"

lemma discovery_events_grow:
  "\<exists>evs. dm_events (report_presence t did name address source m) = dm_events m @ evs"
  "\<exists>evs. dm_events (register_agent k m) = dm_events m @ evs"
  by (auto simp: report_presence_def register_agent_def Let_def split: prod.split option.split)

lemmas handler_defs = register_agent_handler_def get_attestation_handler_def get_ring_handler_def
  get_policy_handler_def save_policy_handler_def get_key_handler_def save_key_handler_def
  list_pending_handler_def approve_escalation_handler_def report_presence_handler_def
  list_shadows_handler_def

context agent_registry
begin

lemma register_keeps:
  "usable s \<Longrightarrow> reg_register R s i r = (res, s') \<Longrightarrow> usable s' \<and> rkey s' = rkey s"
  by (erule (1) registerE) simp

lemma lookups_keep:
  assumes "usable s"
  shows "reg_get_attestation R t s d = (r, s') \<Longrightarrow> s' = s" "reg_get_ring R s d = (r2, s') \<Longrightarrow> s' = s"
  using assms by (auto simp: get_attestation get_ring)

lemma endpoint_keeps_shape:
  assumes "usable (ss_registry st)" "sv_registry sv = R"
    and "call_endpoint ax sv mo h peer body caps ep st = (r, st')"
  shows "keeps_shape usable rkey st st'"
proof -
  note keeps = register_keeps [OF assms(1), folded assms(2)] lookups_keep [OF assms(1), folded assms(2)]
  show ?thesis
  proof (cases ep)
    case Register_agent
    with assms show ?thesis
      by (auto simp: with_arg_def register_agent_handler_def keeps_shape_def discovery_events_grow
        dest!: keeps(1) split: sum.splits prod.splits)
next
  case Execute_action
  with assms show ?thesis
    by (auto simp: with_arg_def execute_action_handler_def keeps_shape_def Let_def
        dest!: keeps(2,3) split: sum.splits prod.splits option.splits)
qed (use assms in \<open>auto simp: with_arg_def handler_defs keeps_shape_def discovery_events_grow
    dest!: keeps(2,3) split: sum.splits prod.splits option.splits if_splits\<close>)
qed

lemma grpc_verify_keeps:
  assumes "usable (ss_registry st)" "sv_ext sv = X" "sv_claims sv = J" "sv_registry sv = R"
    and "grpc_verify sv mo did sig body st = (r, st')"
  shows "st' = st"
  using assms(5)
  by (auto simp: grpc_verify_def assms(2-4) dest!: verify_keeps_registry [OF assms(1)] split: prod.splits)

lemma with_grpc_auth_cases:
  assumes "usable (ss_registry st)" "sv_ext sv = X" "sv_claims sv = J" "sv_registry sv = R"
    and "with_grpc_auth sv mo md body f st = (r, st')"
  obtains (refused) s where "r = Inl s" "st' = st" | (passed) did where "f did st = (r, st')"
  using assms(5)
  by (auto simp: with_grpc_auth_def dest!: grpc_verify_keeps [OF assms(1-4)] split: sum.splits prod.splits)

lemma keeps_shape_refl [simp]: "usable (ss_registry st) \<Longrightarrow> keeps_shape usable rkey st st"
  by (simp add: keeps_shape_def)

lemma grpc_keeps_shape:
  assumes "usable (ss_registry st)" "sv_ext sv = X" "sv_claims sv = J" "sv_registry sv = R"
    and "grpc_serve G sv mo md call st = (r, st')"
  shows "keeps_shape usable rkey st st'"
proof -
  note auth = with_grpc_auth_cases [OF assms(1-4)]
  note keeps = register_keeps [OF assms(1), folded assms(4)] lookups_keep [OF assms(1), folded assms(4)]
  have verify: "grpc_verify sv mo did sig body st = (q, st1) \<Longrightarrow> st1 = st" for did sig body q st1
    by (rule grpc_verify_keeps [OF assms(1-4)])
  show ?thesis
  proof (cases call)
    case Watch_shadows_call
    with assms(1,5) show ?thesis
      by (auto simp: apfst_eq_iff grpc_watch_shadows_def keeps_shape_def Let_def dest!: keeps(3) verify
          split: sum.splits prod.splits option.splits if_splits)
  next
    case Watch_presence_call
    with assms(1,5) show ?thesis by (auto simp: grpc_watch_presence_def apfst_eq_iff)
  qed (use assms(1,5) in \<open>auto simp: apfst_eq_iff grpc_defs keeps_shape_def discovery_events_grow
      dest!: keeps elim!: auth split: sum.splits prod.splits option.splits\<close>)
qed

end

section \<open>What a task leaves in the log\<close>

text \<open>A record of the worker holds an event, every other record a decision.\<close>

definition alert_json :: "action_log_record \<Rightarrow> string option" where
  "alert_json r = (case al_outcome r of DiscoveryEventLogged j \<Rightarrow> Some j | _ \<Rightarrow> None)"

lemma alert_json_simps [simp]:
  "alert_json (r\<lparr>al_prev_hash := h\<rparr>) = alert_json r"
  "alert_json (shadow_record to_json w ev a) = Some (to_json ev)"
  "alert_json (execute_record mo did req (execute_outcome ok results)) = None"
  by (simp_all add: alert_json_def shadow_record_def execute_outcome_def split: option.split)

definition executed :: "answer \<Rightarrow> bool option" where
  "executed a = (case a of
       Http_answer resp \<Rightarrow> (case rs_body resp of Execute_json ok _ \<Rightarrow> Some ok | _ \<Rightarrow> None)
     | _ \<Rightarrow> None)"

text \<open>The records a task can hand to the log can be written there.\<close>

fun loggable :: "('r, 'k, 'p) daemon_env \<Rightarrow> task \<Rightarrow> bool" where
  "loggable E (Http mo rq) \<longleftrightarrow> (\<forall>did body req out. header_str (rq_headers rq) agent_did_header = Some did \<longrightarrow>
     ax_json_execute (de_axum E) (rq_headers rq) body = Inr req \<longrightarrow>
     writable (sv_ext (de_services E)) (sv_log_codec (de_services E)) [execute_record mo did req out])"
| "loggable E (Grpc mo md call) \<longleftrightarrow> True"
| "loggable E (Worker w) \<longleftrightarrow> (\<forall>a. writable (sv_ext (de_services E)) (sv_log_codec (de_services E))
     [shadow_record (de_event_json E) w (Shadow a) a])"

text \<open>A request leaves the log as it was, or appends the record of an executed action.\<close>

definition log_effect ::
  "ext \<Rightarrow> log_codec \<Rightarrow> action_log_record list \<Rightarrow> ('r, 'k, 'p) server_state \<Rightarrow> ('r, 'k, 'p) server_state \<Rightarrow>
     bool option \<Rightarrow> bool" where
  "log_effect X L rs st st' x \<longleftrightarrow> (case x of
       None \<Rightarrow> ss_action_log st' = ss_action_log st \<and> ss_exported st' = ss_exported st
     | Some ok \<Rightarrow> (\<exists>rec. fal_synced X L (rs @ [rec\<lparr>al_prev_hash := chain_end X L genesis rs\<rparr>]) (ss_action_log st') \<and>
         ss_exported st' = ss_exported st @ (if ss_siem_exporter st then [rec] else []) \<and>
         alert_json rec = None \<and> (al_outcome rec = Permitted \<longleftrightarrow> ok) \<and> al_prev_hash rec = []))"

lemma log_effect_None [simp]:
  "log_effect X L rs st st' None \<longleftrightarrow> ss_action_log st' = ss_action_log st \<and> ss_exported st' = ss_exported st"
  by (simp add: log_effect_def)

definition body_executed :: "http_result \<Rightarrow> bool option" where
  "body_executed r = (case r of Inr (_, Execute_json ok _) \<Rightarrow> Some ok | _ \<Rightarrow> None)"

lemma body_executed_simps [simp]:
  "body_executed (Inl e) = None" "body_executed (Inr (c, Execute_json ok res)) = Some ok"
  "body_executed (or_internal r f) = (case r of Inl _ \<Rightarrow> None | Inr v \<Rightarrow> body_executed (Inr (f v)))"
  by (simp_all add: body_executed_def split: sum.split)

lemma executed_response: "executed (Http_answer (into_response dep r)) = body_executed r"
  by (auto simp: executed_def into_response_def body_executed_def split: sum.split prod.split)

context agent_registry
begin

lemma execute_action_log_effect:
  assumes "usable (ss_registry st)" "sv_ext sv = X" "sv_registry sv = R" "sv_log_codec sv = L"
    and "fal_synced X L rs (ss_action_log st)" "cps_ok X L"
    and "\<And>did out. header_str h agent_did_header = Some did \<Longrightarrow> writable X L [execute_record mo did req out]"
    and "execute_action_handler sv mo h req st = (r, st')"
  shows "log_effect X L rs st st' (body_executed r)"
proof (cases "header_str h agent_did_header")
  case None
  with assms(8) show ?thesis by (auto simp: execute_action_handler_def)
next
  case (Some did)
  show ?thesis
  proof (cases "entries (ss_registry st) did")
    case None
    then have "reg_get_ring R (ss_registry st) did = (Inr None, ss_registry st)" using get_ring [OF assms(1)] by simp
    with assms(3,8) Some show ?thesis by (auto simp: execute_action_handler_def)
  next
    case (Some e)
    obtain pk ring where e: "e = (pk, ring)" by (cases e)
    have w: "\<forall>out. writable X L [execute_record mo did req out]" using assms(7) \<open>header_str h _ = _\<close> by simp
    note logged = execute_action_logged [OF assms(1-4) \<open>header_str h _ = _\<close> Some [unfolded e] assms(5,6) w
      refl refl refl refl]
    show ?thesis
    proof (rule exE [OF logged], elim conjE)
      fix log
      let ?i = "execute_input did ring req (history_of did rs)"
      let ?results = "verifier_evaluate (mo_evaluate mo) (ss_compliance_verifier st) ?i"
      let ?ok = "is_compliant (mo_is_compliant mo) (ss_compliance_verifier st) ?i"
      let ?rec = "execute_record mo did req (execute_outcome ?ok ?results)"
      assume ex: "execute_action_handler sv mo h req st = (Inr (OK, Execute_json ?ok ?results), st\<lparr>ss_action_log := log,
          ss_exported := ss_exported st @ (if ss_siem_exporter st then [?rec] else [])\<rparr>)"
        and sy: "fal_synced X L (rs @ [?rec\<lparr>al_prev_hash := chain_end X L genesis rs\<rparr>]) log"
      have r: "r = Inr (OK, Execute_json ?ok ?results)" and st': "st' = st\<lparr>ss_action_log := log,
          ss_exported := ss_exported st @ (if ss_siem_exporter st then [?rec] else [])\<rparr>"
        using assms(8) ex by simp_all
      have p: "al_outcome ?rec = Permitted \<longleftrightarrow> ?ok"
        by (simp add: execute_outcome_def split: option.split)
      have h: "al_prev_hash ?rec = []" by (simp add: execute_record_def)
      have "\<exists>rec. fal_synced X L (rs @ [rec\<lparr>al_prev_hash := chain_end X L genesis rs\<rparr>]) (ss_action_log st') \<and>
         ss_exported st' = ss_exported st @ (if ss_siem_exporter st then [rec] else []) \<and>
         alert_json rec = None \<and> (al_outcome rec = Permitted \<longleftrightarrow> ?ok) \<and> al_prev_hash rec = []"
        by (rule exI [of _ ?rec]) (use sy p h in \<open>simp add: st'\<close>)
      then show ?thesis unfolding r log_effect_def by simp
    qed
  qed
qed

lemma endpoint_log_effect:
  assumes "usable (ss_registry st)" "sv_ext sv = X" "sv_registry sv = R" "sv_log_codec sv = L"
    and "fal_synced X L rs (ss_action_log st)" "cps_ok X L"
    and "\<And>did req out. header_str h agent_did_header = Some did \<Longrightarrow> ax_json_execute ax h body = Inr req \<Longrightarrow>
      writable X L [execute_record mo did req out]"
    and "call_endpoint ax sv mo h peer body caps ep st = (r, st')"
  shows "log_effect X L rs st st' (body_executed r)"
proof (cases ep)
  case Execute_action
  then show ?thesis
    using assms(8) execute_action_log_effect [OF assms(1-6), of h mo _ r st'] assms(7)
    by (auto simp: with_arg_def split: sum.splits)
qed (use assms(8) in \<open>auto simp: with_arg_def handler_defs body_executed_def or_internal_def
    split: sum.splits prod.splits option.splits if_splits\<close>)

lemma grpc_keeps_log:
  assumes "usable (ss_registry st)" "sv_ext sv = X" "sv_claims sv = J" "sv_registry sv = R"
    and "fal_synced X' (sv_log_codec sv) rs (ss_action_log st)"
    and "grpc_serve G sv mo md call st = (r, st')"
  shows "ss_action_log st' = ss_action_log st \<and> ss_exported st' = ss_exported st"
proof -
  note auth = with_grpc_auth_cases [OF assms(1-4)]
  have verify: "grpc_verify sv mo did sig body st1 = (q, st2) \<Longrightarrow>
      ss_action_log st2 = ss_action_log st1 \<and> ss_exported st2 = ss_exported st1" for did sig body q st1 st2
    by (auto simp: grpc_verify_def split: prod.splits)
  have replay: "fal_replay_since (sv_log_codec sv) (ss_action_log st) since = (q, log) \<Longrightarrow> log = ss_action_log st"
    for since q log
    using fal_holds_reads(3) [of "sv_log_codec sv" rs "ss_action_log st" since] assms(5) by (simp add: fal_synced_defs)
  show ?thesis
  proof (cases call)
    case (Watch_shadows_call since live)
    with assms(6) show ?thesis
      by (auto simp: apfst_eq_iff grpc_watch_shadows_def Let_def dest!: verify dest: replay
          split: sum.splits prod.splits option.splits if_splits)
  next
    case Watch_presence_call
    with assms(6) show ?thesis by (auto simp: grpc_watch_presence_def apfst_eq_iff)
  qed (use assms(6) in \<open>auto simp: apfst_eq_iff grpc_defs
      elim!: auth split: sum.splits prod.splits option.splits\<close>)
qed

lemma authenticate_effect:
  assumes "usable (ss_registry st)" "sv_ext sv = X" "sv_claims sv = J" "sv_registry sv = R"
    and "authenticate sv mo rq st = (r, st')"
  shows "keeps_shape usable rkey st st' \<and> ss_action_log st' = ss_action_log st \<and> ss_exported st' = ss_exported st"
  using assms(1,5)
  by (auto simp: authenticate_def Let_def assms(2-4) keeps_shape_def discovery_events_grow
      dest!: verify_keeps_registry [OF assms(1)] split: option.splits sum.splits prod.splits if_splits)

lemma middleware_effect:
  assumes "usable (ss_registry st)" "sv_ext sv = X" "sv_claims sv = J" "sv_registry sv = R" "sv_log_codec sv = L"
    and "fal_synced X L rs (ss_action_log st)" "cps_ok X L"
    and "\<And>did body req out. header_str (rq_headers rq) agent_did_header = Some did \<Longrightarrow>
      ax_json_execute ax (rq_headers rq) body = Inr req \<Longrightarrow> writable X L [execute_record mo did req out]"
    and "auth_middleware ax sv mo rq st = (resp, st')"
  shows "keeps_shape usable rkey st st' \<and> log_effect X L rs st st' (executed (Http_answer resp))"
  using assms(9)
proof (cases rule: middleware_cases)
  case (refused e)
  then show ?thesis using authenticate_effect [OF assms(1-4)] by (simp add: executed_response)
next
  case (handled body st1 r)
  have "st1 = st" using authenticateE [OF assms(1-4) handled(1)] by metis
  with handled(2) have "dispatch ax sv mo rq body st = (r, st')" by simp
  then show ?thesis
  proof (cases rule: dispatch_cases)
    case (no_route code)
    then show ?thesis using assms(1) handled(3) by (simp add: executed_response)
  next
    case (endpoint ep caps)
    from endpoint_keeps_shape [OF assms(1,4) endpoint] endpoint_log_effect [OF assms(1,2,4-7) assms(8) endpoint]
    show ?thesis using handled(3) by (simp add: executed_response)
  qed
qed

end

end
