(* ===== verification/Daemon_Runs.thy ===== *)
theory Daemon_Runs
  imports Daemon_System Daemon_Interleaving
begin

text \<open>
  What holds in every run of the daemon: the log and what was answered, what forged requests
  can do, the decisions on escalations, the keys that are kept, and how the worker ends.
\<close>

section \<open>The log of a run\<close>

definition shadow_json :: "('r, 'k, 'p) daemon_env \<Rightarrow> discovery_event list \<Rightarrow> string list" where
  "shadow_json E evs = map (\<lambda>a. de_event_json E (Shadow a)) (shadows_in evs)"

definition decisions :: "action_log_record list \<Rightarrow> action_log_record list" where
  "decisions rs = filter (\<lambda>r. alert_json r = None) rs"

abbreviation daemon_events :: "('r, 'k, 'p) daemon \<Rightarrow> discovery_event list" where
  "daemon_events d \<equiv> dm_events (ss_discovery_manager (dn_server d))"

text \<open>
  The records \<open>new\<close> of the log are those of the events received up to \<open>pos\<close> and those of the
  executed actions, each kind in its order; the answers and the exporter tell the latter.
\<close>

definition log_accounts ::
  "('r, 'k, 'p) daemon_env \<Rightarrow> ('r, 'k, 'p) daemon \<Rightarrow> answer list \<Rightarrow> ('r, 'k, 'p) daemon \<Rightarrow>
     action_log_record list \<Rightarrow> nat \<Rightarrow> bool" where
  "log_accounts E d0 as d new pos \<longleftrightarrow>
     length (daemon_events d0) \<le> pos \<and> pos \<le> length (daemon_events d) \<and>
     List.map_filter alert_json new = shadow_json E (drop (length (daemon_events d0)) (take pos (daemon_events d))) \<and>
     List.map_filter executed as = map (\<lambda>r. al_outcome r = Permitted) (decisions new) \<and>
     (ss_siem_exporter (dn_server d0) \<longrightarrow> ss_exported (dn_server d) =
        ss_exported (dn_server d0) @ map (\<lambda>r. r\<lparr>al_prev_hash := []\<rparr>) (decisions new))"

lemma decisions_snoc:
  "decisions (rs @ [r]) = (if alert_json r = None then decisions rs @ [r] else decisions rs)"
  by (simp add: decisions_def)

lemma map_filter_snoc: "List.map_filter f (xs @ [x]) = List.map_filter f xs @ (case f x of None \<Rightarrow> [] | Some y \<Rightarrow> [y])"
  by (simp add: map_filter_append map_filter_simps split: option.split)

lemma shadows_in_append [simp]: "shadows_in (xs @ ys) = shadows_in xs @ shadows_in ys"
  by (induction xs rule: shadows_in.induct) simp_all

text \<open>A request, after which \<open>x\<close> was executed.\<close>

lemma log_accounts_request:
  assumes "log_accounts E d0 as d new pos" "keeps_shape U K (dn_server d0) (dn_server d)"
    and "keeps_shape U K (dn_server d) (dn_server d')" "executed a = x"
    and "log_effect X L (rs @ new) (dn_server d) (dn_server d') x"
    and "fal_synced X L (rs @ new) (ss_action_log (dn_server d))"
  shows "\<exists>new'. fal_synced X L (rs @ new') (ss_action_log (dn_server d')) \<and> log_accounts E d0 (as @ [a]) d' new' pos"
proof -
  obtain evs where evs: "daemon_events d' = daemon_events d @ evs"
    using assms(3) by (auto simp: keeps_shape_def)
  have siem: "ss_siem_exporter (dn_server d) = ss_siem_exporter (dn_server d0)"
    using assms(2) by (simp add: keeps_shape_def)
  show ?thesis
  proof (cases x)
    case None
    with assms(1,4-6) evs show ?thesis
      by (intro exI [of _ new]) (simp add: log_accounts_def map_filter_snoc)
  next
    case (Some ok)
    then obtain rec where rec: "fal_synced X L ((rs @ new) @ [rec\<lparr>al_prev_hash := chain_end X L genesis (rs @ new)\<rparr>])
        (ss_action_log (dn_server d'))"
      "ss_exported (dn_server d') = ss_exported (dn_server d) @ (if ss_siem_exporter (dn_server d) then [rec] else [])"
      "alert_json rec = None" "al_outcome rec = Permitted \<longleftrightarrow> ok" "al_prev_hash rec = []"
      using assms(5) unfolding log_effect_def by auto
    let ?r = "rec\<lparr>al_prev_hash := chain_end X L genesis (rs @ new)\<rparr>"
    have "?r\<lparr>al_prev_hash := []\<rparr> = rec" using rec(5) by simp
    with assms(1,4) Some rec evs siem show ?thesis
      by (intro exI [of _ "new @ [?r]"]) (simp add: log_accounts_def map_filter_snoc decisions_snoc)
  qed
qed

text \<open>A turn of the worker, which has subscribed.\<close>

definition subscribed :: "nat \<Rightarrow> worker \<Rightarrow> bool" where
  "subscribed pos wk \<longleftrightarrow> wk = Receiving pos \<or> wk = Stopped"

lemma worker_turn_effect:
  assumes "broadcast_ok capacity (de_recv E)" "pos \<le> length (daemon_events d)" "dn_worker d = Receiving pos"
  shows "pos = length (daemon_events d) \<and> worker_turn E w d = d \<or>
    pos < length (daemon_events d) \<and>
      (worker_turn E w d = d\<lparr>dn_worker := Stopped\<rparr> \<or>
       (\<exists>a. daemon_events d ! pos = Presence a) \<and> worker_turn E w d = d\<lparr>dn_worker := Receiving (Suc pos)\<rparr> \<or>
       (\<exists>a. daemon_events d ! pos = Shadow a \<and> worker_turn E w d =
          d\<lparr>dn_worker := Receiving (Suc pos), dn_server := (dn_server d)\<lparr>ss_action_log :=
             snd (fal_append (sv_ext (de_services E)) (sv_log_codec (de_services E)) (ss_action_log (dn_server d))
               (shadow_record (de_event_json E) w (Shadow a) a))\<rparr>\<rparr>))"
proof -
  have "if pos = length (daemon_events d) then de_recv E pos (daemon_events d) = None
      else if length (daemon_events d) - pos \<le> capacity
      then de_recv E pos (daemon_events d) = Some (Inr (daemon_events d ! pos))
      else \<exists>k. de_recv E pos (daemon_events d) = Some (Inl (Lagged k))"
    using assms(1,2) by (simp add: broadcast_ok_def)
  with assms(2,3) show ?thesis
    by (cases "daemon_events d ! pos") (auto simp: worker_turn_def split: if_splits)
qed

lemma take_drop_Suc:
  assumes "n \<le> pos" "pos < length xs"
  shows "drop n (take (Suc pos) xs) = drop n (take pos xs) @ [xs ! pos]"
  using assms by (simp add: take_Suc_conv_app_nth)

lemma worker_keeps_shape:
  assumes "U (ss_registry (dn_server d))"
  shows "keeps_shape U K (dn_server d) (dn_server (worker_turn E w d))"
  using assms by (auto simp: worker_turn_def keeps_shape_def split: worker.split option.split sum.split discovery_event.split)

lemma log_accounts_worker:
  assumes "log_accounts E d0 as d new pos" "subscribed pos (dn_worker d)" "broadcast_ok capacity (de_recv E)"
    and "fal_synced (sv_ext (de_services E)) (sv_log_codec (de_services E)) (rs @ new) (ss_action_log (dn_server d))"
    and "cps_ok (sv_ext (de_services E)) (sv_log_codec (de_services E))" "loggable E (Worker w)"
  shows "\<exists>new' pos'. fal_synced (sv_ext (de_services E)) (sv_log_codec (de_services E)) (rs @ new')
        (ss_action_log (dn_server (worker_turn E w d))) \<and>
      log_accounts E d0 (as @ [No_answer]) (worker_turn E w d) new' pos' \<and>
      subscribed pos' (dn_worker (worker_turn E w d))"
    (is "\<exists>new' pos'. ?P new' pos'")
proof -
  let ?X = "sv_ext (de_services E)" and ?L = "sv_log_codec (de_services E)"
  have pos: "length (daemon_events d0) \<le> pos" "pos \<le> length (daemon_events d)"
    using assms(1) by (simp_all add: log_accounts_def)
  have none: "executed No_answer = None" by (simp add: executed_def)
  have stay: "?P new pos" if "dn_server (worker_turn E w d) = dn_server d" "subscribed pos (dn_worker (worker_turn E w d))"
    using that assms(1,4) none by (simp add: log_accounts_def map_filter_snoc)
  show ?thesis
  proof (cases "dn_worker d = Receiving pos")
    case False
    then have "worker_turn E w d = d" using assms(2) by (simp add: subscribed_def worker_turn_def)
    then show ?thesis using stay assms(2) by auto
  next
    case True
    from worker_turn_effect [OF assms(3) pos(2) True, of w] consider
        "worker_turn E w d = d" | "worker_turn E w d = d\<lparr>dn_worker := Stopped\<rparr>"
      | (presence) a where "pos < length (daemon_events d)" "daemon_events d ! pos = Presence a"
          "worker_turn E w d = d\<lparr>dn_worker := Receiving (Suc pos)\<rparr>"
      | (shadow) a where "pos < length (daemon_events d)" "daemon_events d ! pos = Shadow a"
          "worker_turn E w d = d\<lparr>dn_worker := Receiving (Suc pos), dn_server := (dn_server d)\<lparr>ss_action_log :=
             snd (fal_append ?X ?L (ss_action_log (dn_server d)) (shadow_record (de_event_json E) w (Shadow a) a))\<rparr>\<rparr>"
      by blast
    then show ?thesis
    proof cases
      case presence
      have "?P new (Suc pos)"
        using presence assms(1,4) none pos
        by (simp add: log_accounts_def map_filter_snoc subscribed_def shadow_json_def take_Suc_conv_app_nth)
      then show ?thesis by blast
    next
      case shadow
      let ?r = "shadow_record (de_event_json E) w (Shadow a) a"
      obtain s' where s': "fal_append ?X ?L (ss_action_log (dn_server d)) ?r = (Inr (), s')"
        "fal_synced ?X ?L ((rs @ new) @ [?r\<lparr>al_prev_hash := chain_end ?X ?L genesis (rs @ new)\<rparr>]) s'"
        using append_one_synced [OF assms(4) _ assms(5), of ?r] assms(6) by auto
      have "?P (new @ [?r\<lparr>al_prev_hash := chain_end ?X ?L genesis (rs @ new)\<rparr>]) (Suc pos)"
        using shadow s' assms(1) none pos
        by (simp add: log_accounts_def map_filter_snoc subscribed_def shadow_json_def take_Suc_conv_app_nth
            decisions_snoc)
      then show ?thesis by blast
    qed (use stay True in \<open>auto simp: subscribed_def\<close>)
  qed
qed

definition log_invariant ::
  "('r \<Rightarrow> bool) \<Rightarrow> ('r \<Rightarrow> signing_key) \<Rightarrow> ('r, 'k, 'p) daemon_env \<Rightarrow> action_log_record list \<Rightarrow>
     ('r, 'k, 'p) daemon \<Rightarrow> answer list \<Rightarrow> ('r, 'k, 'p) daemon \<Rightarrow> bool" where
  "log_invariant U K E rs d0 as d \<longleftrightarrow> keeps_shape U K (dn_server d0) (dn_server d) \<and>
     (\<exists>new pos. fal_synced (sv_ext (de_services E)) (sv_log_codec (de_services E)) (rs @ new) (ss_action_log (dn_server d)) \<and>
       log_accounts E d0 as d new pos \<and> subscribed pos (dn_worker d))"

lemma keeps_shape_trans:
  "keeps_shape U K a b \<Longrightarrow> keeps_shape U K b c \<Longrightarrow> keeps_shape U K a c"
  by (auto simp: keeps_shape_def)

lemma log_invariant_request:
  assumes "log_invariant U K E rs d0 as d" "keeps_shape U K (dn_server d) st"
    and "\<And>new. fal_synced (sv_ext (de_services E)) (sv_log_codec (de_services E)) (rs @ new) (ss_action_log (dn_server d)) \<Longrightarrow>
      log_effect (sv_ext (de_services E)) (sv_log_codec (de_services E)) (rs @ new) (dn_server d) st (executed a)"
  shows "log_invariant U K E rs d0 (as @ [a]) (d\<lparr>dn_server := st\<rparr>)"
proof -
  obtain new pos where i: "keeps_shape U K (dn_server d0) (dn_server d)"
    "fal_synced (sv_ext (de_services E)) (sv_log_codec (de_services E)) (rs @ new) (ss_action_log (dn_server d))"
    "log_accounts E d0 as d new pos" "subscribed pos (dn_worker d)"
    using assms(1) by (auto simp: log_invariant_def)
  have k: "keeps_shape U K (dn_server d) (dn_server (d\<lparr>dn_server := st\<rparr>))" using assms(2) by simp
  have e: "log_effect (sv_ext (de_services E)) (sv_log_codec (de_services E)) (rs @ new) (dn_server d)
      (dn_server (d\<lparr>dn_server := st\<rparr>)) (executed a)" using assms(3) [OF i(2)] by simp
  from log_accounts_request [OF i(3,1) k refl e i(2)] i(4) keeps_shape_trans [OF i(1) assms(2)]
  show ?thesis by (auto simp: log_invariant_def)
qed

context agent_registry
begin

text \<open>The effect of a request of either server, for invariants of the log.\<close>

lemma request_effect:
  assumes "daemon_step E t d = (a, d')" "loggable E t" "\<And>w. t \<noteq> Worker w"
    and "usable (ss_registry (dn_server d))"
    and "sv_ext (de_services E) = X" "sv_claims (de_services E) = J" "sv_registry (de_services E) = R"
    and "cps_ok X (sv_log_codec (de_services E))" "fal_synced X (sv_log_codec (de_services E)) rs (ss_action_log (dn_server d))"
  shows "d' = d\<lparr>dn_server := dn_server d'\<rparr> \<and> keeps_shape usable rkey (dn_server d) (dn_server d') \<and>
    log_effect X (sv_log_codec (de_services E)) rs (dn_server d) (dn_server d') (executed a)"
proof (cases t)
  case (Http mo rq)
  obtain resp st where r: "auth_middleware (de_axum E) (de_services E) mo rq (dn_server d) = (resp, st)" by fastforce
  have w: "header_str (rq_headers rq) agent_did_header = Some did \<Longrightarrow>
    ax_json_execute (de_axum E) (rq_headers rq) body = Inr req \<Longrightarrow>
    writable X (sv_log_codec (de_services E)) [execute_record mo did req out]" for did body req out
    using assms(2,5) Http by simp
  from middleware_effect [OF assms(4-7) refl assms(9,8) w r] assms(1) Http r show ?thesis by auto
next
  case (Grpc mo md call)
  obtain r st where r: "grpc_serve (de_grpc E) (de_services E) mo md call (dn_server d) = (r, st)" by fastforce
  from grpc_keeps_shape [OF assms(4-7) r] grpc_keeps_log [OF assms(4-7) assms(9) r] assms(1) Grpc r
  show ?thesis by (auto simp: executed_def)
qed (use assms(3) in simp)

lemma log_invariant_step:
  assumes "log_invariant usable rkey E rs d0 as d" "daemon_step E t d = (a, d')" "loggable E t"
    and "sv_ext (de_services E) = X" "sv_claims (de_services E) = J" "sv_registry (de_services E) = R"
    and "cps_ok X (sv_log_codec (de_services E))" "broadcast_ok capacity (de_recv E)"
  shows "log_invariant usable rkey E rs d0 (as @ [a]) d'"
proof -
  have u: "usable (ss_registry (dn_server d))" using assms(1) by (simp add: log_invariant_def keeps_shape_def)
  show ?thesis
  proof (cases "\<exists>w. t = Worker w")
    case True
    then obtain w where w: "t = Worker w" "a = No_answer" "d' = worker_turn E w d" using assms(2) by auto
    have "keeps_shape usable rkey (dn_server d0) (dn_server d')" unfolding w(3)
      using keeps_shape_trans worker_keeps_shape [of usable, OF u] assms(1) unfolding log_invariant_def by blast
    with log_accounts_worker [OF _ _ assms(8)] assms(1,3,4,7) w show ?thesis
      unfolding log_invariant_def by blast
  next
    case False
    then have nw: "\<And>w. t \<noteq> Worker w" by blast
    note eff = request_effect [OF assms(2,3) nw u assms(4-7)]
    obtain new where "fal_synced X (sv_log_codec (de_services E)) (rs @ new) (ss_action_log (dn_server d))"
      using assms(1) by (auto simp: log_invariant_def assms(4))
    from eff [OF this] have st: "d' = d\<lparr>dn_server := dn_server d'\<rparr>" "keeps_shape usable rkey (dn_server d) (dn_server d')"
      by blast+
    show ?thesis
      by (subst st(1), rule log_invariant_request [OF assms(1) st(2)]) (use eff assms(4) in blast)
  qed
qed

lemma log_invariant_run:
  assumes "daemon_run E ts d0 = (as, d)" "usable (ss_registry (dn_server d0))"
    and "fal_synced (sv_ext (de_services E)) (sv_log_codec (de_services E)) rs (ss_action_log (dn_server d0))"
    and "dn_worker d0 = Receiving (length (daemon_events d0))" "\<forall>t\<in>set ts. loggable E t"
    and "sv_ext (de_services E) = X" "sv_claims (de_services E) = J" "sv_registry (de_services E) = R"
    and "cps_ok X (sv_log_codec (de_services E))" "broadcast_ok capacity (de_recv E)"
  shows "log_invariant usable rkey E rs d0 as d"
proof (rule daemon_run_invariant [OF assms(1), where I = "log_invariant usable rkey E rs d0"])
  have "log_accounts E d0 [] d0 [] (length (daemon_events d0))"
    by (simp add: log_accounts_def shadow_json_def decisions_def map_filter_simps)
  then show "log_invariant usable rkey E rs d0 [] d0"
    using assms(2-4) unfolding log_invariant_def
    by (intro conjI exI [of _ "[]"] exI [of _ "length (daemon_events d0)"]) (simp_all add: keeps_shape_def subscribed_def)
qed (use log_invariant_step assms(5-10) in blast)

end

section \<open>Forged requests\<close>

text \<open>A task that carries a signature of an agent on record over its body.\<close>

fun genuine_task :: "(file_registry, 'k, 'p) daemon_env \<Rightarrow> file_registry \<Rightarrow> task \<Rightarrow> bool" where
  "genuine_task E reg (Http mo rq) \<longleftrightarrow> (\<exists>did sig64 sig body.
     header_str (rq_headers rq) agent_did_header = Some did \<and>
     header_str (rq_headers rq) signature_header = Some sig64 \<and>
     b64_decode (sv_ext (de_services E)) sig64 = Inr sig \<and> rq_body rq = Inr body \<and>
     genuine (sv_ext (de_services E)) reg did sig body)"
| "genuine_task E reg (Grpc mo md call) \<longleftrightarrow> (\<exists>did sig.
     extract_grpc_auth (sv_ext (de_services E)) md = Inr (did, sig) \<and>
     genuine (sv_ext (de_services E)) reg did sig (grpc_body (de_grpc E) call))"
| "genuine_task E reg (Worker w) \<longleftrightarrow> False"

definition refused :: "answer \<Rightarrow> bool" where
  "refused a = (case a of
       Http_answer resp \<Rightarrow> rs_status resp \<in> {BAD_REQUEST, UNAUTHORIZED}
     | Grpc_answer r \<Rightarrow> \<not> is_ok r
     | No_answer \<Rightarrow> True)"

text \<open>Nothing but the discovery manager and the log has changed.\<close>

definition only_discovery :: "('r, 'k, 'p) server_state \<Rightarrow> ('r, 'k, 'p) server_state \<Rightarrow> bool" where
  "only_discovery st st' \<longleftrightarrow> (\<exists>dm log. st' = st\<lparr>ss_discovery_manager := dm, ss_action_log := log\<rparr>)"

lemma only_discovery_refl [simp]: "only_discovery st st"
  by (cases st) (auto simp: only_discovery_def)

lemma forged_refused:
  assumes "sv_registry sv = file_registry_ops (sv_ext sv) (sv_claims sv) C" "fr_usable C (ss_registry st)"
    and "\<And>did sig. extract_grpc_auth (sv_ext sv) md = Inr (did, sig) \<Longrightarrow>
      \<not> genuine (sv_ext sv) (ss_registry st) did sig body"
  shows "\<exists>s. with_grpc_auth sv mo md body f st = (Inl s, st)"
proof (cases "extract_grpc_auth (sv_ext sv) md")
  case (Inr p)
  then obtain did sig where "extract_grpc_auth (sv_ext sv) md = Inr (did, sig)" by (cases p) simp
  with not_genuine_refused(1) [OF assms(1,2)] assms(3) show ?thesis by blast
qed (simp add: with_grpc_auth_def)

lemma forged_watch_refused:
  assumes "sv_registry sv = file_registry_ops (sv_ext sv) (sv_claims sv) C" "fr_usable C (ss_registry st)"
    and "\<And>did sig. extract_grpc_auth (sv_ext sv) md = Inr (did, sig) \<Longrightarrow>
      \<not> genuine (sv_ext sv) (ss_registry st) did sig (gx_enc_watch_shadows G since)"
  shows "\<exists>s. grpc_watch_shadows G sv mo live md since st = (Inl s, st)"
proof (cases "extract_grpc_auth (sv_ext sv) md")
  case (Inr p)
  then obtain did sig where md: "extract_grpc_auth (sv_ext sv) md = Inr (did, sig)" by (cases p) simp
  obtain s where v: "grpc_verify sv mo did sig (gx_enc_watch_shadows G since) st = (Inl s, st)"
    using not_genuine_refused(2) [OF assms(1,2) md assms(3) [OF md]] by blast
  have "reg_get_ring (sv_registry sv) (ss_registry st) did =
      (Inr (map_option snd (mr_entries (fr_memory (ss_registry st)) did)), ss_registry st)"
    unfolding assms(1) by (rule fr.get_ring [OF assms(2)])
  with v md show ?thesis
    by (cases "mr_entries (fr_memory (ss_registry st)) did") (simp_all add: grpc_watch_shadows_def)
qed (simp add: grpc_watch_shadows_def)

lemma forged_answer:
  assumes "sv_registry sv = file_registry_ops (sv_ext sv) (sv_claims sv) C" "fr_usable C (ss_registry st)"
    and "\<And>did sig. extract_grpc_auth (sv_ext sv) md = Inr (did, sig) \<Longrightarrow>
      \<not> genuine (sv_ext sv) (ss_registry st) did sig body"
  shows "\<exists>s. apfst (map_sum id g) (with_grpc_auth sv mo md body f st) = (Inl s, st)"
proof -
  have "\<exists>s. with_grpc_auth sv mo md body f st = (Inl s, st)" by (rule forged_refused [OF assms(1,2)]) (rule assms(3))
  then show ?thesis by auto
qed

lemma forged_grpc_refused:
  assumes "sv_registry sv = file_registry_ops (sv_ext sv) (sv_claims sv) C" "fr_usable C (ss_registry st)"
    and "\<And>did sig. extract_grpc_auth (sv_ext sv) md = Inr (did, sig) \<Longrightarrow>
      \<not> genuine (sv_ext sv) (ss_registry st) did sig (grpc_body G call)"
  shows "\<exists>s. grpc_serve G sv mo md call st = (Inl s, st)"
  using assms(3)
proof (cases call)
  case (Watch_shadows_call since live)
  then show ?thesis
    using forged_watch_refused [OF assms(1,2), of md G since mo live] assms(3) by (auto simp: apfst_eq_iff)
next
  case Watch_presence_call
  then show ?thesis by (simp add: apfst_eq_iff grpc_watch_presence_def)
qed (hypsubst, simp only: grpc_serve.simps grpc_body.simps grpc_defs, rule forged_answer [OF assms(1,2)], blast)+

lemma forged_http_refused:
  assumes "sv_registry sv = file_registry_ops (sv_ext sv) (sv_claims sv) C" "fr_usable C (ss_registry st)"
    and "\<And>did sig64 sig body. header_str (rq_headers rq) agent_did_header = Some did \<Longrightarrow>
      header_str (rq_headers rq) signature_header = Some sig64 \<Longrightarrow> b64_decode (sv_ext sv) sig64 = Inr sig \<Longrightarrow>
      rq_body rq = Inr body \<Longrightarrow> \<not> genuine (sv_ext sv) (ss_registry st) did sig body"
    and "auth_middleware ax sv mo rq st = (resp, st')"
  shows "rs_status resp \<in> {BAD_REQUEST, UNAUTHORIZED} \<and> executed (Http_answer resp) = None \<and>
    (\<exists>dm. st' = st\<lparr>ss_discovery_manager := dm\<rparr>)"
  using assms(4)
proof (cases rule: middleware_cases)
  case (refused e)
  obtain code msg where e: "e = (code, msg)" by (cases e)
  have "code \<in> {BAD_REQUEST, UNAUTHORIZED} \<and> (\<exists>dm. st' = st\<lparr>ss_discovery_manager := dm\<rparr>)"
    by (rule fr.authenticate_refused [where C = C, OF assms(2) refl refl assms(1) refused(1) [unfolded e]])
  moreover have "rs_status resp = code" using refused(2) e by (simp add: into_response_def)
  moreover have "executed (Http_answer resp) = None" using refused(2) by (simp add: executed_response)
  ultimately show ?thesis by metis
next
  case (handled body st1 r)
  obtain did sig64 sig pk ring where "rq_body rq = Inr body"
    "header_str (rq_headers rq) agent_did_header = Some did"
    "header_str (rq_headers rq) signature_header = Some sig64" "b64_decode (sv_ext sv) sig64 = Inr sig"
    "mr_entries (fr_memory (ss_registry st)) did = Some (pk, ring)"
    "verify_signature (sv_ext sv) (identity_stub pk) body sig"
    by (rule fr.authenticateE [where C = C, OF assms(2) refl refl assms(1) handled(1)])
  with assms(3) [of did sig64 sig body] have False by (auto simp: genuine_def)
  then show ?thesis ..
qed

definition forged_invariant :: "('r, 'k, 'p) daemon \<Rightarrow> answer list \<Rightarrow> ('r, 'k, 'p) daemon \<Rightarrow> bool" where
  "forged_invariant d0 as d \<longleftrightarrow> (\<forall>a\<in>set as. refused a \<and> executed a = None) \<and>
     only_discovery (dn_server d0) (dn_server d)"

lemma only_discovery_dm:
  assumes "only_discovery st st'"
  shows "only_discovery st (st'\<lparr>ss_discovery_manager := m\<rparr>)" "only_discovery st (st'\<lparr>ss_action_log := l\<rparr>)"
proof -
  obtain m0 l0 where "st' = st\<lparr>ss_discovery_manager := m0, ss_action_log := l0\<rparr>"
    using assms by (auto simp: only_discovery_def)
  then have "st'\<lparr>ss_discovery_manager := m\<rparr> = st\<lparr>ss_discovery_manager := m, ss_action_log := l0\<rparr>"
    "st'\<lparr>ss_action_log := l\<rparr> = st\<lparr>ss_discovery_manager := m0, ss_action_log := l\<rparr>"
    by (cases st, simp)+
  then show "only_discovery st (st'\<lparr>ss_discovery_manager := m\<rparr>)" "only_discovery st (st'\<lparr>ss_action_log := l\<rparr>)"
    unfolding only_discovery_def by blast+
qed

lemma forged_invariant_step:
  assumes "sv_registry (de_services E) = file_registry_ops (sv_ext (de_services E)) (sv_claims (de_services E)) C"
    and "fr_usable C (ss_registry (dn_server d0))" "\<not> genuine_task E (ss_registry (dn_server d0)) t"
    and "forged_invariant d0 as d" "daemon_step E t d = (a, d')"
  shows "forged_invariant d0 (as @ [a]) d'"
proof -
  have reg: "ss_registry (dn_server d) = ss_registry (dn_server d0)" "only_discovery (dn_server d0) (dn_server d)"
    using assms(4) by (auto simp: forged_invariant_def only_discovery_def)
  have u: "fr_usable C (ss_registry (dn_server d))" using assms(2) reg by simp
  have "refused a \<and> executed a = None \<and> only_discovery (dn_server d0) (dn_server d')"
  proof (cases t)
    case (Http mo rq)
    obtain resp st where r: "auth_middleware (de_axum E) (de_services E) mo rq (dn_server d) = (resp, st)" by fastforce
    have "rs_status resp \<in> {BAD_REQUEST, UNAUTHORIZED} \<and> executed (Http_answer resp) = None \<and>
        (\<exists>dm. st = (dn_server d)\<lparr>ss_discovery_manager := dm\<rparr>)"
      by (rule forged_http_refused [OF assms(1) u _ r]) (use assms(3) Http reg(1) in auto)
    with assms(5) Http r reg(2) show ?thesis by (auto simp: refused_def only_discovery_dm)
  next
    case (Grpc mo md call)
    obtain s where "grpc_serve (de_grpc E) (de_services E) mo md call (dn_server d) = (Inl s, dn_server d)"
      using forged_grpc_refused [OF assms(1) u, of md "de_grpc E" call mo] assms(3) Grpc reg(1) by auto
    with assms(5) Grpc reg(2) show ?thesis by (auto simp: refused_def executed_def)
  next
    case (Worker w)
    with assms(5) reg(2) show ?thesis
      by (auto simp: refused_def executed_def worker_turn_def only_discovery_dm
          split: worker.splits option.splits sum.splits discovery_event.splits)
  qed
  with assms(4) show ?thesis by (auto simp: forged_invariant_def)
qed

lemma decisions_empty: "decisions rs = [] \<longleftrightarrow> (\<forall>r\<in>set rs. alert_json r \<noteq> None)"
  by (simp add: decisions_def filter_empty_conv)

section \<open>A worker that has stopped\<close>

text \<open>The log only gets decisions once the worker has stopped.\<close>

definition silent_invariant ::
  "('r \<Rightarrow> bool) \<Rightarrow> ('r, 'k, 'p) daemon_env \<Rightarrow> action_log_record list \<Rightarrow> ('r, 'k, 'p) daemon \<Rightarrow> bool" where
  "silent_invariant U E rs d \<longleftrightarrow> U (ss_registry (dn_server d)) \<and> dn_worker d = Stopped \<and>
     (\<exists>new. fal_synced (sv_ext (de_services E)) (sv_log_codec (de_services E)) (rs @ new) (ss_action_log (dn_server d)) \<and>
        (\<forall>r\<in>set new. alert_json r = None))"

lemma silent_invariant_request:
  assumes "silent_invariant U E rs d" "keeps_shape U K (dn_server d) st"
    and "\<And>new. fal_synced (sv_ext (de_services E)) (sv_log_codec (de_services E)) (rs @ new) (ss_action_log (dn_server d)) \<Longrightarrow>
      log_effect (sv_ext (de_services E)) (sv_log_codec (de_services E)) (rs @ new) (dn_server d) st x"
  shows "silent_invariant U E rs (d\<lparr>dn_server := st\<rparr>)"
proof -
  let ?X = "sv_ext (de_services E)" and ?L = "sv_log_codec (de_services E)"
  obtain new where new: "fal_synced ?X ?L (rs @ new) (ss_action_log (dn_server d))" "\<forall>r\<in>set new. alert_json r = None"
    using assms(1) by (auto simp: silent_invariant_def)
  have "\<exists>new'. fal_synced ?X ?L (rs @ new') (ss_action_log st) \<and> (\<forall>r\<in>set new'. alert_json r = None)"
  proof (cases x)
    case None
    with assms(3) [OF new(1)] new show ?thesis by auto
  next
    case (Some ok)
    then obtain rec where "fal_synced ?X ?L ((rs @ new) @ [rec\<lparr>al_prev_hash := chain_end ?X ?L genesis (rs @ new)\<rparr>])
        (ss_action_log st)" "alert_json rec = None"
      using assms(3) [OF new(1)] unfolding log_effect_def by auto
    with new(2) show ?thesis
      by (intro exI [of _ "new @ [rec\<lparr>al_prev_hash := chain_end ?X ?L genesis (rs @ new)\<rparr>]"]) simp
  qed
  with assms(1,2) show ?thesis by (simp add: silent_invariant_def keeps_shape_def)
qed

context agent_registry
begin

lemma silent_invariant_step:
  assumes "silent_invariant usable E rs d" "daemon_step E t d = (a, d')" "loggable E t"
    and "sv_ext (de_services E) = X" "sv_claims (de_services E) = J" "sv_registry (de_services E) = R"
    and "cps_ok X (sv_log_codec (de_services E))"
  shows "silent_invariant usable E rs d'"
proof (cases "\<exists>w. t = Worker w")
  case True
  then show ?thesis using assms(1,2) by (auto simp: silent_invariant_def worker_turn_def)
next
  case False
  then have nw: "\<And>w. t \<noteq> Worker w" by blast
  have u: "usable (ss_registry (dn_server d))" using assms(1) by (simp add: silent_invariant_def)
  note eff = request_effect [OF assms(2,3) nw u assms(4-7)]
  obtain new where "fal_synced X (sv_log_codec (de_services E)) (rs @ new) (ss_action_log (dn_server d))"
    using assms(1,4) by (auto simp: silent_invariant_def)
  from eff [OF this] have st: "d' = d\<lparr>dn_server := dn_server d'\<rparr>" "keeps_shape usable rkey (dn_server d) (dn_server d')"
    by blast+
  show ?thesis
    by (subst st(1), rule silent_invariant_request [OF assms(1) st(2)]) (use eff assms(4) in blast)
qed

end

section \<open>A flood of unknown senders\<close>

text \<open>A request over HTTP in the name of an agent that is not on record; the signature is any text.\<close>

fun unknown_sender :: "('r, 'k, 'p) daemon_env \<Rightarrow> file_registry \<Rightarrow> string \<Rightarrow> task \<Rightarrow> bool" where
  "unknown_sender E reg did (Http mo rq) \<longleftrightarrow> header_str (rq_headers rq) agent_did_header = Some did \<and>
     is_ok (parse_did did) \<and> mr_entries (fr_memory reg) did = None \<and> is_ok (rq_body rq) \<and>
     (\<exists>sig64. header_str (rq_headers rq) signature_header = Some sig64 \<and>
        is_ok (b64_decode (sv_ext (de_services E)) sig64))"
| "unknown_sender E reg did (Grpc mo md call) \<longleftrightarrow> False"
| "unknown_sender E reg did (Worker w) \<longleftrightarrow> False"

lemma is_ok_iff: "is_ok r \<longleftrightarrow> (\<exists>v. r = Inr v)"
  by (cases r) simp_all

lemma report_presence_new:
  assumes "dm_agents m (did_display did) = None"
  shows "\<exists>a. dm_events (report_presence t did name address source m) = dm_events m @ [Shadow a]"
    and "dom (dm_agents (report_presence t did name address source m)) = insert (did_display did) (dom (dm_agents m))"
  using assms by (cases t; auto simp: report_presence_def Let_def)+

lemma unknown_sender_step:
  assumes "sv_registry (de_services E) = file_registry_ops (sv_ext (de_services E)) (sv_claims (de_services E)) C"
    and "fr_usable C (ss_registry (dn_server d))"
    and "unknown_sender E (ss_registry (dn_server d)) did t" "daemon_step E t d = (a, d')"
    and "did \<notin> dom (dm_agents (ss_discovery_manager (dn_server d)))"
  shows "\<exists>dm. d' = d\<lparr>dn_server := (dn_server d)\<lparr>ss_discovery_manager := dm\<rparr>\<rparr> \<and>
    length (dm_events dm) = Suc (length (daemon_events d)) \<and>
    dom (dm_agents dm) = insert did (dom (dm_agents (ss_discovery_manager (dn_server d))))"
proof (cases t)
  case (Http mo rq)
  then obtain sig64 sig body i where h: "header_str (rq_headers rq) agent_did_header = Some did"
      "header_str (rq_headers rq) signature_header = Some sig64" "parse_did did = Inr i" "rq_body rq = Inr body"
      "b64_decode (sv_ext (de_services E)) sig64 = Inr sig" "mr_entries (fr_memory (ss_registry (dn_server d))) did = None"
    using assms(3) by (auto simp: is_ok_iff)
  have "reg_get_attestation (sv_registry (de_services E)) (fst (mo_auth mo)) (ss_registry (dn_server d)) did =
      (Inr None, ss_registry (dn_server d))"
    unfolding assms(1) using fr.get_attestation [OF assms(2)] h(6) by simp
  then have "verify_request_signature (sv_ext (de_services E)) (sv_claims (de_services E)) (sv_registry (de_services E))
      (mo_auth mo) did sig body (ss_registry_pubkey (dn_server d)) (ss_registry (dn_server d)) =
      (Inl agent_not_registered, ss_registry (dn_server d))"
    by (simp add: verify_request_signature_def)
  then have d': "d' = d\<lparr>dn_server := (dn_server d)\<lparr>ss_discovery_manager :=
      report_presence (mo_seen mo) i ''unknown'' (rq_peer rq) Passive (ss_discovery_manager (dn_server d))\<rparr>\<rparr>"
    using assms(4) Http h by (auto simp: auth_middleware_def authenticate_def Let_def)
  have i: "did_display i = did" using h(3) by (simp add: parse_did_iff)
  with assms(5) have n: "dm_agents (ss_discovery_manager (dn_server d)) (did_display i) = None" by (simp add: dom_def)
  note new = report_presence_new [OF n, of "mo_seen mo" "''unknown''" "rq_peer rq" Passive]
  show ?thesis
    by (rule exI [of _ "report_presence (mo_seen mo) i ''unknown'' (rq_peer rq) Passive
        (ss_discovery_manager (dn_server d))"]) (use new d' i in auto)
qed (use assms(3) in simp_all)

lemma unknown_senders_run:
  assumes "sv_registry (de_services E) = file_registry_ops (sv_ext (de_services E)) (sv_claims (de_services E)) C"
    and "fr_usable C (ss_registry (dn_server d))"
    and "list_all2 (unknown_sender E (ss_registry (dn_server d))) dids flood" "distinct dids"
    and "set dids \<inter> dom (dm_agents (ss_discovery_manager (dn_server d))) = {}"
    and "daemon_run E flood d = (as, d')"
  shows "\<exists>dm. d' = d\<lparr>dn_server := (dn_server d)\<lparr>ss_discovery_manager := dm\<rparr>\<rparr> \<and>
    length (dm_events dm) = length (daemon_events d) + length flood"
  using assms(2-6)
proof (induction flood arbitrary: dids d as)
  case Nil
  then show ?case by (cases d; cases "dn_server d") auto
next
  case (Cons t flood)
  then obtain did dids' where dids: "dids = did # dids'" "unknown_sender E (ss_registry (dn_server d)) did t"
      "list_all2 (unknown_sender E (ss_registry (dn_server d))) dids' flood" by (auto simp: list_all2_Cons2)
  obtain a d1 as1 where s: "daemon_step E t d = (a, d1)" "daemon_run E flood d1 = (as1, d')"
    using Cons.prems(5) by (auto split: prod.splits)
  have "did \<notin> dom (dm_agents (ss_discovery_manager (dn_server d)))" using Cons.prems(4) dids(1) by auto
  from unknown_sender_step [OF assms(1) Cons.prems(1) dids(2) s(1) this] obtain dm where
    dm: "d1 = d\<lparr>dn_server := (dn_server d)\<lparr>ss_discovery_manager := dm\<rparr>\<rparr>"
      "length (dm_events dm) = Suc (length (daemon_events d))"
      "dom (dm_agents dm) = insert did (dom (dm_agents (ss_discovery_manager (dn_server d))))" by blast
  have "\<exists>dm'. d' = d1\<lparr>dn_server := (dn_server d1)\<lparr>ss_discovery_manager := dm'\<rparr>\<rparr> \<and>
      length (dm_events dm') = length (daemon_events d1) + length flood"
    by (rule Cons.IH [OF _ _ _ _ s(2), of dids']) (use Cons.prems dids dm in auto)
  with dm show ?case by auto
qed

section \<open>Turns of the worker\<close>

text \<open>The worker alone, no more than the capacity behind, takes every event there is.\<close>

lemma worker_turns:
  assumes "broadcast_ok capacity (de_recv E)" "dn_worker d = Receiving pos" "pos \<le> length (daemon_events d)"
    and "length (daemon_events d) - pos \<le> capacity" "length ws = length (daemon_events d) - pos"
    and "daemon_run E (map Worker ws) d = (as, d')"
  shows "dn_worker d' = Receiving (length (daemon_events d)) \<and> daemon_events d' = daemon_events d"
  using assms(2-6)
proof (induction ws arbitrary: d pos as)
  case (Cons w ws)
  then have pos: "pos < length (daemon_events d)" by simp
  have "de_recv E pos (daemon_events d) = Some (Inr (daemon_events d ! pos))"
    using assms(1) pos Cons.prems(3) unfolding broadcast_ok_def by (metis less_imp_le less_irrefl_nat)
  then have t: "dn_worker (worker_turn E w d) = Receiving (Suc pos)" "daemon_events (worker_turn E w d) = daemon_events d"
    using Cons.prems(1) by (cases "daemon_events d ! pos"; simp add: worker_turn_def)+
  obtain as1 where r: "daemon_run E (map Worker ws) (worker_turn E w d) = (as1, d')"
    using Cons.prems(5) by (auto split: prod.splits)
  have "dn_worker d' = Receiving (length (daemon_events (worker_turn E w d))) \<and>
      daemon_events d' = daemon_events (worker_turn E w d)"
    by (rule Cons.IH [OF t(1) _ _ _ r]) (use Cons.prems pos t(2) in auto)
  with t(2) show ?case by simp
qed simp

section \<open>Properties\<close>

text \<open>
  A daemon with a registry in a file that works, a log in good order that holds \<open>rs\<close>, and a
  channel of the given capacity.
\<close>

definition daemon_ready ::
  "registry_codec \<Rightarrow> nat \<Rightarrow> (file_registry, 'k, 'p) daemon_env \<Rightarrow> action_log_record list \<Rightarrow>
     (file_registry, 'k, 'p) daemon \<Rightarrow> bool" where
  "daemon_ready C capacity E rs d \<longleftrightarrow>
     sv_registry (de_services E) = file_registry_ops (sv_ext (de_services E)) (sv_claims (de_services E)) C \<and>
     fr_usable C (ss_registry (dn_server d)) \<and>
     fal_synced (sv_ext (de_services E)) (sv_log_codec (de_services E)) rs (ss_action_log (dn_server d)) \<and>
     cps_ok (sv_ext (de_services E)) (sv_log_codec (de_services E)) \<and> broadcast_ok capacity (de_recv E)"

lemma daemon_readyD:
  assumes "daemon_ready C capacity E rs d"
  shows "sv_registry (de_services E) = file_registry_ops (sv_ext (de_services E)) (sv_claims (de_services E)) C"
    and "fr_usable C (ss_registry (dn_server d))"
    and "fal_synced (sv_ext (de_services E)) (sv_log_codec (de_services E)) rs (ss_action_log (dn_server d))"
    and "cps_ok (sv_ext (de_services E)) (sv_log_codec (de_services E))" and "broadcast_ok capacity (de_recv E)"
  using assms by (simp_all add: daemon_ready_def)

lemma ready_log_invariant:
  assumes "daemon_ready C capacity E rs d" "dn_worker d = Receiving (length (daemon_events d))"
    and "\<forall>t\<in>set ts. loggable E t" "daemon_run E ts d = (as, d')"
  shows "log_invariant (fr_usable C) (\<lambda>s. mr_identity (fr_memory s)) E rs d as d'"
  using fr.log_invariant_run [OF assms(4) daemon_readyD(2,3) [OF assms(1)] assms(2,3) refl refl
      daemon_readyD(1,4,5) [OF assms(1)]] .

text \<open>
  C1: in every run of the daemon, of requests over HTTP, gRPC calls and turns of the worker in any
  order, the log stays one intact chain that accounts for everything: its new records are one
  per shadow event the worker received, in their order, and one per action that was answered as
  executed, in the order of the answers, permitted exactly when the answer says so; the
  exporter, if there is one, was handed exactly the latter.
\<close>

theorem daemon_run_accounted:
  assumes "daemon_ready C capacity E rs d" and "dn_worker d = Receiving (length (daemon_events d))"
    and "\<forall>t\<in>set ts. loggable E t" and "daemon_run E ts d = (as, d')"
  shows "\<exists>new pos. fal_synced (sv_ext (de_services E)) (sv_log_codec (de_services E)) (rs @ new)
      (ss_action_log (dn_server d')) \<and>
    (dn_worker d' = Receiving pos \<or> dn_worker d' = Stopped) \<and>
    length (daemon_events d) \<le> pos \<and> pos \<le> length (daemon_events d') \<and>
    List.map_filter alert_json new =
      map (\<lambda>a. de_event_json E (Shadow a)) (shadows_in (drop (length (daemon_events d)) (take pos (daemon_events d')))) \<and>
    List.map_filter executed as =
      map (\<lambda>r. al_outcome r = Permitted) (filter (\<lambda>r. alert_json r = None) new) \<and>
    (ss_siem_exporter (dn_server d) \<longrightarrow> ss_exported (dn_server d') = ss_exported (dn_server d) @
      map (\<lambda>r. r\<lparr>al_prev_hash := []\<rparr>) (filter (\<lambda>r. alert_json r = None) new))"
  using ready_log_invariant [OF assms]
  unfolding log_invariant_def log_accounts_def shadow_json_def decisions_def subscribed_def by blast

text \<open>
  C2: forgers gain nothing: a run in which no request carries a signature of an agent on record
  over its body, however long and over whichever interface, answers nothing but errors and
  leaves registrations, keys, policies and escalations as they were; the log stays intact and
  gets nothing but the worker's alerts.
\<close>

theorem forgers_gain_nothing:
  assumes "daemon_ready C capacity E rs d" and "dn_worker d = Receiving (length (daemon_events d))"
    and "\<forall>t\<in>set ts. loggable E t" and "\<forall>t\<in>set ts. \<not> genuine_task E (ss_registry (dn_server d)) t"
    and "daemon_run E ts d = (as, d')"
  shows "(\<forall>a\<in>set as. refused a) \<and>
    (\<exists>dm log. dn_server d' = (dn_server d)\<lparr>ss_discovery_manager := dm, ss_action_log := log\<rparr>) \<and>
    (\<exists>new. fal_synced (sv_ext (de_services E)) (sv_log_codec (de_services E)) (rs @ new) (ss_action_log (dn_server d')) \<and>
       (\<forall>r\<in>set new. alert_json r \<noteq> None))"
proof -
  have f: "forged_invariant d as d'"
  proof (rule daemon_run_invariant [OF assms(5), where I = "forged_invariant d"])
    show "forged_invariant d [] d" by (simp add: forged_invariant_def)
    show "forged_invariant d (as @ [a]) d2"
      if "t \<in> set ts" "forged_invariant d as d1" "daemon_step E t d1 = (a, d2)" for t as d1 a d2
      by (rule forged_invariant_step [OF daemon_readyD(1,2) [OF assms(1)] bspec [OF assms(4) that(1)] that(2,3)])
  qed
  obtain new where new: "fal_synced (sv_ext (de_services E)) (sv_log_codec (de_services E)) (rs @ new)
      (ss_action_log (dn_server d'))"
    "List.map_filter executed as = map (\<lambda>r. al_outcome r = Permitted) (decisions new)"
    using ready_log_invariant [OF assms(1-3,5)] unfolding log_invariant_def log_accounts_def by blast
  have "List.map_filter executed as = []"
    using f by (auto simp: forged_invariant_def List.map_filter_def filter_empty_conv)
  then have "decisions new = []" using new(2) by simp
  then have "\<forall>r\<in>set new. alert_json r \<noteq> None" by (simp only: decisions_empty)
  with f new(1) show ?thesis unfolding forged_invariant_def only_discovery_def by blast
qed

text \<open>
  C11: once the worker has subscribed, is not more than the capacity behind and gets its turns, the
  log holds one record for each Shadow event sent since then, in the order they were sent, and no
  other record of a shadow agent. An agent can be the subject of two such events, one when it is
  first seen passively and one when it reports itself without being registered, and is then
  logged twice.
\<close>

theorem worker_catches_up:
  assumes "daemon_ready C capacity E rs d" and "dn_worker d = Receiving (length (daemon_events d))"
    and "\<forall>t\<in>set ts. loggable E t" and "\<forall>w\<in>set ws. loggable E (Worker w)"
    and "daemon_run E ts d = (as, d1)" and "dn_worker d1 = Receiving pos"
    and "length (daemon_events d1) - pos \<le> capacity" and "length ws = length (daemon_events d1) - pos"
    and "daemon_run E (map Worker ws) d1 = (bs, d')"
  shows "\<exists>new. fal_synced (sv_ext (de_services E)) (sv_log_codec (de_services E)) (rs @ new)
      (ss_action_log (dn_server d')) \<and>
    List.map_filter alert_json new =
      map (\<lambda>a. de_event_json E (Shadow a)) (shadows_in (drop (length (daemon_events d)) (daemon_events d'))) \<and>
    daemon_events d' = daemon_events d1"
proof -
  have run: "daemon_run E (ts @ map Worker ws) d = (as @ bs, d')"
    using assms(5,9) by (simp add: daemon_run_append)
  have log: "\<forall>t\<in>set (ts @ map Worker ws). loggable E t" using assms(3,4) by auto
  have "pos \<le> length (daemon_events d1)"
    using ready_log_invariant [OF assms(1-3,5)] assms(6) by (auto simp: log_invariant_def log_accounts_def subscribed_def)
  from worker_turns [OF daemon_readyD(5) [OF assms(1)] assms(6) this assms(7,8,9)]
  have w: "dn_worker d' = Receiving (length (daemon_events d'))" "daemon_events d' = daemon_events d1" by simp_all
  from ready_log_invariant [OF assms(1,2) log run] w show ?thesis
    by (auto simp: log_invariant_def log_accounts_def subscribed_def shadow_json_def)
qed

text \<open>
  C10: anyone can silence the worker: when more requests than the channel's capacity arrive, in the
  names of agents nobody knows and with any signature, before the worker gets a turn, it stops
  for good, and whatever the daemon serves afterwards, the log never tells of a shadow agent
  again.
\<close>

theorem anyone_silences_worker:
  assumes "daemon_ready C capacity E rs d" and "dn_worker d = Receiving pos" and "pos \<le> length (daemon_events d)"
    and "list_all2 (unknown_sender E (ss_registry (dn_server d))) dids flood" and "distinct dids"
    and "set dids \<inter> dom (dm_agents (ss_discovery_manager (dn_server d))) = {}" and "capacity < length flood"
    and "\<forall>t\<in>set later. loggable E t"
    and "daemon_run E (flood @ Worker w # later) d = (as, d')"
  shows "dn_worker d' = Stopped \<and>
    (\<exists>new. fal_synced (sv_ext (de_services E)) (sv_log_codec (de_services E)) (rs @ new) (ss_action_log (dn_server d')) \<and>
       (\<forall>r\<in>set new. alert_json r = None))"
proof -
  note ready = daemon_readyD [OF assms(1)]
  obtain as1 d1 where 1: "daemon_run E flood d = (as1, d1)" by fastforce
  from unknown_senders_run [OF ready(1,2) assms(4-6) 1] obtain dm where
    dm: "d1 = d\<lparr>dn_server := (dn_server d)\<lparr>ss_discovery_manager := dm\<rparr>\<rparr>"
      "length (dm_events dm) = length (daemon_events d) + length flood" by blast
  have "\<exists>k. de_recv E pos (dm_events dm) = Some (Inl (Lagged k))"
  proof -
    have "pos \<le> length (dm_events dm)" "pos \<noteq> length (dm_events dm)" "\<not> length (dm_events dm) - pos \<le> capacity"
      using dm(2) assms(3,7) by auto
    then show ?thesis using ready(5) unfolding broadcast_ok_def by meson
  qed
  then have 2: "worker_turn E w d1 = d1\<lparr>dn_worker := Stopped\<rparr>" using dm(1) assms(2) by (auto simp: worker_turn_def)
  obtain as2 where 3: "daemon_run E later (d1\<lparr>dn_worker := Stopped\<rparr>) = (as2, d')"
    using assms(9) 1 2 by (auto simp: daemon_run_append split: prod.splits)
  have "silent_invariant (fr_usable C) E rs (d1\<lparr>dn_worker := Stopped\<rparr>)"
    using ready(2,3) dm(1) by (auto simp: silent_invariant_def intro: exI [of _ "[]"])
  then have "silent_invariant (fr_usable C) E rs d'"
    by (rule daemon_run_invariant [OF 3, where I = "\<lambda>_. silent_invariant (fr_usable C) E rs"])
      (use fr.silent_invariant_step [OF _ _ _ refl refl ready(1,4)] assms(8) in blast)
  then show ?thesis by (auto simp: silent_invariant_def)
qed

end
