(* ===== verification/Daemon_Escalations.thy ===== *)
theory Daemon_Escalations
  imports Daemon_System "HOL-Library.Sublist"
begin

text \<open>
  What the daemon does with escalations, whichever interface a request comes in by: every run of
  the daemon is a run of the escalation manager, and what each interface gets done.
\<close>

section \<open>The manager in a run of the daemon\<close>

lemma with_grpc_auth_state:
  assumes "with_grpc_auth sv mo md body f st = (r, st')"
  obtains (refused) s reg where "r = Inl s" "st' = st\<lparr>ss_registry := reg\<rparr>"
  | (passed) did reg where "f did (st\<lparr>ss_registry := reg\<rparr>) = (r, st')"
proof -
  have self: "st\<lparr>ss_registry := ss_registry st\<rparr> = st" by simp
  show thesis
  proof (cases "extract_grpc_auth (sv_ext sv) md")
    case (Inl s)
    with assms self refused [of s "ss_registry st"] show thesis by (simp add: with_grpc_auth_def)
  next
    case (Inr p)
    with assms refused passed show thesis
      by (auto simp: with_grpc_auth_def grpc_verify_def split: prod.splits sum.splits)
  qed
qed

text \<open>The request a task makes, under its identifier, and the event a task is answered with.\<close>

fun request_id :: "task \<Rightarrow> uuid option" where
  "request_id (Grpc mo md (Request_escalation_call m)) = Some (mo_uuid mo)"
| "request_id t = None"

definition event_answer :: "answer \<Rightarrow> proto_escalation_event option" where
  "event_answer a = (case a of Grpc_answer (Inr (Event_answer e)) \<Rightarrow> Some e | _ \<Rightarrow> None)"

abbreviation manager :: "('r, 'k, 'p) server_state \<Rightarrow> escalation_manager" where
  "manager \<equiv> ss_escalation_manager"

abbreviation run_of :: "('r, 'k, 'p) services \<Rightarrow> (uuid \<times> escalation_request) list \<Rightarrow> escalation_event list \<Rightarrow>
    escalation_manager \<Rightarrow> bool" where
  "run_of sv \<equiv> em_run (sv_ext sv) (sv_claims sv) (sv_event_json sv)"

definition events_of :: "escalation_event res \<Rightarrow> escalation_event list" where
  "events_of q = (case q of Inl _ \<Rightarrow> [] | Inr ev \<Rightarrow> [ev])"

lemma run_of_decision:
  assumes "run_of sv reqs evs m"
  shows "em_approve (sv_ext sv) (sv_claims sv) (sv_event_json sv) t i a sig gr ga m = (q, m') \<Longrightarrow>
      run_of sv reqs (evs @ events_of q) m'"
    and "em_deny (sv_event_json sv) now i a cause m = (q, m') \<Longrightarrow> run_of sv reqs (evs @ events_of q) m'"
  using em_run.intros(3-6) [OF assms] by (cases q; simp add: events_of_def)+

lemma authenticate_manager:
  assumes "authenticate sv mo rq st = (r, st')"
  shows "manager st' = manager st"
  using assms by (auto simp: authenticate_def Let_def split: option.splits sum.splits prod.splits if_splits)

lemma endpoint_manager:
  assumes "call_endpoint ax sv mo h peer body caps ep st = (r, st')" "run_of sv reqs evs (manager st)"
  shows "\<exists>evs'. run_of sv reqs (evs @ evs') (manager st')"
proof (cases ep)
  case Approve_escalation
  show ?thesis
  proof (cases "manager st' = manager st")
    case True
    with assms(2) show ?thesis by (metis append_Nil2)
  next
    case False
    with assms(1) Approve_escalation obtain i a sig gr ga q where
      "em_approve (sv_ext sv) (sv_claims sv) (sv_event_json sv) (mo_approve mo) i a sig gr ga (manager st) = (q, manager st')"
      by (auto simp: with_arg_def approve_escalation_handler_def split: sum.splits prod.splits)
    from run_of_decision(1) [OF assms(2) this] show ?thesis by blast
  qed
next
  case Execute_action
  have "manager st' = manager st" using assms(1) Execute_action
    by (auto simp: with_arg_def execute_action_handler_def Let_def split: sum.splits prod.splits option.splits)
  with assms(2) show ?thesis by (metis append_Nil2)
qed (rule exI [of _ "[]"], use assms in \<open>auto simp: with_arg_def handler_defs split: sum.splits prod.splits option.splits if_splits\<close>)+

lemma middleware_manager:
  assumes "auth_middleware ax sv mo rq st = (resp, st')" "run_of sv reqs evs (manager st)"
  shows "\<exists>evs'. run_of sv reqs (evs @ evs') (manager st')"
  using assms(1)
proof (cases rule: middleware_cases)
  case (refused e)
  then have "manager st' = manager st" by (auto dest: authenticate_manager)
  with assms(2) show ?thesis by (metis append_Nil2)
next
  case (handled body st1 r)
  have run: "run_of sv reqs evs (manager st1)" using assms(2) authenticate_manager [OF handled(1)] by simp
  from handled(2) show ?thesis
  proof (cases rule: dispatch_cases)
    case (no_route code)
    with run show ?thesis by (metis append_Nil2)
  next
    case (endpoint ep caps)
    show ?thesis by (rule endpoint_manager [OF endpoint run])
  qed
qed

text \<open>What a gRPC call does to the manager.\<close>

definition manager_effect ::
  "('r, 'k, 'p) services \<Rightarrow> (uuid \<times> escalation_request) list \<Rightarrow> escalation_event list \<Rightarrow> uuid option \<Rightarrow>
     answer \<Rightarrow> escalation_manager \<Rightarrow> bool" where
  "manager_effect sv reqs evs i a m \<longleftrightarrow>
     (\<exists>new evs'. run_of sv (reqs @ new) (evs @ evs') m \<and> fst ` set new \<subseteq> set_option i \<and>
        subseq (case event_answer a of None \<Rightarrow> [] | Some e \<Rightarrow> [e]) (map (to_proto_escalation_event (sv_ext sv)) evs'))"

lemma manager_effectI:
  assumes "run_of sv reqs (evs @ evs') m" "event_answer a = None"
  shows "manager_effect sv reqs evs i a m"
  unfolding manager_effect_def by (rule exI [of _ "[]"], rule exI [of _ evs']) (use assms in simp)

lemma manager_effect_same:
  assumes "run_of sv reqs evs m" "event_answer a = None"
  shows "manager_effect sv reqs evs i a m"
  by (rule manager_effectI [where evs' = "[]"]) (use assms in simp_all)

lemma manager_effect_event:
  assumes "run_of sv reqs (evs @ [ev]) m" "event_answer a = Some (to_proto_escalation_event (sv_ext sv) ev)"
  shows "manager_effect sv reqs evs i a m"
  unfolding manager_effect_def by (rule exI [of _ "[]"], rule exI [of _ "[ev]"]) (use assms in simp)

lemma manager_effect_decision:
  assumes "run_of sv reqs (evs @ events_of q) m"
    and "event_answer a = (case q of Inl _ \<Rightarrow> None | Inr ev \<Rightarrow> Some (to_proto_escalation_event (sv_ext sv) ev))"
  shows "manager_effect sv reqs evs i a m"
  unfolding manager_effect_def
  by (rule exI [of _ "[]"], rule exI [of _ "events_of q"]) (use assms in \<open>simp add: events_of_def split: sum.splits\<close>)

lemma event_answer_simps [simp]:
  "event_answer (Grpc_answer (Inl s)) = None" "event_answer (Grpc_answer (Inr (Pending_answer l))) = None"
  "event_answer (Grpc_answer (Inr (Event_answer e))) = Some e"
  "event_answer (Http_answer resp) = None" "event_answer No_answer = None"
  by (simp_all add: event_answer_def)

lemma no_event_answer [simp]:
  "event_answer (Grpc_answer (map_sum id Success r1)) = None"
  "event_answer (Grpc_answer (map_sum id Attestation_answer r2)) = None"
  "event_answer (Grpc_answer (map_sum id No_stream r3)) = None"
  "event_answer (Grpc_answer (map_sum id Alert_stream r4)) = None"
  "event_answer (Grpc_answer (map_sum id Request_id r5)) = None"
  "event_answer (Grpc_answer (map_sum id Pending_answer r6)) = None"
  "event_answer (Grpc_answer (map_sum id Policy_answer r7)) = None"
  by (cases r1; cases r2; cases r3; cases r4; cases r5; cases r6; cases r7; simp add: event_answer_def)+

lemma grpc_manager_kept:
  assumes "grpc_serve G sv mo md call st = (r, st')"
    and "\<forall>m. call \<noteq> Request_escalation_call m" "\<forall>m. call \<noteq> Approve_call m" "\<forall>m. call \<noteq> Deny_call m"
  shows "manager st' = manager st \<and> event_answer (Grpc_answer r) = None"
proof (cases call)
  case (Watch_shadows_call since live)
  with assms(1) show ?thesis
    by (auto simp: apfst_eq_iff grpc_watch_shadows_def grpc_verify_def Let_def
        split: sum.splits prod.splits option.splits if_splits)
next
  case Watch_presence_call
  with assms(1) show ?thesis by (auto simp: grpc_watch_presence_def apfst_eq_iff)
qed (use assms in \<open>auto simp: apfst_eq_iff grpc_defs elim!: with_grpc_auth_state
    split: sum.splits prod.splits option.splits\<close>)

lemma grpc_manager:
  assumes "grpc_serve G sv mo md call st = (r, st')" "run_of sv reqs evs (manager st)"
    and "\<forall>m. call = Request_escalation_call m \<longrightarrow> mo_uuid mo \<notin> fst ` set reqs"
  shows "manager_effect sv reqs evs (request_id (Grpc mo md call)) (Grpc_answer r) (manager st')"
proof (cases call)
  case (Request_escalation_call m)
  obtain q where q: "grpc_request_escalation G sv mo md m st = (q, st')" "r = map_sum id Request_id q"
    using assms(1) Request_escalation_call by (auto simp: apfst_eq_iff)
  have new: "run_of sv (reqs @ [(mo_uuid mo, x)]) evs (snd (request_escalation (mo_uuid mo) x (manager st)))" for x
    using em_run.request [OF assms(2), of "mo_uuid mo" x] assms(3) Request_escalation_call
    by (metis prod.collapse)
  from q(1) [unfolded grpc_request_escalation_def] show ?thesis
  proof (cases rule: with_grpc_auth_state)
    case (refused s reg)
    with assms(2) q(2) show ?thesis by (intro manager_effect_same) simp_all
  next
    case (passed did reg)
    show ?thesis
    proof (cases "from_proto_escalation_request (gx_timestamp_opt G) m")
      case (Inl s)
      with passed assms(2) q(2) show ?thesis by (intro manager_effect_same) auto
    next
      case (Inr x)
      with passed have "manager st' = snd (request_escalation (mo_uuid mo) x (manager st))"
        by (auto split: prod.splits)
      with new [of x] q(2) Request_escalation_call show ?thesis unfolding manager_effect_def
        by (intro exI [of _ "[(mo_uuid mo, x)]"] exI [of _ "[]"]) simp
    qed
  qed
next
  case (Approve_call m)
  obtain q where q: "grpc_approve G sv mo md m st = (q, st')" "r = map_sum id Event_answer q"
    using assms(1) Approve_call by (auto simp: apfst_eq_iff)
  from q(1) [unfolded grpc_approve_def] show ?thesis
  proof (cases rule: with_grpc_auth_state)
    case (refused s reg)
    with assms(2) q(2) show ?thesis by (intro manager_effect_same) simp_all
  next
    case (passed did reg)
    show ?thesis
    proof (cases "\<exists>s. q = Inl s \<and> manager st' = manager st")
      case True
      with assms(2) q(2) show ?thesis by (intro manager_effect_same) auto
    next
      case False
      with passed obtain i sig gr ga x where
        "em_approve (sv_ext sv) (sv_claims sv) (sv_event_json sv) (mo_approve mo) i (pap_approver_did m) sig gr ga (manager st) =
          (x, manager st')"
        "q = map_err (Pair Failed_precondition) (map_sum id (to_proto_escalation_event (sv_ext sv)) x)"
        by (auto split: option.splits sum.splits prod.splits)
      with run_of_decision(1) [OF assms(2)] q(2) show ?thesis
        by (intro manager_effect_decision [where q = x]) (cases x; simp)+
    qed
  qed
next
  case (Deny_call m)
  obtain q where q: "grpc_deny G sv mo md m st = (q, st')" "r = map_sum id Event_answer q"
    using assms(1) Deny_call by (auto simp: apfst_eq_iff)
  from q(1) [unfolded grpc_deny_def] show ?thesis
  proof (cases rule: with_grpc_auth_state)
    case (refused s reg)
    with assms(2) q(2) show ?thesis by (intro manager_effect_same) simp_all
  next
    case (passed did reg)
    show ?thesis
    proof (cases "\<exists>s. q = Inl s \<and> manager st' = manager st")
      case True
      with assms(2) q(2) show ?thesis by (intro manager_effect_same) auto
    next
      case False
      with passed obtain i x where
        "em_deny (sv_event_json sv) (mo_now mo) i (pdr_approver_did m) (pdr_cause m) (manager st) = (x, manager st')"
        "q = map_err (Pair Failed_precondition) (map_sum id (to_proto_escalation_event (sv_ext sv)) x)"
        by (auto split: option.splits sum.splits prod.splits)
      with run_of_decision(2) [OF assms(2)] q(2) show ?thesis
        by (intro manager_effect_decision [where q = x]) (cases x; simp)+
    qed
  qed
qed (use grpc_manager_kept [OF assms(1)] assms(2) in \<open>simp add: manager_effect_same\<close>)+

lemma worker_manager [simp]: "manager (dn_server (worker_turn E w d)) = manager (dn_server d)"
  by (auto simp: worker_turn_def split: worker.split option.split sum.split discovery_event.split)

lemma step_manager:
  assumes "daemon_step E t d = (a, d')" "run_of (de_services E) reqs evs (manager (dn_server d))"
    and "\<forall>i. request_id t = Some i \<longrightarrow> i \<notin> fst ` set reqs"
  shows "manager_effect (de_services E) reqs evs (request_id t) a (manager (dn_server d'))"
proof (cases t)
  case (Http mo rq)
  then obtain resp where "auth_middleware (de_axum E) (de_services E) mo rq (dn_server d) = (resp, dn_server d')"
      "a = Http_answer resp" using assms(1) by (auto split: prod.splits)
  with middleware_manager [OF _ assms(2)] show ?thesis using manager_effectI by fastforce
next
  case (Grpc mo md call)
  then obtain r where "grpc_serve (de_grpc E) (de_services E) mo md call (dn_server d) = (r, dn_server d')"
      "a = Grpc_answer r" using assms(1) by (auto split: prod.splits)
  moreover have "\<forall>m. call = Request_escalation_call m \<longrightarrow> mo_uuid mo \<notin> fst ` set reqs"
    using assms(3) Grpc by auto
  ultimately show ?thesis using grpc_manager [OF _ assms(2)] Grpc by metis
next
  case (Worker w)
  with assms(1,2) show ?thesis by (auto intro!: manager_effect_same)
qed

lemma run_manager:
  assumes "daemon_run E ts d = (as, d')" "run_of (de_services E) reqs evs (manager (dn_server d))"
    and "distinct (map fst reqs @ List.map_filter request_id ts)"
  shows "\<exists>new evs'. run_of (de_services E) (reqs @ new) (evs @ evs') (manager (dn_server d')) \<and>
    fst ` set new \<subseteq> set (List.map_filter request_id ts) \<and>
    subseq (List.map_filter event_answer as) (map (to_proto_escalation_event (sv_ext (de_services E))) evs')"
  using assms(1,3)
proof (induction ts arbitrary: as d' rule: rev_induct)
  case Nil
  with assms(2) show ?case by (intro exI [of _ "[]"]) (simp add: map_filter_simps)
next
  case (snoc t ts)
  obtain as1 d1 a where s: "daemon_run E ts d = (as1, d1)" "daemon_step E t d1 = (a, d')" "as = as1 @ [a]"
    using snoc.prems(1) by (auto simp: daemon_run_append split: prod.splits)
  have "distinct (map fst reqs @ List.map_filter request_id ts)" using snoc.prems(2) by (auto simp: map_filter_append)
  from snoc.IH [OF s(1) this] obtain new evs' where
    IH: "run_of (de_services E) (reqs @ new) (evs @ evs') (manager (dn_server d1))"
      "fst ` set new \<subseteq> set (List.map_filter request_id ts)"
      "subseq (List.map_filter event_answer as1) (map (to_proto_escalation_event (sv_ext (de_services E))) evs')"
    by blast
  have fresh: "\<forall>i. request_id t = Some i \<longrightarrow> i \<notin> fst ` set (reqs @ new)"
    using snoc.prems(2) IH(2) by (auto simp: map_filter_append map_filter_simps)
  from step_manager [OF s(2) IH(1) fresh] obtain new1 evs1 where
    step: "run_of (de_services E) ((reqs @ new) @ new1) ((evs @ evs') @ evs1) (manager (dn_server d'))"
      "fst ` set new1 \<subseteq> set_option (request_id t)"
      "subseq (case event_answer a of None \<Rightarrow> [] | Some e \<Rightarrow> [e])
        (map (to_proto_escalation_event (sv_ext (de_services E))) evs1)"
    unfolding manager_effect_def by blast
  have "List.map_filter event_answer as =
      List.map_filter event_answer as1 @ (case event_answer a of None \<Rightarrow> [] | Some e \<Rightarrow> [e])"
    by (simp add: s(3) map_filter_append map_filter_simps split: option.split)
  then have "subseq (List.map_filter event_answer as)
      (map (to_proto_escalation_event (sv_ext (de_services E))) (evs' @ evs1))"
    using IH(3) step(3) by (simp add: list_emb_append_mono)
  moreover have "fst ` set (new @ new1) \<subseteq> set (List.map_filter request_id (ts @ [t]))"
    using IH(2) step(2) by (cases "request_id t") (auto simp: map_filter_append map_filter_simps)
  ultimately show ?case using step(1) by (intro exI [of _ "new @ new1"] exI [of _ "evs' @ evs1"]) simp
qed

section \<open>Requests over HTTP\<close>

text \<open>A request that carries the sender's DID and its signature over the body.\<close>

definition signed_request :: "ext \<Rightarrow> string \<Rightarrow> signing_key \<Rightarrow> bytes \<Rightarrow> http_request \<Rightarrow> bool" where
  "signed_request X did key body rq \<longleftrightarrow> header_str (rq_headers rq) agent_did_header = Some did \<and>
     header_str (rq_headers rq) signature_header = Some (b64_encode X (ed_sign X key body)) \<and> rq_body rq = Inr body"

lemma enrolled_served:
  assumes "enrolled C sv mo st did key ring" "signed_request (sv_ext sv) did key body rq"
  shows "auth_middleware ax sv mo rq st =
    (case dispatch ax sv mo rq body st of (r, st') \<Rightarrow> (into_response True r, st'))"
proof -
  have "authenticate sv mo rq st = (Inr body, st)"
    by (rule fr.authenticate_registered [where X = "sv_ext sv" and J = "sv_claims sv" and C = C and k = key and
          did = did and r = ring])
      (use assms in \<open>auto simp: enrolled_def signed_request_def\<close>)
  then show ?thesis by (simp add: auth_middleware_def)
qed

text \<open>A route without parameters is found at its own path.\<close>

lemma find_route_listed:
  assumes "literal_patterns ax" "map_of routes path = Some ms"
  shows "find_route ax path = Some (ms, [])"
proof -
  have plain: "\<forall>p\<in>fst ` set routes. CHR '':'' \<notin> set p \<and> CHR ''*'' \<notin> set p"
    by (simp add: routes_def)
  have literal: "ax_match ax p path = (if path = p then Some [] else None)"
    if "CHR '':'' \<notin> set p \<and> CHR ''*'' \<notin> set p" for p
    using assms(1) that by (simp add: literal_patterns_def)
  have "\<exists>l. List.map_filter (\<lambda>(pat, ms). map_option (Pair ms) (ax_match ax pat path)) rs = (ms, []) # l"
    if "\<forall>p\<in>fst ` set rs. CHR '':'' \<notin> set p \<and> CHR ''*'' \<notin> set p" "map_of rs path = Some ms" for rs
    using that by (induction rs) (auto simp: literal map_filter_simps split: if_splits)
  from this [OF plain assms(2)] show ?thesis by (auto simp: find_route_def)
qed

section \<open>Properties\<close>

text \<open>
  C9: every run of the daemon, of requests over both interfaces in any order, is a run of the
  escalation manager, as long as fresh identifiers are new: over HTTP and gRPC together each
  request is decided at most once, an event reports the request as it was made and only
  raises privilege when it approves, the exporter is handed exactly the events of the run, and
  every event answered over gRPC is one of them, in order.
\<close>

theorem daemon_refines_escalation_manager:
  assumes "em_run (sv_ext (de_services E)) (sv_claims (de_services E)) (sv_event_json (de_services E)) reqs evs
      (ss_escalation_manager (dn_server d))"
    and "distinct (map fst reqs @ List.map_filter request_id ts)"
    and "daemon_run E ts d = (as, d')"
  shows "\<exists>new evs'. em_run (sv_ext (de_services E)) (sv_claims (de_services E)) (sv_event_json (de_services E))
      (reqs @ new) (evs @ evs') (ss_escalation_manager (dn_server d')) \<and>
    fst ` set new \<subseteq> set (List.map_filter request_id ts) \<and>
    distinct (map ee_event_id (evs @ evs')) \<and> (\<forall>ev\<in>set evs'. reports (reqs @ new) ev) \<and>
    (em_siem_exporter (ss_escalation_manager (dn_server d')) \<longrightarrow>
       em_exported (ss_escalation_manager (dn_server d')) = evs @ evs') \<and>
    subseq (List.map_filter event_answer as) (map (to_proto_escalation_event (sv_ext (de_services E))) evs')"
proof -
  obtain new evs' where r: "run_of (de_services E) (reqs @ new) (evs @ evs') (manager (dn_server d'))"
    "fst ` set new \<subseteq> set (List.map_filter request_id ts)"
    "subseq (List.map_filter event_answer as) (map (to_proto_escalation_event (sv_ext (de_services E))) evs')"
    using run_manager [OF assms(3,1,2)] by blast
  have "em_inv (reqs @ new) (evs @ evs') (manager (dn_server d'))" by (rule em_run_inv [OF r(1)])
  then have "distinct (map ee_event_id (evs @ evs'))" "\<forall>ev\<in>set evs'. reports (reqs @ new) ev"
    "em_siem_exporter (manager (dn_server d')) \<longrightarrow> em_exported (manager (dn_server d')) = evs @ evs'"
    by (auto simp: em_inv_def)
  with r show ?thesis by blast
qed

text \<open>
  C12: what an agent on record gets done over the two interfaces. Registering does the same over
  both, only that a registration over HTTP tells the discovery manager and one over gRPC does not;
  both list the same pending requests, over gRPC without their identifiers. Approving an
  escalation and saving a policy take effect over gRPC exactly as the code's HTTP handlers would
  do it, but an HTTP request for either never reaches its handler: it is answered 404 and
  changes nothing, because the daemon's routes with a parameter match no path.
\<close>

theorem interfaces_compared:
  assumes "enrolled C sv mo st did key own_ring" and "literal_patterns ax"
    and "\<forall>body\<in>{gx_enc_approve G m, gx_enc_set_policy G p, gx_enc_register G g, gx_enc_list_pending G}.
      sendable (sv_ext sv) did key body"
    and "signed_metadata (sv_ext sv) key did (gx_enc_approve G m) = Inr md_approve"
    and "signed_metadata (sv_ext sv) key did (gx_enc_set_policy G p) = Inr md_save"
    and "signed_metadata (sv_ext sv) key did (gx_enc_register G g) = Inr md_register"
    and "signed_metadata (sv_ext sv) key did (gx_enc_list_pending G) = Inr md_list"
    and "uuid_parse (sv_ext sv) (pap_request_id m) = Some i"
    and "b64_decode (sv_ext sv) (pap_signature_b64 m) = Inr approval"
    and "gx_policy_of_json G (psp_policy_json p) = Inr policy"
    and "prg_identity g = Some q" and "from_proto_identity q = Inr ident" and "from_proto_ring (prg_ring g) = Inr ring"
    and "signed_request (sv_ext sv) did key b1 approve" and "signed_request (sv_ext sv) did key b2 save"
    and "signed_request (sv_ext sv) did key b3 register" and "signed_request (sv_ext sv) did key b4 pending"
    and "rq_path approve = ''/v1/escalations/'' @ id1 @ ''/approve''" and "id1 \<noteq> ''{id}''"
    and "rq_path save = ''/v1/agents/'' @ id2 @ ''/policy''" and "id2 \<noteq> ''{did}''"
    and "rq_path register = ''/v1/agents/register''" and "rq_method register = POST"
    and "ax_json_register ax (rq_headers register) b3 = Inr \<lparr>rr_identity = ident, rr_ring = ring\<rparr>"
    and "rq_path pending = ''/v1/escalations/pending''" and "rq_method pending = GET"
    and "http = auth_middleware ax sv mo"
    and "approved = approve_escalation_handler sv mo i
      \<lparr>apr_approver_did = pap_approver_did m, apr_signature = pap_signature_b64 m\<rparr> st"
    and "saved = save_policy_handler sv (psp_agent_did p) policy st"
  shows "(rs_status (fst (http register st)) = CREATED \<longleftrightarrow> is_ok (fst (grpc_register G sv mo md_register g st))) \<and>
    snd (grpc_register G sv mo md_register g st) =
      (snd (http register st))\<lparr>ss_discovery_manager := ss_discovery_manager st\<rparr> \<and>
    (\<exists>l. rs_body (fst (http pending st)) = Pending_json l \<and> snd (http pending st) = st \<and>
      grpc_list_pending G sv mo md_list st = (Inr (map (to_proto_escalation_request \<circ> snd) l), st)) \<and>
    snd (grpc_approve G sv mo md_approve m st) = snd approved \<and>
    is_ok (fst (grpc_approve G sv mo md_approve m st)) = is_ok (fst approved) \<and>
    rs_status (fst (http approve st)) = NOT_FOUND \<and> snd (http approve st) = st \<and>
    snd (grpc_set_policy G sv mo md_save p st) = snd saved \<and>
    is_ok (fst (grpc_set_policy G sv mo md_save p st)) = is_ok (fst saved) \<and>
    rs_status (fst (http save st)) = NOT_FOUND \<and> snd (http save st) = st"
proof (intro conjI)
  have s: "sendable (sv_ext sv) did key (gx_enc_approve G m)" "sendable (sv_ext sv) did key (gx_enc_set_policy G p)"
    "sendable (sv_ext sv) did key (gx_enc_register G g)" "sendable (sv_ext sv) did key (gx_enc_list_pending G)"
    using assms(3) by simp_all
  note a = enrolled_call(2) [OF assms(1) s(1) assms(4)]
  show "snd (grpc_approve G sv mo md_approve m st) = snd approved"
    "is_ok (fst (grpc_approve G sv mo md_approve m st)) = is_ok (fst approved)"
    by (auto simp: grpc_approve_def a assms(8,9,28) approve_escalation_handler_def split: sum.split prod.split)
  note p = enrolled_call(2) [OF assms(1) s(2) assms(5)]
  show "snd (grpc_set_policy G sv mo md_save p st) = snd saved"
    "is_ok (fst (grpc_set_policy G sv mo md_save p st)) = is_ok (fst saved)"
    by (auto simp: grpc_set_policy_def p assms(10,29) save_policy_handler_def or_internal_def split: sum.split prod.split)
  have routes: "find_route ax (rq_path register) = Some ([(POST, Register_agent)], [])"
    "find_route ax (rq_path pending) = Some ([(GET, List_pending)], [])"
    unfolding assms(22,25) by (rule find_route_listed [OF assms(2)]; simp add: routes_def)+
  have reg: "http register st = (case register_agent_handler sv \<lparr>rr_identity = ident, rr_ring = ring\<rparr> st of
      (r, st') \<Rightarrow> (into_response True r, st'))"
    unfolding assms(27) enrolled_served [OF assms(1,16)] by (simp add: dispatch_def routes(1) assms(23,24))
  note r = enrolled_call(2) [OF assms(1) s(3) assms(6)]
  show "snd (grpc_register G sv mo md_register g st) =
      (snd (http register st))\<lparr>ss_discovery_manager := ss_discovery_manager st\<rparr>"
    "rs_status (fst (http register st)) = CREATED \<longleftrightarrow> is_ok (fst (grpc_register G sv mo md_register g st))"
    by (auto simp: grpc_register_def r reg assms(11-13) register_agent_handler_def into_response_def
        split: sum.split prod.split)
  show "\<exists>l. rs_body (fst (http pending st)) = Pending_json l \<and> snd (http pending st) = st \<and>
      grpc_list_pending G sv mo md_list st = (Inr (map (to_proto_escalation_request \<circ> snd) l), st)"
    unfolding assms(27) enrolled_served [OF assms(1,17)]
    by (simp add: dispatch_def routes(2) assms(26) list_pending_handler_def into_response_def
        grpc_list_pending_def enrolled_call(2) [OF assms(1) s(4) assms(7)] case_prod_beta comp_def)
  have "dispatch ax sv mo approve b1 st = (Inl (NOT_FOUND, []), st)" "dispatch ax sv mo save b2 st = (Inl (NOT_FOUND, []), st)"
    using assms(18-21) by (auto intro!: agent_routes_unmatched [OF assms(2)])
  then show "rs_status (fst (http approve st)) = NOT_FOUND" "snd (http approve st) = st"
    "rs_status (fst (http save st)) = NOT_FOUND" "snd (http save st) = st"
    unfolding assms(27) enrolled_served [OF assms(1,14)] enrolled_served [OF assms(1,15)]
    by (simp_all add: into_response_def)
qed

end
