(* ===== verification/Daemon_Samples.thy ===== *)
theory Daemon_Samples
  imports Daemon_Runs Daemon_Escalations
begin

text \<open>
  A concrete daemon and runs of it, at which the theorems on runs apply: a codec for all records
  of the action log, a channel as \<open>tokio\<close> documents it, requests of a registered agent and of
  unknown ones.
\<close>

section \<open>A codec for every record\<close>

text \<open>Each field in hexadecimal digits; numbers are written in unary first.\<close>

definition int_text :: "int \<Rightarrow> string" where
  "int_text t = (if t < 0 then CHR ''-'' # replicate (nat (- t)) CHR ''i'' else replicate (nat t) CHR ''i'')"

definition int_of_text :: "string \<Rightarrow> int" where
  "int_of_text s = (case s of [] \<Rightarrow> 0 | c # cs \<Rightarrow> if c = CHR ''-'' then - int (length cs) else int (length s))"

lemma int_of_text_text [simp]: "int_of_text (int_text t) = t"
proof (cases "0 < t")
  case True
  then have "replicate (nat t) CHR ''i'' = CHR ''i'' # replicate (nat t - 1) CHR ''i''"
    by (cases "nat t") simp_all
  with True show ?thesis by (simp add: int_text_def int_of_text_def)
qed (auto simp: int_text_def int_of_text_def)

definition category_of :: "string \<Rightarrow> data_category" where
  "category_of s = (if s = category_display PersonalData then PersonalData
     else if s = category_display FinancialRecord then FinancialRecord
     else if s = category_display AuditLog then AuditLog
     else if s = category_display SystemConfig then SystemConfig else Unknown)"

lemma category_of_display [simp]: "category_of (category_display c) = c"
  by (cases c) (simp_all add: category_of_def category_display_def)

fun outcome_fields :: "action_outcome \<Rightarrow> string list" where
  "outcome_fields Permitted = [''P'', [], []]"
| "outcome_fields (Denied n why) = [''D'', n, why]"
| "outcome_fields (DiscoveryEventLogged j) = [''E'', j, []]"

definition fields_outcome :: "string list \<Rightarrow> action_outcome" where
  "fields_outcome fs = (if fs ! 0 = ''P'' then Permitted
     else if fs ! 0 = ''D'' then Denied (fs ! 1) (fs ! 2) else DiscoveryEventLogged (fs ! 1))"

lemma fields_outcome_fields [simp]: "fields_outcome (outcome_fields out) = out"
  by (cases out) (simp_all add: fields_outcome_def)

definition record_fields :: "action_log_record \<Rightarrow> string list" where
  "record_fields r = [replicate (unat (al_record_id r)) CHR ''u'', al_agent_did r, al_action r,
     category_display (al_resource_category r), int_text (al_timestamp r), al_prev_hash r]
     @ outcome_fields (al_outcome r)"

definition fields_record :: "string list \<Rightarrow> action_log_record" where
  "fields_record fs = \<lparr>al_record_id = of_nat (length (fs ! 0)), al_agent_did = fs ! 1, al_action = fs ! 2,
     al_resource_category = category_of (fs ! 3), al_timestamp = int_of_text (fs ! 4),
     al_outcome = fields_outcome (drop 6 fs), al_prev_hash = fs ! 5\<rparr>"

lemma fields_record_fields: "fields_record (record_fields r) = r"
  by (cases r) (simp add: fields_record_def record_fields_def)

definition hex_fields :: "string list \<Rightarrow> string" where
  "hex_fields fs = concat (map (\<lambda>f. to_hex f @ ''-'') fs)"

lemma hex_fields_split: "str_split CHR ''-'' (hex_fields fs) = map to_hex fs @ [[]]"
  by (induction fs) (simp_all add: hex_fields_def str_split_append)

definition full_codec :: log_codec where
  "full_codec = sample_log_codec\<lparr>lc_to_json := \<lambda>r. Inr (CHR ''r'' # hex_fields (record_fields r)),
     lc_of_json := \<lambda>s. Inr (fields_record (map from_hex (butlast (str_split CHR ''-'' (tl s)))))\<rparr>"

lemma full_json_ok: "log_json_ok full_codec r"
proof -
  let ?j = "CHR ''r'' # hex_fields (record_fields r)"
  have "set (hex_fields fs) \<subseteq> set hex_digits \<union> {CHR ''-''}" for fs
    using set_to_hex by (induction fs) (auto simp: hex_fields_def)
  then have chars: "set ?j \<subseteq> set hex_digits \<union> {CHR ''-'', CHR ''r''}" by auto
  have all: "\<forall>d\<in>set hex_digits \<union> {CHR ''-'', CHR ''r''}. byte_in 0 127 d \<and> d \<noteq> nl \<and> d \<noteq> cr"
    by (simp add: hex_digits_def byte_in_def nl_def cr_def)
  have "utf8_valid ?j" by (rule utf8_ascii) (use chars all in blast)
  moreover have "nl \<notin> set ?j" "cr \<notin> set ?j" using chars all by blast+
  moreover have "\<not> blank ?j" by (rule blank_visible) simp_all
  moreover have "lc_of_json full_codec ?j = Inr r"
    by (simp add: full_codec_def hex_fields_split fields_record_fields comp_def)
  ultimately show ?thesis by (auto simp: json_ok_def one_line_def full_codec_def)
qed

lemma full_writable: "writable X full_codec rs"
  by (simp add: writable_def full_json_ok)

lemma full_cps_ok: "cps_ok log_ext full_codec"
  using sample_cps_ok by (simp add: cps_ok_def compute_hash_def canonical_bytes_def full_codec_def)

lemma full_synced: "\<exists>s. fal_synced log_ext full_codec [] s"
proof -
  have "files empty_fs ''log'' = None" "files empty_fs (with_extension ''checkpoint'' ''log'') = None"
    "script empty_fs = []" "with_extension ''checkpoint'' ''log'' \<noteq> ''log''"
    by (simp_all add: empty_fs_def log_checkpoint_path)
  from fal_synced_open_new [OF this] show ?thesis by blast
qed

section \<open>A daemon\<close>

definition tokio_broadcast :: "nat \<Rightarrow> channel" where
  "tokio_broadcast capacity pos sent =
     (if length sent \<le> pos then None
      else if length sent - pos \<le> capacity then Some (Inr (sent ! pos))
      else Some (Inl (Lagged (length sent - pos - capacity))))"

lemma tokio_broadcast_ok: "broadcast_ok capacity (tokio_broadcast capacity)"
  by (simp add: broadcast_ok_def tokio_broadcast_def)

definition sample_env :: "(file_registry, memory_key_store, memory_policy_store) daemon_env" where
  "sample_env = \<lparr>de_axum = any_axum\<lparr>ax_json_execute := \<lambda>_ _. Inr sample_write\<rparr>, de_grpc = sample_grpc_ext,
     de_services = (grpc_services log_ext)\<lparr>sv_log_codec := full_codec\<rparr>, de_event_json = \<lambda>_. ''{}'',
     de_recv = tokio_broadcast 128\<rparr>"

definition sample_daemon :: "file_action_log \<Rightarrow> (file_registry, memory_key_store, memory_policy_store) daemon" where
  "sample_daemon log = \<lparr>dn_server = grpc_server log, dn_worker = Receiving 0\<rparr>"

lemma sample_env_simps:
  "sv_ext (de_services sample_env) = log_ext" "sv_log_codec (de_services sample_env) = full_codec"
  "sv_keys (de_services sample_env) = memory_keystore_ops"
  by (simp_all add: sample_env_def grpc_services_def sample_services_def)

lemma sample_daemon_simps:
  "dn_worker (sample_daemon log) = Receiving (length (daemon_events (sample_daemon log)))"
  "daemon_events (sample_daemon log) = []" "dm_agents (ss_discovery_manager (dn_server (sample_daemon log))) = Map.empty"
  "ss_registry (dn_server (sample_daemon log)) = grpc_registry" "mks_keys (ss_key_store (dn_server (sample_daemon log))) = Map.empty"
  by (simp_all add: sample_daemon_def grpc_server_def sample_server_def dm_new_def mks_new_def)

lemma sample_ready:
  assumes "fal_synced log_ext full_codec [] log"
  shows "daemon_ready sample_codec 128 sample_env [] (sample_daemon log)"
proof -
  have "fr_usable sample_codec grpc_registry"
    by (simp add: grpc_registry_def sample_file_registry_def fr_usable_def mr_new_def sample_codec_def)
  then show ?thesis using assms
    by (simp add: daemon_ready_def sample_env_simps sample_daemon_simps full_cps_ok)
      (simp add: sample_env_def grpc_services_def sample_services_def tokio_broadcast_ok sample_daemon_def
        grpc_server_def sample_server_def)
qed

lemma sample_loggable: "loggable sample_env t"
  by (cases t) (simp_all add: sample_env_simps full_writable)

section \<open>Requests\<close>

text \<open>Distinct DIDs that nobody has registered.\<close>

definition stranger :: "nat \<Rightarrow> string" where
  "stranger i = ''did:mesh:'' @ replicate i CHR ''x''"

definition stranger_request :: "nat \<Rightarrow> task" where
  "stranger_request i = Http sample_moment (register_request_of (stranger i) [])"

lemma header_to_str_stranger: "header_to_str (stranger i) = Some (stranger i)"
  by (auto simp: header_to_str_def stranger_def byte_in_def)

lemma stranger_unknown: "unknown_sender sample_env grpc_registry (stranger i) (stranger_request i)"
proof -
  have "stranger i \<noteq> ''did:mesh:a''" "stranger i \<noteq> ''did:mesh:s''" by (cases i; simp add: stranger_def)+
  then have r: "mr_entries (fr_memory grpc_registry) (stranger i) = None" by (simp add: grpc_registry_def)
  have p: "parse_did (stranger i) = Inr \<lparr>did_method = ''mesh'', did_unique_id = replicate i CHR ''x''\<rparr>"
    by (subst parse_did_iff) (simp add: stranger_def did_display_def)
  have b: "b64_decode log_ext [] = Inr []" by (simp add: log_ext_def toy_ext_def)
  have "header_to_str [] = Some []" by (simp add: header_to_str_def)
  then show ?thesis using r p b
    by (simp add: stranger_request_def register_request_of_def sample_headers_str header_to_str_stranger sample_env_simps)
qed

lemma stranger_not_genuine: "\<not> genuine_task sample_env grpc_registry (stranger_request i)"
proof -
  have "mr_entries (fr_memory grpc_registry) (stranger i) = None"
    using stranger_unknown [of i] by (simp add: stranger_request_def)
  then show ?thesis
    by (simp add: stranger_request_def register_request_of_def sample_headers_str header_to_str_stranger genuine_def)
qed

text \<open>A request to execute an action, signed by an agent on record.\<close>

definition execute_task :: task where
  "execute_task = Http sample_moment \<lparr>rq_method = POST, rq_path = ''/v1/execute'',
     rq_headers = sample_headers ''did:mesh:a'' (pad32 ''k'' @ ''hello''), rq_body = Inr ''hello'', rq_peer = ''10.0.0.1:9''\<rparr>"

section \<open>Runs\<close>

theorem daemon_run_accounted_witness:
  "\<exists>log as d' new pos. daemon_run sample_env [stranger_request 0, Worker (9, 9), execute_task] (sample_daemon log) = (as, d') \<and>
     fal_synced log_ext full_codec new (ss_action_log (dn_server d')) \<and>
     List.map_filter executed as = map (\<lambda>r. al_outcome r = Permitted) (filter (\<lambda>r. alert_json r = None) new) \<and>
     List.map_filter alert_json new =
       map (\<lambda>a. de_event_json sample_env (Shadow a)) (shadows_in (take pos (daemon_events d')))"
proof -
  obtain log where log: "fal_synced log_ext full_codec [] log" using full_synced by blast
  obtain as d' where r: "daemon_run sample_env [stranger_request 0, Worker (9, 9), execute_task] (sample_daemon log) = (as, d')"
    by fastforce
  have l: "\<forall>t\<in>set [stranger_request 0, Worker (9, 9), execute_task]. loggable sample_env t" using sample_loggable by blast
  from daemon_run_accounted [OF sample_ready [OF log] sample_daemon_simps(1) l r]
  obtain new pos where "fal_synced log_ext full_codec new (ss_action_log (dn_server d'))"
    "List.map_filter executed as = map (\<lambda>r. al_outcome r = Permitted) (filter (\<lambda>r. alert_json r = None) new)"
    "List.map_filter alert_json new =
       map (\<lambda>a. de_event_json sample_env (Shadow a)) (shadows_in (take pos (daemon_events d')))"
    unfolding sample_env_simps sample_daemon_simps append_Nil list.size(3) drop0 by blast
  with r show ?thesis by blast
qed

theorem forgers_gain_nothing_witness:
  "\<exists>log as d'. daemon_run sample_env [stranger_request 0, Grpc sample_moment Map.empty List_pending_call, Worker (9, 9)]
      (sample_daemon log) = (as, d') \<and> (\<forall>a\<in>set as. refused a) \<and> ss_registry (dn_server d') = grpc_registry"
proof -
  let ?ts = "[stranger_request 0, Grpc sample_moment Map.empty List_pending_call, Worker (9, 9)]"
  obtain log where log: "fal_synced log_ext full_codec [] log" using full_synced by blast
  obtain as d' where r: "daemon_run sample_env ?ts (sample_daemon log) = (as, d')" by fastforce
  have l: "\<forall>t\<in>set ?ts. loggable sample_env t" using sample_loggable by blast
  have "\<not> genuine_task sample_env grpc_registry (Grpc sample_moment Map.empty List_pending_call)"
    by (simp add: extract_grpc_auth_def header_get_def)
  then have g: "\<forall>t\<in>set ?ts. \<not> genuine_task sample_env (ss_registry (dn_server (sample_daemon log))) t"
    using stranger_not_genuine by (simp add: sample_daemon_simps)
  from forgers_gain_nothing [OF sample_ready [OF log] sample_daemon_simps(1) l g r] r show ?thesis
    using sample_daemon_simps(4) [of log] by (intro exI [of _ log] exI [of _ as] exI [of _ d']) auto
qed

theorem worker_catches_up_witness:
  "\<exists>log d' new. fal_synced log_ext full_codec new (ss_action_log (dn_server d')) \<and>
     snd (daemon_run sample_env [stranger_request 0, Worker (9, 9)] (sample_daemon log)) = d' \<and>
     List.map_filter alert_json new = map (\<lambda>_. ''{}'') (shadows_in (daemon_events d'))"
proof -
  obtain log where log: "fal_synced log_ext full_codec [] log" using full_synced by blast
  obtain as d1 where r1: "daemon_run sample_env [stranger_request 0] (sample_daemon log) = (as, d1)" by fastforce
  obtain bs d' where r2: "daemon_run sample_env (map Worker [(9, 9)]) d1 = (bs, d')" by fastforce
  have all: "list_all2 (unknown_sender sample_env (ss_registry (dn_server (sample_daemon log)))) [stranger 0] [stranger_request 0]"
    using stranger_unknown by (simp add: sample_daemon_simps)
  have d1: "dn_worker d1 = Receiving 0" "length (daemon_events d1) = 1"
    using unknown_senders_run [OF daemon_readyD(1,2) [OF sample_ready [OF log]] all _ _ r1]
      sample_daemon_simps(1) [of log] by (auto simp: sample_daemon_simps(2,3))
  have l: "\<forall>t\<in>set [stranger_request 0]. loggable sample_env t" "\<forall>w\<in>set [(9, 9)]. loggable sample_env (Worker w)"
    using sample_loggable by blast+
  have n: "length (daemon_events d1) - 0 \<le> 128" "length [(9, 9)] = length (daemon_events d1) - 0" using d1(2) by simp_all
  have "snd (daemon_run sample_env [stranger_request 0, Worker (9, 9)] (sample_daemon log)) = d'"
    using r1 r2 by (auto split: prod.splits)
  with worker_catches_up [OF sample_ready [OF log] sample_daemon_simps(1) l r1 d1(1) n r2] show ?thesis
    unfolding sample_env_simps sample_daemon_simps append_Nil list.size(3) drop0 by (auto simp: sample_env_def)
qed

theorem anyone_silences_worker_witness:
  "\<exists>log. dn_worker (snd (daemon_run sample_env (map stranger_request [0..<129] @ [Worker (9, 9), execute_task])
      (sample_daemon log))) = Stopped"
proof -
  obtain log where log: "fal_synced log_ext full_codec [] log" using full_synced by blast
  obtain as d' where r: "daemon_run sample_env (map stranger_request [0..<129] @ Worker (9, 9) # [execute_task])
      (sample_daemon log) = (as, d')" by fastforce
  have all: "list_all2 (unknown_sender sample_env (ss_registry (dn_server (sample_daemon log))))
      (map stranger [0..<129]) (map stranger_request [0..<129])"
    using stranger_unknown by (simp add: sample_daemon_simps list_all2_map1 list_all2_map2 list_all2_same)
  have "inj stranger" by (rule injI) (simp add: stranger_def replicate_eq_replicate)
  then have "distinct (map stranger [0..<129])" by (simp add: distinct_map inj_on_def inj_def)
  moreover have "set (map stranger [0..<129]) \<inter>
      dom (dm_agents (ss_discovery_manager (dn_server (sample_daemon log)))) = {}"
    by (simp add: sample_daemon_simps)
  moreover have "128 < length (map stranger_request [0..<129])" by simp
  moreover have "\<forall>t\<in>set [execute_task]. loggable sample_env t" using sample_loggable by blast
  ultimately have "dn_worker d' = Stopped"
    using anyone_silences_worker [OF sample_ready [OF log] sample_daemon_simps(1) _ all _ _ _ _ r] by simp
  with r show ?thesis by (intro exI [of _ log]) simp
qed

text \<open>A manager as the daemon starts with it, and a request of a registered agent.\<close>

definition fresh_manager :: escalation_manager where
  "fresh_manager = \<lparr>em_pending = Map.empty, em_audit_log = None, em_audit_poisoned = False,
     em_siem_exporter = True, em_exported = [], em_registry_pubkey = pad32 ''rk'', em_fs = empty_fs\<rparr>"

definition request_task :: "headers \<Rightarrow> task" where
  "request_task md = Grpc sample_moment md (Request_escalation_call \<lparr>per_agent_did = ''did:mesh:a'',
     per_current_ring = 4, per_requested_ring = 3, per_reason = ''r'', per_timestamp = Some \<lparr>ts_seconds = 5, ts_nanos = 0\<rparr>\<rparr>)"

theorem daemon_refines_escalation_manager_witness:
  "\<exists>d md as d' new evs'. daemon_run sample_env [request_task md, execute_task] d = (as, d') \<and>
     em_run log_ext ac_subject_did (\<lambda>_. Inr ''{}'') new evs' (ss_escalation_manager (dn_server d')) \<and>
     fst ` set new \<subseteq> {7} \<and> distinct (map ee_event_id evs')"
proof -
  let ?d = "(sample_daemon (log_holding []))\<lparr>dn_server := (grpc_server (log_holding []))\<lparr>ss_escalation_manager := fresh_manager\<rparr>\<rparr>"
  obtain md where "signed_metadata log_ext ''k'' ''did:mesh:a'' ''m'' = Inr md"
    using signed_metadata_extracted [OF log_ext_simps(1) grpc_sendable [of log_ext "''did:mesh:a''" "''k''"]] by auto
  obtain as d' where r: "daemon_run sample_env [request_task md, execute_task] ?d = (as, d')" by fastforce
  have J: "sv_claims (de_services sample_env) = ac_subject_did" "sv_event_json (de_services sample_env) = (\<lambda>_. Inr ''{}'')"
    by (simp_all add: sample_env_def grpc_services_def sample_services_def)
  have "em_new None (pad32 ''rk'') True empty_fs = (Inr fresh_manager, empty_fs)"
    by (simp add: em_new_def fresh_manager_def)
  then have m: "em_run (sv_ext (de_services sample_env)) (sv_claims (de_services sample_env))
      (sv_event_json (de_services sample_env)) [] [] (ss_escalation_manager (dn_server ?d))"
    by (simp add: em_run.start)
  have i: "List.map_filter request_id [request_task md, execute_task] = [7]"
    by (simp add: map_filter_simps request_task_def execute_task_def sample_moment_def)
  have "distinct (map fst [] @ List.map_filter request_id [request_task md, execute_task])" unfolding i by simp
  from daemon_refines_escalation_manager [OF m this r] r show ?thesis
    unfolding i J sample_env_simps append_Nil list.set by blast
qed

text \<open>A request of the agent on record, signed by it, and an interface that reads its body.\<close>

definition agent_request :: "http_method \<Rightarrow> string \<Rightarrow> http_request" where
  "agent_request meth path = \<lparr>rq_method = meth, rq_path = path,
     rq_headers = sample_headers ''did:mesh:a'' (pad32 ''k'' @ ''hello''), rq_body = Inr ''hello'', rq_peer = ''10.0.0.1:9''\<rparr>"

definition newcomer_axum :: axum where
  "newcomer_axum = any_axum\<lparr>ax_json_register := \<lambda>_ _. Inr \<lparr>rr_identity = sample_identity ''b'' ''pk'', rr_ring = Trusted\<rparr>\<rparr>"

lemma agent_request_signed:
  assumes "X = log_ext \<or> X = uuid_ext"
  shows "signed_request X ''did:mesh:a'' ''k'' ''hello'' (agent_request meth path)"
proof -
  have "header_to_str (pad32 ''k'' @ ''hello'') = Some (pad32 ''k'' @ ''hello'')"
    by (simp add: header_to_str_def byte_in_def pad32_def)
  then show ?thesis using assms
    by (auto simp: signed_request_def agent_request_def sample_headers_str header_to_str_did log_ext_simps)
qed

theorem interfaces_compared_witness:
  "\<exists>md. let sv = grpc_services uuid_ext; st = grpc_server (log_holding []); http = auth_middleware newcomer_axum sv sample_moment;
       approve = \<lparr>pap_request_id = ''7'', pap_approver_did = ''did:mesh:s'', pap_signature_b64 = ''sig''\<rparr> in
     rs_status (fst (http (agent_request POST ''/v1/escalations/7/approve'') st)) = NOT_FOUND \<and>
     snd (grpc_approve sample_grpc_ext sv sample_moment md approve st) =
       snd (approve_escalation_handler sv sample_moment 7 \<lparr>apr_approver_did = ''did:mesh:s'', apr_signature = ''sig''\<rparr> st) \<and>
     ss_registry (snd (grpc_register sample_grpc_ext sv sample_moment md
         \<lparr>prg_identity = Some (to_proto_identity (sample_identity ''b'' ''pk'') Trusted), prg_ring = 2\<rparr> st)) =
       ss_registry (snd (http (agent_request POST ''/v1/agents/register'') st))"
proof -
  let ?sv = "grpc_services uuid_ext" and ?st = "grpc_server (log_holding [])"
  let ?m = "\<lparr>pap_request_id = ''7'', pap_approver_did = ''did:mesh:s'', pap_signature_b64 = ''sig''\<rparr>"
  let ?p = "\<lparr>psp_agent_did = ''did:mesh:a'', psp_policy_json = ''{}''\<rparr>"
  let ?g = "\<lparr>prg_identity = Some (to_proto_identity (sample_identity ''b'' ''pk'') Trusted), prg_ring = 2\<rparr>"
  have X: "sv_ext ?sv = uuid_ext" by (simp add: grpc_services_def sample_services_def)
  have e: "enrolled sample_codec ?sv sample_moment ?st ''did:mesh:a'' ''k'' Sandboxed"
    by (rule grpc_enrolled) simp
  have ax: "literal_patterns newcomer_axum" by (simp add: newcomer_axum_def any_axum_def literal_patterns_def)
  have enc: "gx_enc_approve sample_grpc_ext ?m = ''m''" "gx_enc_set_policy sample_grpc_ext ?p = ''m''"
    "gx_enc_register sample_grpc_ext ?g = ''m''" "gx_enc_list_pending sample_grpc_ext = ''m''"
    by (simp_all add: sample_grpc_ext_def)
  have s: "\<forall>body\<in>{gx_enc_approve sample_grpc_ext ?m, gx_enc_set_policy sample_grpc_ext ?p,
      gx_enc_register sample_grpc_ext ?g, gx_enc_list_pending sample_grpc_ext}. sendable (sv_ext ?sv) ''did:mesh:a'' ''k'' body"
    unfolding X enc by (simp add: grpc_sendable)
  obtain md where md: "signed_metadata (sv_ext ?sv) ''k'' ''did:mesh:a'' ''m'' = Inr md"
    using signed_metadata_extracted [of "sv_ext ?sv" "''did:mesh:a''" "''k''" "''m''"] e s unfolding enc
    by (auto simp: enrolled_def)
  have u: "uuid_parse (sv_ext ?sv) (pap_request_id ?m) = Some 7" unfolding X by (simp add: uuid_ext_def)
  have b: "b64_decode (sv_ext ?sv) (pap_signature_b64 ?m) = Inr ''sig''"
    unfolding X by (simp add: uuid_ext_def log_ext_def toy_ext_def)
  have p: "gx_policy_of_json sample_grpc_ext (psp_policy_json ?p) = Inr sample_policy" by (simp add: sample_grpc_ext_def)
  have g: "prg_identity ?g = Some (to_proto_identity (sample_identity ''b'' ''pk'') Trusted)"
    "from_proto_identity (to_proto_identity (sample_identity ''b'' ''pk'') Trusted) = Inr (sample_identity ''b'' ''pk'')"
    "from_proto_ring (prg_ring ?g) = Inr Trusted"
    by (simp_all add: to_proto_identity_def from_proto_identity_def from_proto_ring_def sample_identity_def
        to_proto_did_def from_proto_did_def)
  have signed: "signed_request (sv_ext ?sv) ''did:mesh:a'' ''k'' ''hello'' (agent_request meth path)" for meth path
    unfolding X by (simp add: agent_request_signed)
  note h = signed [of POST "''/v1/escalations/7/approve''"] signed [of POST "''/v1/agents/x/policy''"]
    signed [of POST "''/v1/agents/register''"] signed [of GET "''/v1/escalations/pending''"]
  have routes: "rq_path (agent_request POST ''/v1/escalations/7/approve'') = ''/v1/escalations/'' @ ''7'' @ ''/approve''"
    "''7'' \<noteq> ''{id}''"
    "rq_path (agent_request POST ''/v1/agents/x/policy'') = ''/v1/agents/'' @ ''x'' @ ''/policy''" "''x'' \<noteq> ''{did}''"
    "rq_path (agent_request POST ''/v1/agents/register'') = ''/v1/agents/register''"
    "rq_method (agent_request POST ''/v1/agents/register'') = POST"
    "ax_json_register newcomer_axum (rq_headers (agent_request POST ''/v1/agents/register'')) ''hello'' =
      Inr \<lparr>rr_identity = sample_identity ''b'' ''pk'', rr_ring = Trusted\<rparr>"
    "rq_path (agent_request GET ''/v1/escalations/pending'') = ''/v1/escalations/pending''"
    "rq_method (agent_request GET ''/v1/escalations/pending'') = GET"
    by (simp_all add: agent_request_def newcomer_axum_def)
  from interfaces_compared [OF e ax s md [folded enc(1)] md [folded enc(2)] md [folded enc(3)] md [folded enc(4)]
      u b p g h routes refl refl refl]
  show ?thesis unfolding Let_def by (intro exI [of _ md]) simp
qed

end
