(* ===== verification/Cli.thy ===== *)
theory Cli
  imports Remote_Http Remote_Policy Keystore_File Gateway Risk Transport
begin

text \<open>
  The command line \<open>agt\<close>, \<open>crates/cli/src/main.rs\<close>: its commands, what each prints and how it
  ends, and the state it leaves in the files and at the daemon it talks to. A command that
  starts a server ends with the state the server starts in. What is read from the environment,
  the clock, the generator of random bytes and the order of maps is the record \<open>cli_env\<close>; the
  third-party code is the record \<open>cli_ext\<close>.
\<close>

section \<open>Surroundings\<close>

datatype dyn_registry = In_memory memory_registry | In_file file_registry

type_synonym daemon_state = "(dyn_registry, memory_key_store, memory_policy_store) server_state"

text \<open>Lines printed: to the standard output, to the error output, and as columns \<open>format!\<close> pads.\<close>

datatype line = Out string | Err_out string | Columns "string list"

text \<open>\<open>Failure\<close>: \<open>main\<close> returns the error; \<open>Exit\<close>: \<open>std::process::exit\<close>.\<close>

datatype cli_end =
    Success
  | Failure string
  | Exit nat
  | Running_daemon daemon_state
  | Running_gateway "(dyn_registry, memory_key_store, memory_policy_store) gateway_state"

text \<open>The files, and the state of the server that calls are sent to.\<close>

record 's world =
  wo_fs :: fs
  wo_server :: 's

record cli_env =
  ce_passphrase :: "string option" \<comment> \<open>\<open>AGT_KEY_PASSPHRASE\<close>\<close>
  ce_registry_pubkey :: "string option" \<comment> \<open>\<open>AGT_REGISTRY_PUBKEY\<close>\<close>
  ce_registry_did :: "string option" \<comment> \<open>\<open>AGT_REGISTRY_DID\<close>\<close>
  ce_dir_exists :: bool \<comment> \<open>whether the key directory exists\<close>
  ce_random :: "nat \<Rightarrow> char"
  ce_now :: datetime
  ce_seen :: "datetime \<times> datetime \<times> datetime"
  ce_uuid :: uuid
  ce_agent_order :: "string list"

text \<open>
  The client of the two gRPC services; the stream of a watch is the alerts it yields and the
  status it ends with, if it is an error.
\<close>

record 's cli_rpc =
  cr_connect :: "string \<Rightarrow> unit res"
  cr_request :: "headers \<Rightarrow> proto_escalation_request \<Rightarrow> 's \<Rightarrow> (grpc_status + string) \<times> 's"
  cr_approve :: "headers \<Rightarrow> proto_approve_request \<Rightarrow> 's \<Rightarrow> (grpc_status + proto_escalation_event) \<times> 's"
  cr_deny :: "headers \<Rightarrow> proto_deny_request \<Rightarrow> 's \<Rightarrow> (grpc_status + proto_escalation_event) \<times> 's"
  cr_list :: "headers \<Rightarrow> 's \<Rightarrow> (grpc_status + proto_escalation_request list) \<times> 's"
  cr_watch :: "headers \<Rightarrow> proto_timestamp option \<Rightarrow> 's \<Rightarrow>
     (grpc_status + shadow_alert list \<times> grpc_status option) \<times> 's"
  cr_status_text :: "grpc_status \<Rightarrow> string"

record 's cli_ext =
  cx_ext :: ext
  cx_keys :: key_crypto
  cx_grpc :: grpc_ext
  cx_log :: log_codec
  cx_registry :: registry_codec
  cx_identity_to_json :: "agent_identity \<Rightarrow> string res"
  cx_identity_of_json :: "string \<Rightarrow> agent_identity res"
  cx_rpc :: "'s cli_rpc"
  cx_net :: "'s network"
  cx_shadows_of_json :: "bytes \<Rightarrow> discovered_agent list res"
  cx_status_text :: "nat \<Rightarrow> string"
  cx_rfc3339 :: "datetime \<Rightarrow> string"
  cx_did_debug :: "proto_did option \<Rightarrow> string" \<comment> \<open>\<open>{:?}\<close>\<close>

type_synonym 's outcome = "line list \<times> cli_end \<times> 's world"

definition unwrap_or :: "'a \<Rightarrow> 'a option \<Rightarrow> 'a" where
  "unwrap_or d x = (case x of None \<Rightarrow> d | Some v \<Rightarrow> v)"

lemma unwrap_or_simps [simp]: "unwrap_or d None = d" "unwrap_or d (Some v) = v"
  by (simp_all add: unwrap_or_def)

text \<open>The end of a command that returns a result.\<close>

definition finish :: "('a \<Rightarrow> line list) \<Rightarrow> 'a res \<times> 's world \<Rightarrow> 's outcome" where
  "finish print rw = (case rw of
       (Inl e, w) \<Rightarrow> ([], Failure e, w)
     | (Inr v, w) \<Rightarrow> (print v, Success, w))"

lemma finish_simps [simp]:
  "finish print (Inl e, w) = ([], Failure e, w)" "finish print (Inr v, w) = (print v, Success, w)"
  by (simp_all add: finish_def)

section \<open>Keys\<close>

definition generate_signing_key :: "cli_env \<Rightarrow> signing_key" where
  "generate_signing_key env = map (ce_random env) [0..<32]"

definition load_key :: "'s cli_ext \<Rightarrow> cli_env \<Rightarrow> string \<Rightarrow> string \<Rightarrow> fs \<Rightarrow> signing_key res \<times> fs" where
  "load_key E env did key_dir w =
     (let passphrase = unwrap_or ''default-passphrase'' (ce_passphrase env) in
      case fks_new (cx_keys E) (ce_dir_exists env) (ce_random env) key_dir passphrase w of
        (Inl e, w') \<Rightarrow> (Inl e, w')
      | (Inr keystore, w') \<Rightarrow>
          (case ks_load (file_keystore_ops (cx_ext E) (cx_keys E)) keystore did of
             (r, keystore') \<Rightarrow> (res_bind r (ok_or ''Key not found''), fks_fs keystore')))"

text \<open>\<open>with_key\<close> goes on with the key of \<open>did\<close>, if it can be loaded.\<close>

definition with_key ::
  "'s cli_ext \<Rightarrow> cli_env \<Rightarrow> string \<Rightarrow> string \<Rightarrow> (signing_key \<Rightarrow> 's \<Rightarrow> 'a res \<times> 's) \<Rightarrow> 's world \<Rightarrow> 'a res \<times> 's world" where
  "with_key E env did key_dir f w =
     (case load_key E env did key_dir (wo_fs w) of
        (Inl e, fs') \<Rightarrow> (Inl e, w\<lparr>wo_fs := fs'\<rparr>)
      | (Inr key, fs') \<Rightarrow> (case f key (wo_server w) of
          (r, s') \<Rightarrow> (r, \<lparr>wo_fs = fs', wo_server = s'\<rparr>)))"

text \<open>Connect to the server, then load the key.\<close>

definition with_client ::
  "'s cli_ext \<Rightarrow> cli_env \<Rightarrow> string \<Rightarrow> string \<Rightarrow> string \<Rightarrow> (signing_key \<Rightarrow> 's \<Rightarrow> 'a res \<times> 's) \<Rightarrow> 's world \<Rightarrow> 'a res \<times> 's world" where
  "with_client E env server did key_dir f w =
     (case cr_connect (cx_rpc E) server of
        Inl e \<Rightarrow> (Inl e, w)
      | Inr _ \<Rightarrow> with_key E env did key_dir f w)"

text \<open>A call with the signature of its encoded message.\<close>

definition signed_call ::
  "'s cli_ext \<Rightarrow> string \<Rightarrow> bytes \<Rightarrow> (headers \<Rightarrow> 's \<Rightarrow> (grpc_status + 'a) \<times> 's) \<Rightarrow> signing_key \<Rightarrow> 's \<Rightarrow> 'a res \<times> 's" where
  "signed_call E did body call key s =
     (case signed_metadata (cx_ext E) key did body of
        Inl e \<Rightarrow> (Inl e, s)
      | Inr md \<Rightarrow> (case call md s of (r, s') \<Rightarrow> (map_err (cr_status_text (cx_rpc E)) r, s')))"

section \<open>\<open>agt escalate\<close>\<close>

fun cli_to_proto_ring :: "privilege_ring \<Rightarrow> int" where
  "cli_to_proto_ring System = 1"
| "cli_to_proto_ring Trusted = 2"
| "cli_to_proto_ring Standard = 3"
| "cli_to_proto_ring Sandboxed = 4"

definition cli_to_proto_timestamp :: "datetime \<Rightarrow> proto_timestamp" where
  "cli_to_proto_timestamp t = \<lparr>ts_seconds = t div 1000000000, ts_nanos = of_int (t mod 1000000000)\<rparr>"

definition escalate_request ::
  "'s cli_ext \<Rightarrow> cli_env \<Rightarrow> string \<Rightarrow> string \<Rightarrow> privilege_ring \<Rightarrow> string \<Rightarrow> string \<Rightarrow> 's world \<Rightarrow> 's outcome" where
  "escalate_request E env server did to_ring reason key_dir w =
     (let req = \<lparr>per_agent_did = did, per_current_ring = cli_to_proto_ring Standard,
            per_requested_ring = cli_to_proto_ring to_ring, per_reason = reason,
            per_timestamp = Some (cli_to_proto_timestamp (ce_now env))\<rparr>
      in finish (\<lambda>request_id. [Out (''Escalation requested. Request ID: '' @ request_id)])
           (with_client E env server did key_dir
              (signed_call E did (gx_enc_escalation (cx_grpc E) req) (\<lambda>md. cr_request (cx_rpc E) md req)) w))"

text \<open>What the command signs as an approval: a fixed agent and the number of the ring Trusted.\<close>

definition cli_approval_payload :: "ext \<Rightarrow> uuid \<Rightarrow> bytes" where
  "cli_approval_payload X i = uuid_str X i @ '':target-agent:'' @ decimal (nat (cli_to_proto_ring Trusted))"

definition escalate_approve ::
  "'s cli_ext \<Rightarrow> cli_env \<Rightarrow> string \<Rightarrow> uuid \<Rightarrow> string \<Rightarrow> string \<Rightarrow> 's world \<Rightarrow> 's outcome" where
  "escalate_approve E env server i approver_did key_dir w =
     finish (\<lambda>event. [Out (''Escalation Approved: '' @ pev_outcome event)])
       (with_client E env server approver_did key_dir
          (\<lambda>signing_key.
             let approval_sig = b64_encode (cx_ext E) (ed_sign (cx_ext E) signing_key (cli_approval_payload (cx_ext E) i));
                 req = \<lparr>pap_request_id = uuid_str (cx_ext E) i, pap_approver_did = approver_did,
                        pap_signature_b64 = approval_sig\<rparr>
             in signed_call E approver_did (gx_enc_approve (cx_grpc E) req)
                  (\<lambda>md. cr_approve (cx_rpc E) md req) signing_key) w)"

definition escalate_deny ::
  "'s cli_ext \<Rightarrow> cli_env \<Rightarrow> string \<Rightarrow> uuid \<Rightarrow> string \<Rightarrow> string \<Rightarrow> string \<Rightarrow> 's world \<Rightarrow> 's outcome" where
  "escalate_deny E env server i approver_did key_dir cause w =
     (let req = \<lparr>pdr_request_id = uuid_str (cx_ext E) i, pdr_approver_did = approver_did, pdr_cause = cause\<rparr>
      in finish (\<lambda>event. [Out (''Escalation Denied: '' @ pev_outcome event)])
           (with_client E env server approver_did key_dir
              (signed_call E approver_did (gx_enc_deny (cx_grpc E) req) (\<lambda>md. cr_deny (cx_rpc E) md req)) w))"

text \<open>\<open>{:?}\<close> of the number of a ring.\<close>

definition int_debug :: "int \<Rightarrow> string" where
  "int_debug i = (if i < 0 then CHR ''-'' # decimal (nat (- i)) else decimal (nat i))"

definition pending_line :: "proto_escalation_request \<Rightarrow> line" where
  "pending_line req = Out (per_agent_did req @ '': requests '' @ int_debug (per_requested_ring req) @
     '' (Reason: '' @ per_reason req @ '')'')"

definition escalate_list ::
  "'s cli_ext \<Rightarrow> cli_env \<Rightarrow> string \<Rightarrow> string \<Rightarrow> string \<Rightarrow> 's world \<Rightarrow> 's outcome" where
  "escalate_list E env server did key_dir w =
     finish (\<lambda>pending. if pending = [] then [Out ''No pending escalation requests.''] else map pending_line pending)
       (with_client E env server did key_dir
          (signed_call E did (gx_enc_list_pending (cx_grpc E)) (cr_list (cx_rpc E))) w)"

section \<open>\<open>agt daemon\<close> and \<open>agt gateway\<close>\<close>

text \<open>\<open>Arc<dyn AgentRegistry>\<close>: an operation is the one of the registry at hand.\<close>

fun dyn_lift ::
  "(memory_registry \<Rightarrow> 'a \<times> memory_registry) \<Rightarrow> (file_registry \<Rightarrow> 'a \<times> file_registry) \<Rightarrow> dyn_registry \<Rightarrow> 'a \<times> dyn_registry" where
  "dyn_lift f g (In_memory m) = (case f m of (r, m') \<Rightarrow> (r, In_memory m'))"
| "dyn_lift f g (In_file s) = (case g s of (r, s') \<Rightarrow> (r, In_file s'))"

definition dyn_registry_ops :: "ext \<Rightarrow> claim_json \<Rightarrow> registry_codec \<Rightarrow> dyn_registry registry_ops" where
  "dyn_registry_ops X J C =
     (let M = memory_registry_ops X J; F = file_registry_ops X J C in
      \<lparr>reg_register = (\<lambda>s i r. dyn_lift (\<lambda>m. reg_register M m i r) (\<lambda>f. reg_register F f i r) s),
       reg_get_attestation = (\<lambda>t s d. dyn_lift (\<lambda>m. reg_get_attestation M t m d) (\<lambda>f. reg_get_attestation F t f d) s),
       reg_get_ring = (\<lambda>s d. dyn_lift (\<lambda>m. reg_get_ring M m d) (\<lambda>f. reg_get_ring F f d) s),
       reg_is_registered = (\<lambda>s d. dyn_lift (\<lambda>m. reg_is_registered M m d) (\<lambda>f. reg_is_registered F f d) s)\<rparr>)"

record daemon_options =
  do_audit_log :: "string option"
  do_action_log :: "string option"
  do_registry_log :: "string option"
  do_siem_endpoint :: "string option"
  do_siem_token :: "string option"
  do_init :: bool

definition quoted :: "string \<Rightarrow> string" where
  "quoted s = CHR 0x22 # s @ [CHR 0x22]"

text \<open>The key pair of \<open>--init\<close>: the public key is printed, the secret one is dropped.\<close>

definition daemon_init :: "'s cli_ext \<Rightarrow> cli_env \<Rightarrow> line list" where
  "daemon_init E env =
     (let registry_key = generate_signing_key env;
          registry_pubkey = b64_encode (cx_ext E) (public_bytes (cx_ext E) registry_key);
          registry_did = ''did:mesh:registry-'' @ take 8 (uuid_simple (cx_ext E) (ce_uuid env))
      in [Out ''Generating registry keypair...'', Out (''Registry DID: '' @ registry_did),
          Out (''Registry public key: '' @ registry_pubkey), Out (nl # ''Add to agt.toml:''),
          Out ''  [registry]'', Out (''  did = '' @ quoted registry_did),
          Out (''  public_key = '' @ quoted registry_pubkey)])"

definition open_registry ::
  "'s cli_ext \<Rightarrow> cli_env \<Rightarrow> string option \<Rightarrow> string \<Rightarrow> fs \<Rightarrow> dyn_registry res \<times> fs" where
  "open_registry E env registry_log registry_did w = (case registry_log of
       Some path \<Rightarrow>
         (case fr_open (cx_registry E) path (generate_signing_key env) registry_did w of
            (r, w') \<Rightarrow> (map_sum id In_file r, w'))
     | None \<Rightarrow> (Inr (In_memory (mr_new (generate_signing_key env) registry_did)), w))"

definition server_new ::
  "ext \<Rightarrow> dyn_registry \<Rightarrow> escalation_manager \<Rightarrow> file_action_log \<Rightarrow> bool \<Rightarrow> string \<Rightarrow> daemon_state" where
  "server_new X registry manager alog siem registry_pubkey =
     \<lparr>ss_registry = registry, ss_key_store = mks_new, ss_policy_store = mps_new,
      ss_escalation_manager = manager, ss_discovery_manager = dm_new,
      ss_compliance_verifier = default_policy X, ss_action_log = alog,
      ss_siem_exporter = siem, ss_exported = [], ss_registry_pubkey = registry_pubkey\<rparr>"

definition run_daemon :: "'s cli_ext \<Rightarrow> cli_env \<Rightarrow> daemon_options \<Rightarrow> 's world \<Rightarrow> 's outcome" where
  "run_daemon E env opts w =
     (if do_init opts then (daemon_init E env, Success, w) else
      let registry_pubkey = unwrap_or ''placeholder-replace-me'' (ce_registry_pubkey env);
          registry_did = unwrap_or ''did:mesh:registry'' (ce_registry_did env);
          siem = (do_siem_endpoint opts \<noteq> None \<and> do_siem_token opts \<noteq> None)
      in case fal_open (cx_log E) (unwrap_or ''action-log.jsonl'' (do_action_log opts)) (wo_fs w) of
           (Inl e, w1) \<Rightarrow> ([], Failure e, w\<lparr>wo_fs := w1\<rparr>)
         | (Inr alog, w1) \<Rightarrow> (case open_registry E env (do_registry_log opts) registry_did w1 of
             (Inl e, w2) \<Rightarrow> ([], Failure e, w\<lparr>wo_fs := w2\<rparr>)
           | (Inr registry, w2) \<Rightarrow> (case em_new (do_audit_log opts) registry_pubkey siem w2 of
               (Inl e, w3) \<Rightarrow> ([], Failure e, w\<lparr>wo_fs := w3\<rparr>)
             | (Inr manager, w3) \<Rightarrow>
                 ([], Running_daemon (server_new (cx_ext E) registry manager alog siem registry_pubkey),
                  w\<lparr>wo_fs := w3\<rparr>))))"

definition start_gateway ::
  "'s cli_ext \<Rightarrow> cli_env \<Rightarrow> string \<Rightarrow> string \<Rightarrow> string option \<Rightarrow> 's world \<Rightarrow> 's outcome" where
  "start_gateway E env listen upstream action_log w =
     (let registry_pubkey = unwrap_or ''placeholder'' (ce_registry_pubkey env) in
      case fal_open (cx_log E) (unwrap_or ''gateway-action-log.jsonl'' action_log) (wo_fs w) of
        (Inl e, w1) \<Rightarrow> ([], Failure e, w\<lparr>wo_fs := w1\<rparr>)
      | (Inr alog, w1) \<Rightarrow> (case em_new None registry_pubkey False w1 of
          (Inl e, w2) \<Rightarrow> ([], Failure e, w\<lparr>wo_fs := w2\<rparr>)
        | (Inr manager, w2) \<Rightarrow>
            ([Out (''Starting AGT Gateway on '' @ listen @ '' -> '' @ upstream)],
             Running_gateway (gateway_new (server_new (cx_ext E)
               (In_memory (mr_new (generate_signing_key env) ''did:mesh:registry'')) manager alog False registry_pubkey)
               upstream),
             w\<lparr>wo_fs := w2\<rparr>)))"

section \<open>\<open>agt discovery\<close> and \<open>agt log\<close>\<close>

definition fetch_shadows_http ::
  "'s cli_ext \<Rightarrow> string \<Rightarrow> string \<Rightarrow> signing_key \<Rightarrow> 's \<Rightarrow> discovered_agent list res \<times> 's" where
  "fetch_shadows_http E server did signing_key s =
     (case send_signed (cx_ext E) (cx_net E) \<lparr>rc_base_url = server, rc_registry_pubkey = [],
             rc_agent_did = did, rc_signing_key = signing_key\<rparr> GET ''/v1/discovery/shadows'' [] s of
        (Inl e, s') \<Rightarrow> (Inl e, s')
      | (Inr (status, body), s') \<Rightarrow>
          (if is_success status then cx_shadows_of_json E body
           else Inl (''Server error: '' @ cx_status_text E status), s'))"

definition source_debug :: "discovery_source \<Rightarrow> string" where
  "source_debug s = (case s of Active \<Rightarrow> ''Active'' | Passive \<Rightarrow> ''Passive'')"

definition print_shadows :: "(datetime \<Rightarrow> string) \<Rightarrow> discovered_agent list \<Rightarrow> line list" where
  "print_shadows rfc3339 shadows =
     (if shadows = [] then [Out ''No shadow agents detected.'']
      else Columns [''DID'', ''Source'', ''Last Seen'', ''Transport''] #
        map (\<lambda>s. Columns [did_display (da_did s), source_debug (da_source s), rfc3339 (da_last_seen s),
          da_transport_address s]) shadows)"

definition discovery_scan ::
  "'s cli_ext \<Rightarrow> cli_env \<Rightarrow> string \<Rightarrow> string \<Rightarrow> string \<Rightarrow> 's world \<Rightarrow> 's outcome" where
  "discovery_scan E env server approver_did key_dir w =
     finish (print_shadows (cx_rfc3339 E))
       (with_key E env approver_did key_dir (fetch_shadows_http E server approver_did) w)"

definition alert_lines :: "'s cli_ext \<Rightarrow> shadow_alert \<Rightarrow> line list" where
  "alert_lines E a = [Out (nl # ''[ALERT] Shadow Agent Detected!''), Out (''  DID: '' @ cx_did_debug E (sal_did a)),
     Out (''  Name: '' @ sal_name a), Out (''  Transport: '' @ sal_transport_address a)]"

text \<open>The key is loaded before the connection is made.\<close>

definition grpc_discovery_watch ::
  "'s cli_ext \<Rightarrow> cli_env \<Rightarrow> string \<Rightarrow> string \<Rightarrow> string \<Rightarrow> 's world \<Rightarrow> 's outcome" where
  "grpc_discovery_watch E env server did key_dir w =
     (case load_key E env did key_dir (wo_fs w) of
        (Inl e, fs') \<Rightarrow> ([], Failure e, w\<lparr>wo_fs := fs'\<rparr>)
      | (Inr key, fs') \<Rightarrow>
          let hello = Out (''Watching for shadow agents on '' @ server @ '' (gRPC)...'');
              w1 = w\<lparr>wo_fs := fs'\<rparr>
          in (case cr_connect (cx_rpc E) server of
                Inl e \<Rightarrow> ([hello], Failure e, w1)
              | Inr _ \<Rightarrow> (case signed_call E did (gx_enc_watch_shadows (cx_grpc E) None)
                                (\<lambda>md. cr_watch (cx_rpc E) md None) key (wo_server w1) of
                  (Inl e, s') \<Rightarrow> ([hello], Failure e, w1\<lparr>wo_server := s'\<rparr>)
                | (Inr (alerts, last_status), s') \<Rightarrow>
                    (hello # concat (map (alert_lines E) alerts),
                     (case last_status of None \<Rightarrow> Success | Some st \<Rightarrow> Failure (cr_status_text (cx_rpc E) st)),
                     w1\<lparr>wo_server := s'\<rparr>))))"

text \<open>The check mark and the cross that are printed, in UTF-8.\<close>

definition check_mark :: string where "check_mark = [CHR 0xE2, CHR 0x9C, CHR 0x93]"
definition ballot_x :: string where "ballot_x = [CHR 0xE2, CHR 0x9C, CHR 0x97]"

definition violation_line :: "ext \<Rightarrow> chain_violation \<Rightarrow> line" where
  "violation_line X v = Out (''    Violation at index '' @ decimal (cv_index v) @ '': Record '' @
     uuid_str X (cv_record_id v) @ '' has unexpected prev_hash'')"

definition log_verify :: "'s cli_ext \<Rightarrow> string \<Rightarrow> 's world \<Rightarrow> 's outcome" where
  "log_verify E log_file w =
     (case fal_open (cx_log E) log_file (wo_fs w) of
        (Inl e, w1) \<Rightarrow> ([], Failure e, w\<lparr>wo_fs := w1\<rparr>)
      | (Inr alog, w1) \<Rightarrow> (case fal_verify_chain (cx_ext E) (cx_log E) alog of
          (Inl e, alog') \<Rightarrow> ([], Failure e, w\<lparr>wo_fs := fal_fs alog'\<rparr>)
        | (Inr vs, alog') \<Rightarrow>
            if vs = []
            then ([Out (''  '' @ check_mark @ '' Chain intact'')], Success, w\<lparr>wo_fs := fal_fs alog'\<rparr>)
            else (Out (''  '' @ ballot_x @ '' Chain compromised: '' @ decimal (length vs) @
                    '' violations detected'') # map (violation_line (cx_ext E)) vs,
                  Exit 1, w\<lparr>wo_fs := fal_fs alog'\<rparr>)))"

section \<open>\<open>agt run\<close>, \<open>agt status\<close> and \<open>agt policy\<close>\<close>

definition demo_tools :: policy_enforcer where
  "demo_tools =
     (let enforcer = register_tool enforcer_new \<lparr>mt_name = ''delete_database'',
            mt_description = ''Deletes the production database'', mt_required_ring = System,
            mt_default_category = FinancialRecord, mt_classification_rules = []\<rparr>
      in register_tool enforcer \<lparr>mt_name = ''read_logs'', mt_description = ''Reads application logs'',
            mt_required_ring = Standard, mt_default_category = AuditLog, mt_classification_rules = []\<rparr>)"

definition test_tool_call ::
  "policy_enforcer \<Rightarrow> memory_policy_store \<Rightarrow> string \<Rightarrow> privilege_ring \<Rightarrow> string \<Rightarrow> line \<times> memory_policy_store" where
  "test_tool_call enforcer store did ring tool =
     (case can_call_tool memory_policy_ops enforcer store did ring tool of
        (True, store') \<Rightarrow> (Out (''  [OK]  '' @ did @ '' authorized for '' @ tool), store')
      | (False, store') \<Rightarrow> (Out (''  [DENY] '' @ did @ '' forbidden from using '' @ tool), store'))"

text \<open>The discovery audit: \<open>ks\<close> is the order the agents are iterated in.\<close>

definition demo_audit :: "string list \<Rightarrow> agent_identity \<Rightarrow> discovery_manager \<Rightarrow> line list" where
  "demo_audit ks identity discovery =
     (let did_str = did_display (ai_did identity);
          shadows = detect_shadow_agents ks discovery;
          shadows_after = detect_shadow_agents ks (register_agent did_str discovery)
      in [Out (nl # ''Running Discovery Audit:'')] @
         (if \<exists>a\<in>set shadows. da_did a = ai_did identity
          then [Out (''  [ALERT] Agent '' @ did_str @ '' is currently a shadow agent (unregistered in discovery).'')]
          else []) @
         [Out (''  [INFO] Registering agent '' @ did_str @ ''...'')] @
         (if shadows_after = [] then [Out ''  [OK] No shadow agents detected.''] else []))"

definition demo_calls :: "string \<Rightarrow> privilege_ring \<Rightarrow> line list" where
  "demo_calls did ring =
     (case test_tool_call demo_tools mps_new did ring ''read_logs'' of
        (l1, store) \<Rightarrow> [Out (nl # ''Testing tool calls:''), l1,
          fst (test_tool_call demo_tools store did ring ''delete_database'')])"

definition run_agent :: "'s cli_ext \<Rightarrow> cli_env \<Rightarrow> string \<Rightarrow> privilege_ring \<Rightarrow> line list \<times> cli_end" where
  "run_agent E env name ring =
     (let starting = Out (''Starting agent: '' @ name @ '' with ring: '' @ ring_display ring) in
      case identity_create (cx_ext E) (generate_signing_key env) name ''admin@example.com''
             [''compute'', ''storage''] None (Some (memory_keystore_ops, mks_new)) of
        (Inl e, _) \<Rightarrow> ([starting], Failure e)
      | (Inr identity, keystore) \<Rightarrow>
          let did_str = did_display (ai_did identity);
              created = [starting, Out (''Agent Identity created: '' @ did_str)];
              discovery = report_presence (ce_seen env) (ai_did identity) (ai_name identity)
                ''local://direct'' Active dm_new
          in (case cx_identity_to_json E identity of
                Inl e \<Rightarrow> (created, Failure e)
              | Inr identity_json \<Rightarrow>
                  (case identity_load (cx_identity_of_json E) identity_json memory_keystore_ops (the keystore) of
                     (Inl e, _) \<Rightarrow> (created, Failure e)
                   | (Inr loaded_identity, _) \<Rightarrow>
                       (created @
                        [Out (if ai_private_key loaded_identity \<noteq> None
                              then ''Success: Identity private key recovered from KeyStore round-trip.''
                              else ''Warning: Identity private key missing after round-trip!'')] @
                        demo_audit (ce_agent_order env) identity discovery @
                        demo_calls did_str ring @
                        [Out (nl # ''Agent '' @ name @ '' is now running (simulated).'')],
                        Success))))"

definition agent_status :: "string \<Rightarrow> line list \<times> cli_end" where
  "agent_status did =
     (let querying = Out (''Querying status for agent: '' @ did) in
      case get_score scorer_new did of
        Some score \<Rightarrow>
          ([querying, Out ''Risk Score Report:'',
            Out (''  Total Score: '' @ decimal (unat (sc_total_score score))),
            Out (''  Identity Score: '' @ decimal (unat (sc_identity_score score))),
            Out (''  Behavior Score: '' @ decimal (unat (sc_behavior_score score))),
            Out ''  Status: active''], Success)
      | None \<Rightarrow>
          ([querying, Err_out (''Error: Agent with DID '' @ [CHR 0x27] @ did @ [CHR 0x27] @ '' not found in registry.'')],
           Exit 1))"

text \<open>\<open>{:?}\<close> of a category and a ring are the names of their constructors.\<close>

definition category_debug :: "data_category \<Rightarrow> string" where
  "category_debug c = (case c of
       PersonalData \<Rightarrow> ''PersonalData''
     | FinancialRecord \<Rightarrow> ''FinancialRecord''
     | AuditLog \<Rightarrow> ''AuditLog''
     | SystemConfig \<Rightarrow> ''SystemConfig''
     | Unknown \<Rightarrow> ''Unknown'')"

definition policy_register_tool :: "string \<Rightarrow> data_category \<Rightarrow> privilege_ring \<Rightarrow> line list" where
  "policy_register_tool name category ring =
     [Out (''Registering tool: '' @ name @ '' ('' @ category_debug category @ '', '' @ ring_display ring @ '')''),
      Out (''  '' @ check_mark @ '' Tool registered successfully'')]"

definition policy_list_tools :: "line list" where
  "policy_list_tools = [Out ''Registered Tools:'', Out ''  - read_logs (AuditLog, Standard)'',
     Out ''  - delete_database (FinancialRecord, System)'']"

section \<open>Commands\<close>

datatype escalate_command =
    Request string string privilege_ring string string
  | Approve string uuid string string
  | Deny_request string uuid string string string
  | List_requests string string string

datatype command =
    Run string privilege_ring
  | Status string
  | Escalate escalate_command
  | Start_daemon daemon_options
  | Scan string string string
  | Watch string string string
  | Verify string
  | Start_gateway string string "string option"
  | Register_tool string data_category privilege_ring string
  | List_tools

fun escalate_main :: "'s cli_ext \<Rightarrow> cli_env \<Rightarrow> escalate_command \<Rightarrow> 's world \<Rightarrow> 's outcome" where
  "escalate_main E env (Request server did to_ring reason key_dir) w =
     escalate_request E env server did to_ring reason key_dir w"
| "escalate_main E env (Approve server i approver_did key_dir) w =
     escalate_approve E env server i approver_did key_dir w"
| "escalate_main E env (Deny_request server i approver_did key_dir cause) w =
     escalate_deny E env server i approver_did key_dir cause w"
| "escalate_main E env (List_requests server did key_dir) w = escalate_list E env server did key_dir w"

fun cli_main :: "'s cli_ext \<Rightarrow> cli_env \<Rightarrow> command \<Rightarrow> 's world \<Rightarrow> 's outcome" where
  "cli_main E env (Run name ring) w = (case run_agent E env name ring of (ls, e) \<Rightarrow> (ls, e, w))"
| "cli_main E env (Status did) w = (case agent_status did of (ls, e) \<Rightarrow> (ls, e, w))"
| "cli_main E env (Escalate c) w = escalate_main E env c w"
| "cli_main E env (Start_daemon opts) w = run_daemon E env opts w"
| "cli_main E env (Scan server approver_did key_dir) w = discovery_scan E env server approver_did key_dir w"
| "cli_main E env (Watch server approver_did key_dir) w = grpc_discovery_watch E env server approver_did key_dir w"
| "cli_main E env (Verify log_file) w = log_verify E log_file w"
| "cli_main E env (Start_gateway listen upstream action_log) w = start_gateway E env listen upstream action_log w"
| "cli_main E env (Register_tool name category ring description) w =
     (policy_register_tool name category ring, Success, w)"
| "cli_main E env List_tools w = (policy_list_tools, Success, w)"

end
