(* ===== verification/Cli_Runs.thy ===== *)
theory Cli_Runs
  imports Cli Grpc_Safety
begin

text \<open>
  Two commands that need no server: \<open>agt log verify\<close>, which tells an intact action log from a
  broken one by its exit status and names the broken links, and \<open>agt run\<close>, whose
  demonstration denies every tool call. The sample surroundings of the command line, for the
  witnesses, stand here as well.
\<close>

section \<open>Sample surroundings\<close>

definition sample_cli :: "ext \<Rightarrow> 's cli_rpc \<Rightarrow> 's cli_ext" where
  "sample_cli X net = \<lparr>cx_ext = X, cx_keys = sample_key_crypto, cx_grpc = sample_grpc_ext, cx_log = sample_log_codec,
     cx_registry = sample_codec, cx_identity_to_json = \<lambda>_. Inr ''{}'', cx_identity_of_json = \<lambda>_. Inl ''EOF'',
     cx_rpc = net, cx_net = \<lambda>_ s. (Inl ''refused'', s), cx_shadows_of_json = \<lambda>_. Inr [],
     cx_status_text = \<lambda>_. [], cx_rfc3339 = \<lambda>_. [], cx_did_debug = \<lambda>_. []\<rparr>"

definition no_rpc :: "'s cli_rpc" where
  "no_rpc = \<lparr>cr_connect = \<lambda>_. Inl ''refused'', cr_request = \<lambda>_ _ s. (Inl (Internal, []), s),
     cr_approve = \<lambda>_ _ s. (Inl (Internal, []), s), cr_deny = \<lambda>_ _ s. (Inl (Internal, []), s),
     cr_list = \<lambda>_ s. (Inl (Internal, []), s), cr_watch = \<lambda>_ _ s. (Inl (Internal, []), s),
     cr_status_text = \<lambda>_. []\<rparr>"

definition sample_env :: cli_env where
  "sample_env = \<lparr>ce_passphrase = None, ce_registry_pubkey = None, ce_registry_did = None, ce_dir_exists = True,
     ce_random = \<lambda>_. CHR ''r'', ce_now = 0, ce_seen = (0, 0, 0), ce_uuid = 3, ce_agent_order = []\<rparr>"

definition empty_world :: "unit world" where
  "empty_world = \<lparr>wo_fs = empty_fs, wo_server = ()\<rparr>"

section \<open>The demonstration run\<close>

text \<open>The policy store of the run is a fresh one, without a policy for anybody.\<close>

lemma demo_calls_denied:
  "demo_calls did ring = [Out (nl # ''Testing tool calls:''),
     Out (''  [DENY] '' @ did @ '' forbidden from using read_logs''),
     Out (''  [DENY] '' @ did @ '' forbidden from using delete_database'')]"
proof -
  have "\<not> mps_poisoned mps_new" "mps_policies mps_new = Map.empty" by (simp_all add: mps_new_def)
  then have "test_tool_call demo_tools mps_new did ring tool = (Out (''  [DENY] '' @ did @ '' forbidden from using '' @ tool), mps_new)" for tool
    by (auto simp: test_tool_call_def can_call_tool_def mps.evaluate_decision decision_allow_iff split: bool.split)
  then show ?thesis by (simp add: demo_calls_def)
qed

lemma demo_audit_alerts:
  assumes "ks = [did_display (ai_did i)]" "discovery = report_presence t (ai_did i) name address Active dm_new"
  shows "demo_audit ks i discovery = [Out (nl # ''Running Discovery Audit:''),
     Out (''  [ALERT] Agent '' @ did_display (ai_did i) @ '' is currently a shadow agent (unregistered in discovery).''),
     Out (''  [INFO] Registering agent '' @ did_display (ai_did i) @ ''...''),
     Out ''  [OK] No shadow agents detected.'']"
  using assms
  by (cases t) (simp add: demo_audit_def detect_shadow_agents_def map_values_def map_filter_simps report_presence_def
      dm_new_def register_agent_def Let_def)

lemma create_saves:
  "\<exists>i ks. identity_create X rng name sponsor caps org (Some (memory_keystore_ops, mks_new)) = (Inr i, Some ks) \<and>
    ks_save memory_keystore_ops mks_new (did_display (agent_did_new X name org)) rng = (Inr (), ks)"
  by (simp add: identity_create_def Let_def mks_defs mks_new_def)

section \<open>Opening a log\<close>

text \<open>With no failure ahead the file is created when missing and kept otherwise.\<close>

lemma fal_open_reads:
  assumes "script w = []"
    and "\<And>t. files w (with_extension ''checkpoint'' path) = Some t \<Longrightarrow> utf8_valid t"
  shows "\<exists>s. fal_open L path w = (Inr s, fal_fs s) \<and> fal_path s = path \<and>
    fal_fs s = w\<lparr>files := (files w)(path \<mapsto> (case files w path of None \<Rightarrow> [] | Some c \<Rightarrow> c))\<rparr>"
proof (cases "files w (with_extension ''checkpoint'' path)")
  case None
  then show ?thesis using assms(1) by (simp add: fal_open_def fs_defs Let_def)
next
  case (Some t)
  with assms(2) have "utf8_valid t" by simp
  with Some assms(1) show ?thesis
    by (cases "lc_cp_of_json L t") (simp_all add: fal_open_def fs_defs fs_read_to_string_def Let_def)
qed

section \<open>Properties\<close>

text \<open>
  \<open>agt log verify\<close> ends successfully exactly when every record is linked to the one before
  it, and otherwise with exit status 1 and one line per broken link, in order. A missing log
  counts as an empty, intact one and is created by the command.
\<close>

theorem log_verify_iff:
  assumes "script (wo_fs w) = []"
    and "\<And>t. files (wo_fs w) (with_extension ''checkpoint'' log_file) = Some t \<Longrightarrow> utf8_valid t"
    and "(case files (wo_fs w) log_file of None \<Rightarrow> [] | Some c \<Rightarrow> c) = unlines (map (log_json (cx_log E)) rs)"
    and "\<forall>r\<in>set rs. log_json_ok (cx_log E) r"
    and "broken = filter (\<lambda>j. al_prev_hash (rs ! j) \<noteq>
      (if j = 0 then genesis else compute_hash (cx_ext E) (cx_log E) (rs ! (j - 1)))) [0..<length rs]"
    and "cli_main E env (Verify log_file) w = (ls, e, w')"
  shows "(if broken = [] then e = Success \<and> ls = [Out (''  '' @ check_mark @ '' Chain intact'')]
     else e = Exit 1 \<and> (\<exists>vs. map cv_index vs = broken \<and> tl ls = map (violation_line (cx_ext E)) vs)) \<and>
    files (wo_fs w') = (files (wo_fs w))(log_file \<mapsto> unlines (map (log_json (cx_log E)) rs))"
proof -
  obtain s where s: "fal_open (cx_log E) log_file (wo_fs w) = (Inr s, fal_fs s)" "fal_path s = log_file"
    "fal_fs s = (wo_fs w)\<lparr>files := (files (wo_fs w))(log_file \<mapsto> unlines (map (log_json (cx_log E)) rs))\<rparr>"
    using fal_open_reads [OF assms(1,2)] assms(3) by metis
  have "fal_holds (cx_log E) rs s" using s(2,3) assms(1,4) by (simp add: fal_holds_def)
  note v = fal_holds_reads(1) [OF this, of "cx_ext E"]
  have "map cv_index (violations (cx_ext E) (cx_log E) 0 genesis rs) = broken"
    using violation_indices [of "cx_ext E" "cx_log E" 0 genesis rs] assms(5) by (simp add: expected_prev_def)
  then show ?thesis
    using assms(6) s v by (auto simp: log_verify_def split: if_splits)
qed

theorem log_verify_iff_witness:
  "\<exists>(w :: unit world) ls w' v. files (wo_fs w) ''l'' \<noteq> None \<and>
    cli_main (sample_cli log_ext no_rpc) sample_env (Verify ''l'') w = (ls, Exit 1, w') \<and>
    tl ls = [violation_line log_ext v] \<and> cv_index v = 0"
proof -
  let ?r = "(sample_record ''x'')\<lparr>al_prev_hash := ''h2''\<rparr>"
  let ?E = "sample_cli log_ext no_rpc :: unit cli_ext"
  let ?w = "empty_world\<lparr>wo_fs := empty_fs\<lparr>files := [''l'' \<mapsto> unlines (map (log_json (cx_log ?E)) [?r])]\<rparr>\<rparr>"
  obtain ls e w' where run: "cli_main ?E sample_env (Verify ''l'') ?w = (ls, e, w')"
    by (cases "cli_main ?E sample_env (Verify ''l'') ?w") blast
  have cp: "with_extension ''checkpoint'' ''l'' \<noteq> ''l''" by (simp add: with_extension_def)
  have ok: "\<forall>r\<in>set [?r]. log_json_ok (cx_log ?E) r" using sample_json_ok by (simp add: sample_cli_def)
  have broken: "[0] = filter (\<lambda>j. al_prev_hash ([?r] ! j) \<noteq>
      (if j = 0 then genesis else compute_hash (cx_ext ?E) (cx_log ?E) ([?r] ! (j - 1)))) [0..<length [?r]]"
    by (simp add: genesis_def)
  have "e = Exit 1 \<and> (\<exists>vs. map cv_index vs = [0] \<and> tl ls = map (violation_line log_ext) vs)"
    using log_verify_iff [OF _ _ _ ok broken run] cp by (simp add: empty_fs_def sample_cli_def)
  then obtain v where "e = Exit 1" "tl ls = [violation_line log_ext v]" "cv_index v = 0"
    by (auto simp: map_eq_Cons_conv)
  moreover have "files (wo_fs ?w) ''l'' \<noteq> None" by simp
  ultimately show ?thesis using run by blast
qed

text \<open>
  \<open>agt run\<close> in full, for an identity that survives serialisation but for its private key: it
  gets the key back from the store, meets itself as a shadow agent, registers itself, and is
  denied both of its tool calls, whatever ring it is run with.
\<close>

theorem demo_denies_every_call:
  assumes "fst (identity_create (cx_ext E) (generate_signing_key env) name ''admin@example.com''
      [''compute'', ''storage''] None (Some (memory_keystore_ops, mks_new))) = Inr i"
    and "cx_identity_to_json E i = Inr j" and "cx_identity_of_json E j = Inr (i\<lparr>ai_private_key := None\<rparr>)"
    and "did = did_display (agent_did_new (cx_ext E) name None)" and "ce_agent_order env = [did]"
  shows "cli_main E env (Run name ring) w =
    ([Out (''Starting agent: '' @ name @ '' with ring: '' @ ring_display ring),
      Out (''Agent Identity created: '' @ did),
      Out ''Success: Identity private key recovered from KeyStore round-trip.'',
      Out (nl # ''Running Discovery Audit:''),
      Out (''  [ALERT] Agent '' @ did @ '' is currently a shadow agent (unregistered in discovery).''),
      Out (''  [INFO] Registering agent '' @ did @ ''...''),
      Out ''  [OK] No shadow agents detected.'',
      Out (nl # ''Testing tool calls:''),
      Out (''  [DENY] '' @ did @ '' forbidden from using read_logs''),
      Out (''  [DENY] '' @ did @ '' forbidden from using delete_database''),
      Out (nl # ''Agent '' @ name @ '' is now running (simulated).'')], Success, w)"
proof -
  obtain ks where c: "identity_create (cx_ext E) (generate_signing_key env) name ''admin@example.com''
      [''compute'', ''storage''] None (Some (memory_keystore_ops, mks_new)) = (Inr i, Some ks)"
    and sv: "ks_save memory_keystore_ops mks_new did (generate_signing_key env) = (Inr (), ks)"
    using create_saves [of "cx_ext E" "generate_signing_key env" name "''admin@example.com''" "[''compute'', ''storage'']" None]
      assms(1,4) by (elim exE conjE) simp
  have i: "did_display (ai_did i) = did" "ai_name i = name"
    using identity_create_ok [OF c] assms(4) by simp_all
  have "\<not> mks_poisoned mks_new" by (simp add: mks_new_def)
  from mks.load_after_save [OF this _ _ sv]
  have "fst (ks_load memory_keystore_ops ks did) = Inr (Some (generate_signing_key env))" by simp
  then obtain ks' where "ks_load memory_keystore_ops ks did = (Inr (Some (generate_signing_key env)), ks')"
    by (cases "ks_load memory_keystore_ops ks did") simp
  then have load: "identity_load (cx_identity_of_json E) j memory_keystore_ops ks = (Inr i', ks')"
      if "i' = i\<lparr>ai_private_key := Some (generate_signing_key env)\<rparr>" for i'
    using that i(1) assms(3) by (simp add: identity_load_def)
  have pk: "ai_private_key (i\<lparr>ai_private_key := Some (generate_signing_key env)\<rparr>) \<noteq> None = True" by simp
  note audit = demo_audit_alerts [of "ce_agent_order env" i _ "ce_seen env" "ai_name i" "''local://direct''", unfolded i(1), OF assms(5) refl]
  show ?thesis
    by (simp only: cli_main.simps run_agent_def c Let_def prod.case sum.case option.sel i assms(2) load [OF refl] pk if_True
        demo_calls_denied audit [unfolded i(2)] append_Cons append_Nil)
qed

theorem demo_denies_every_call_witness:
  "\<exists>E env ls w. cli_main E env (Run ''bot'' System) (w :: unit world) = (ls, Success, w) \<and>
    Out (''  [DENY] '' @ did_display (agent_did_new toy_ext ''bot'' None) @ '' forbidden from using read_logs'') \<in> set ls"
proof -
  let ?did = "did_display (agent_did_new toy_ext ''bot'' None)"
  let ?env = "sample_env\<lparr>ce_agent_order := [?did]\<rparr>"
  let ?create = "identity_create toy_ext (generate_signing_key ?env) ''bot'' ''admin@example.com''
      [''compute'', ''storage''] None (Some (memory_keystore_ops, mks_new))"
  obtain i where i: "fst ?create = Inr i" using create_saves by (metis fst_conv)
  let ?E = "(sample_cli toy_ext no_rpc)\<lparr>cx_identity_of_json := \<lambda>_. Inr (i\<lparr>ai_private_key := None\<rparr>)\<rparr>"
  have E: "cx_ext ?E = toy_ext" "cx_identity_to_json ?E i = Inr ''{}''"
    "cx_identity_of_json ?E ''{}'' = Inr (i\<lparr>ai_private_key := None\<rparr>)" "ce_agent_order ?env = [?did]"
    by (simp_all add: sample_cli_def)
  show ?thesis
    by (intro exI conjI, rule demo_denies_every_call [of ?E ?env "''bot''" i "''{}''" ?did, unfolded E(1), OF i E(2,3) refl E(4)])
      (simp only: list.set insert_iff simp_thms)
qed

end
