(* ===== verification/Cli_Safety.thy ===== *)
theory Cli_Safety
  imports Cli_Runs
begin

text \<open>
  What the commands do when the program's own daemon is at the other end: an approval made
  with \<open>agt escalate approve\<close> is never accepted, a daemon whose configured public key is not
  that of the key it drew authenticates nobody, and a gateway forwards nothing.
\<close>

section \<open>The registry behind a trait object\<close>

fun dyn_entries :: "dyn_registry \<Rightarrow> entries" where
  "dyn_entries (In_memory m) = mr_entries m"
| "dyn_entries (In_file f) = mr_entries (fr_memory f)"

fun dyn_usable :: "registry_codec \<Rightarrow> dyn_registry \<Rightarrow> bool" where
  "dyn_usable C (In_memory m) \<longleftrightarrow> \<not> mr_poisoned m"
| "dyn_usable C (In_file f) \<longleftrightarrow> fr_usable C f"

fun dyn_key :: "dyn_registry \<Rightarrow> signing_key" where
  "dyn_key (In_memory m) = mr_identity m"
| "dyn_key (In_file f) = mr_identity (fr_memory f)"

fun dyn_did :: "dyn_registry \<Rightarrow> string" where
  "dyn_did (In_memory m) = mr_did m"
| "dyn_did (In_file f) = mr_did (fr_memory f)"

lemma dyn_ops_simps:
  "reg_register (dyn_registry_ops X J C) s i r = dyn_lift (\<lambda>m. reg_register (memory_registry_ops X J) m i r)
     (\<lambda>f. reg_register (file_registry_ops X J C) f i r) s"
  "reg_get_attestation (dyn_registry_ops X J C) t s d = dyn_lift (\<lambda>m. reg_get_attestation (memory_registry_ops X J) t m d)
     (\<lambda>f. reg_get_attestation (file_registry_ops X J C) t f d) s"
  "reg_get_ring (dyn_registry_ops X J C) s d = dyn_lift (\<lambda>m. reg_get_ring (memory_registry_ops X J) m d)
     (\<lambda>f. reg_get_ring (file_registry_ops X J C) f d) s"
  "reg_is_registered (dyn_registry_ops X J C) s d = dyn_lift (\<lambda>m. reg_is_registered (memory_registry_ops X J) m d)
     (\<lambda>f. reg_is_registered (file_registry_ops X J C) f d) s"
  by (simp_all add: dyn_registry_ops_def Let_def)

interpretation dyn: agent_registry "dyn_registry_ops X J C" X J dyn_entries "dyn_usable C" dyn_key dyn_did
  for X J C
proof unfold_locales
  fix s i r
  assume "dyn_usable C s"
  then show "\<exists>s'. reg_register (dyn_registry_ops X J C) s i r = (Inr (), s') \<and> dyn_usable C s' \<and>
      dyn_entries s' = (dyn_entries s)(did_display (ai_did i) \<mapsto> (ai_public_key i, r))"
  proof (cases s)
    case (In_memory m)
    then obtain m' where "reg_register (memory_registry_ops X J) m i r = (Inr (), m')" "dyn_usable C (In_memory m')"
      "dyn_entries (In_memory m') = (dyn_entries s)(did_display (ai_did i) \<mapsto> (ai_public_key i, r))"
      using mr.register [where X = X and J = J, of m i r] \<open>dyn_usable C s\<close> by auto
    then show ?thesis using In_memory by (intro exI [of _ "In_memory m'"]) (simp add: dyn_ops_simps)
  next
    case (In_file f)
    then obtain f' where "reg_register (file_registry_ops X J C) f i r = (Inr (), f')" "dyn_usable C (In_file f')"
      "dyn_entries (In_file f') = (dyn_entries s)(did_display (ai_did i) \<mapsto> (ai_public_key i, r))"
      using fr.register [where C = C and X = X and J = J, of f i r] \<open>dyn_usable C s\<close> by auto
    then show ?thesis using In_file by (intro exI [of _ "In_file f'"]) (simp add: dyn_ops_simps)
  qed
next
  fix s s' i r res
  assume "reg_register (dyn_registry_ops X J C) s i r = (res, s')"
  then show "dyn_key s' = dyn_key s \<and> dyn_did s' = dyn_did s"
    by (cases s) (auto simp: dyn_ops_simps dest!: mr.register_key fr.register_key split: prod.splits)
next
  fix t s d assume "dyn_usable C s"
  then show "reg_get_attestation (dyn_registry_ops X J C) t s d =
      (Inr (map_option (\<lambda>e. issue_attestation X J (dyn_key s) (dyn_did s) t d (fst e)) (dyn_entries s d)), s)"
    by (cases s) (simp_all add: dyn_ops_simps mr.get_attestation fr.get_attestation)
next
  fix s d assume "dyn_usable C s"
  then show "reg_get_ring (dyn_registry_ops X J C) s d = (Inr (map_option snd (dyn_entries s d)), s)"
    by (cases s) (simp_all add: dyn_ops_simps mr.get_ring fr.get_ring)
next
  fix s d assume "dyn_usable C s"
  then show "reg_is_registered (dyn_registry_ops X J C) s d = (Inr (dyn_entries s d \<noteq> None), s)"
    by (cases s) (simp_all add: dyn_ops_simps mr.is_registered fr.is_registered)
qed

section \<open>A daemon with a key of its own\<close>

text \<open>
  What \<open>k\<close> signs verifies under no key the text \<open>pub\<close> stands for, in particular when it stands
  for none, as the default \<open>placeholder-replace-me\<close>.
\<close>

definition foreign_key :: "ext \<Rightarrow> signing_key \<Rightarrow> string \<Rightarrow> bool" where
  "foreign_key X k pub \<longleftrightarrow>
     (\<forall>pb v m. b64_decode X pub = Inr pb \<longrightarrow> vk_from_bytes X pb = Inr v \<longrightarrow> \<not> ed_verify X v m (ed_sign X k m))"

lemma foreign_attestation:
  assumes "crypto_ok X" "foreign_key X k pub"
  shows "\<not> signed_by X J pub (issue_attestation X J k rd t d pk)"
  using assms crypto_okD(1,3) [OF assms(1)]
  by (auto simp: foreign_key_def signed_by_def issue_attestation_def sa_canonical_bytes_def Let_def)

context agent_registry
begin

lemma foreign_not_authenticated:
  assumes "usable s" "crypto_ok X" "foreign_key X (rkey s) pub"
  shows "verify_request_signature X J R t did sig body pub s \<noteq> (Inr (), s')"
  using foreign_attestation [OF assms(2,3)] by (simp add: authenticated_iff [OF assms(1)] sa_verify_ok_iff)

lemma middleware_foreign:
  assumes "usable (ss_registry st)" "sv_ext sv = X" "sv_claims sv = J" "sv_registry sv = R" "crypto_ok X"
    and "foreign_key X (rkey (ss_registry st)) (ss_registry_pubkey st)"
    and "auth_middleware ax sv mo rq st = (resp, st')"
  shows "rs_status resp \<in> {BAD_REQUEST, UNAUTHORIZED} \<and> (\<exists>dm. st' = st\<lparr>ss_discovery_manager := dm\<rparr>)"
proof -
  obtain r st1 where a: "authenticate sv mo rq st = (r, st1)" by fastforce
  have "\<not> is_ok r"
    using a foreign_not_authenticated [OF assms(1,5,6)] assms(2-4)
    by (auto simp: authenticate_def Let_def split: option.splits sum.splits prod.splits)
  then obtain code msg where r: "r = Inl (code, msg)" by (cases r) auto
  with authenticate_refused [OF assms(1-4), of mo rq code msg st1] a assms(7) show ?thesis
    by (auto simp: auth_middleware_def into_response_def)
qed

lemma serve_foreign:
  assumes "usable (ss_registry st)" "sv_ext sv = X" "sv_claims sv = J" "sv_registry sv = R" "crypto_ok X"
    and "foreign_key X (rkey (ss_registry st)) (ss_registry_pubkey st)"
    and "serve ax sv rqs st = (resps, st')"
  shows "(\<forall>resp\<in>set resps. rs_status resp \<in> {BAD_REQUEST, UNAUTHORIZED}) \<and>
    (\<exists>dm. st' = st\<lparr>ss_discovery_manager := dm\<rparr>)"
  using assms(1,6,7)
proof (induction rqs arbitrary: st resps)
  case (Cons mr rqs)
  obtain mo rq where mr: "mr = (mo, rq)" by (cases mr)
  obtain resp st1 where 1: "auth_middleware ax sv mo rq st = (resp, st1)" by fastforce
  obtain resps2 where 2: "serve ax sv rqs st1 = (resps2, st')" "resps = resp # resps2"
    using Cons.prems(3) 1 mr by (auto split: prod.splits)
  obtain dm where dm: "rs_status resp \<in> {BAD_REQUEST, UNAUTHORIZED}" "st1 = st\<lparr>ss_discovery_manager := dm\<rparr>"
    using middleware_foreign [OF Cons.prems(1) assms(2-5) Cons.prems(2) 1] by auto
  with Cons.IH [OF _ _ 2(1)] Cons.prems(1,2) 2(2) show ?case by auto
qed auto

end

text \<open>The registry of a daemon the command starts: usable, with the key the command drew.\<close>

lemma fal_open_quiet: "script w = [] \<Longrightarrow> fal_open L path w = (r, w') \<Longrightarrow> script w' = []"
  by (auto simp: fal_open_def fs_defs fs_read_to_string_def Let_def
      split: sum.splits if_splits option.splits bool.splits prod.splits)

lemma open_registry_usable:
  assumes "script w = []" "\<forall>r. is_ok (rr_to_json (cx_registry E) r)"
    and "open_registry E env registry_log did w = (Inr s, w')"
  shows "dyn_usable (cx_registry E) s \<and> dyn_key s = generate_signing_key env"
  using assms
  by (auto simp: open_registry_def fr_open_def fr_usable_def mr_new_def fs_defs Let_def map_sum_eq_Inr
      split: option.splits sum.splits prod.splits if_splits)

lemma run_daemon_state:
  assumes "script (wo_fs w) = []" "\<forall>r. is_ok (rr_to_json (cx_registry E) r)"
    and "run_daemon E env opts w = (ls, Running_daemon st, w')"
  shows "dyn_usable (cx_registry E) (ss_registry st) \<and> dyn_key (ss_registry st) = generate_signing_key env \<and>
    ss_registry_pubkey st = unwrap_or ''placeholder-replace-me'' (ce_registry_pubkey env)"
proof -
  obtain al w1 s w2 m w3 where
    "fal_open (cx_log E) (unwrap_or ''action-log.jsonl'' (do_action_log opts)) (wo_fs w) = (Inr al, w1)"
    and o: "open_registry E env (do_registry_log opts) (unwrap_or ''did:mesh:registry'' (ce_registry_did env)) w1 = (Inr s, w2)"
    and st: "st = server_new (cx_ext E) s m al (do_siem_endpoint opts \<noteq> None \<and> do_siem_token opts \<noteq> None)
      (unwrap_or ''placeholder-replace-me'' (ce_registry_pubkey env))"
    using assms(3) by (auto simp: run_daemon_def Let_def split: if_splits sum.splits prod.splits)
  then have "script w1 = []" using fal_open_quiet assms(1) by blast
  from open_registry_usable [OF this assms(2) o] st show ?thesis by (simp add: server_new_def)
qed

section \<open>Approvals\<close>

text \<open>The daemon's gRPC services as the server the commands talk to.\<close>

definition server_cli_rpc ::
  "grpc_ext \<Rightarrow> ('r, 'k, 'p) services \<Rightarrow> moment \<Rightarrow> (grpc_status \<Rightarrow> string) \<Rightarrow> ('r, 'k, 'p) server_state cli_rpc" where
  "server_cli_rpc G sv mo say = \<lparr>cr_connect = \<lambda>_. Inr (), cr_request = grpc_request_escalation G sv mo,
     cr_approve = grpc_approve G sv mo, cr_deny = grpc_deny G sv mo, cr_list = grpc_list_pending G sv mo,
     cr_watch = (\<lambda>md since st. case grpc_watch_shadows G sv mo [] md since st of
        (r, st') \<Rightarrow> (map_sum id (\<lambda>alerts. (alerts, None)) r, st')),
     cr_status_text = say\<rparr>"

text \<open>What a key signs verifies as a signature of no other message.\<close>

definition sig_binds :: "ext \<Rightarrow> signing_key \<Rightarrow> bool" where
  "sig_binds X key \<longleftrightarrow> (\<forall>v m m'. vk_from_bytes X (public_bytes X key) = Inr v \<longrightarrow>
     ed_verify X v m' (ed_sign X key m) \<longrightarrow> m' = m)"

lemma decimal_two: "decimal 2 = ''2''"
  by (simp add: decimal_def upt_rec char_of_def bit_simps)

lemma cli_payload_differs: "approval_payload X i d r \<noteq> cli_approval_payload X i"
proof
  assume "approval_payload X i d r = cli_approval_payload X i"
  then have "'':'' @ d @ '':'' @ ring_display r = '':target-agent:'' @ ''2''"
    by (simp add: approval_payload_def cli_approval_payload_def decimal_two)
  then have "last ('':'' @ d @ '':'' @ ring_display r) = last ('':target-agent:'' @ ''2'')" by (rule arg_cong)
  then show False by (cases r) (simp_all add: ring_display_def)
qed

lemma cli_signature_invalid:
  assumes "crypto_ok X" "sig_binds X key"
  shows "\<not> verify_signature X (identity_stub (b64_encode X (public_bytes X key)))
    (approval_payload X i d r) (ed_sign X key (cli_approval_payload X i))"
  using assms cli_payload_differs [of X i d r] crypto_okD(1-3) [OF assms(1)]
  by (auto simp: verify_signature_def identity_stub_def sig_binds_def split: sum.splits)

text \<open>An enrolled agent with its key in the key directory, at a server that is the daemon.\<close>

definition cli_ready ::
  "(file_registry, 'k, 'p) services \<Rightarrow> moment \<Rightarrow> (grpc_status \<Rightarrow> string) \<Rightarrow> registry_codec \<Rightarrow>
     (file_registry, 'k, 'p) server_state cli_ext \<Rightarrow> cli_env \<Rightarrow> string \<Rightarrow> string \<Rightarrow> signing_key \<Rightarrow> privilege_ring \<Rightarrow>
     (file_registry, 'k, 'p) server_state world \<Rightarrow> bool" where
  "cli_ready sv mo say C E env did key_dir key ring w \<longleftrightarrow>
     cx_ext E = sv_ext sv \<and> cx_rpc E = server_cli_rpc (cx_grpc E) sv mo say \<and>
     enrolled C sv mo (wo_server w) did key ring \<and>
     fst (load_key E env did key_dir (wo_fs w)) = Inr key"

lemma cli_signed_call:
  assumes "cli_ready sv mo say C E env did key_dir key ring w" "sendable (sv_ext sv) did key (body key)"
    and "\<And>md. call key md (wo_server w) = with_grpc_auth sv mo md (body key) f (wo_server w)"
    and "f did (wo_server w) = (r, s')"
  shows "\<exists>fs'. with_client E env server did key_dir
      (\<lambda>k. signed_call E did (body k) (call k) k) w = (map_err say r, \<lparr>wo_fs = fs', wo_server = s'\<rparr>)"
proof -
  have e: "enrolled C sv mo (wo_server w) did key ring" and X: "cx_ext E = sv_ext sv"
    and rpc: "cx_rpc E = server_cli_rpc (cx_grpc E) sv mo say"
    and key: "fst (load_key E env did key_dir (wo_fs w)) = Inr key"
    using assms(1) by (simp_all add: cli_ready_def)
  have "crypto_ok (sv_ext sv)" using e by (simp add: enrolled_def)
  then obtain md where md: "signed_metadata (sv_ext sv) key did (body key) = Inr md"
    by (rule signed_metadata_extracted [OF _ assms(2)])
  obtain fs' where "load_key E env did key_dir (wo_fs w) = (Inr key, fs')" using key by (metis prod.collapse)
  then show ?thesis
    using md X rpc assms(3,4)
    by (intro exI [of _ fs']) (simp add: with_client_def with_key_def signed_call_def server_cli_rpc_def
        enrolled_call(2) [OF e assms(2) md])
qed

lemma escalate_approve_daemon:
  assumes "cli_ready sv mo say C E env did key_dir key ring w"
    and "uuid_parse (sv_ext sv) (uuid_str (sv_ext sv) i) = Some i"
    and "\<forall>body. sendable (sv_ext sv) did key body"
    and "em_approve (sv_ext sv) (sv_claims sv) (sv_event_json sv) (mo_approve mo) i did
        (ed_sign (sv_ext sv) key (cli_approval_payload (sv_ext sv) i))
        (\<lambda>d. fst (reg_get_ring (sv_registry sv) (ss_registry (wo_server w)) d))
        (\<lambda>d. fst (reg_get_attestation (sv_registry sv) (mo_attest mo) (ss_registry (wo_server w)) d))
        (ss_escalation_manager (wo_server w)) = (r, m')"
  shows "\<exists>fs'. escalate_approve E env server i did key_dir w =
    finish (\<lambda>event. [Out (''Escalation Approved: '' @ pev_outcome event)])
      (map_err say (map_err (Pair Failed_precondition) (map_sum id (to_proto_escalation_event (sv_ext sv)) r)),
       \<lparr>wo_fs = fs', wo_server = (wo_server w)\<lparr>ss_escalation_manager := m'\<rparr>\<rparr>)"
proof -
  let ?X = "sv_ext sv"
  let ?req = "\<lambda>k. \<lparr>pap_request_id = uuid_str ?X i, pap_approver_did = did,
      pap_signature_b64 = b64_encode ?X (ed_sign ?X k (cli_approval_payload ?X i))\<rparr>"
  have X: "cx_ext E = ?X" and rpc: "cx_rpc E = server_cli_rpc (cx_grpc E) sv mo say" and ok: "crypto_ok ?X"
    using assms(1) by (simp_all add: cli_ready_def enrolled_def)
  have "\<exists>fs'. with_client E env server did key_dir
      (\<lambda>k. signed_call E did (gx_enc_approve (cx_grpc E) (?req k)) (\<lambda>md. cr_approve (cx_rpc E) md (?req k)) k) w =
    (map_err say (map_err (Pair Failed_precondition) (map_sum id (to_proto_escalation_event ?X) r)),
     \<lparr>wo_fs = fs', wo_server = (wo_server w)\<lparr>ss_escalation_manager := m'\<rparr>\<rparr>)"
    by (rule cli_signed_call [OF assms(1)], use assms(3) in blast,
        simp add: rpc server_cli_rpc_def, subst grpc_approve_def, rule refl)
      (use assms(2,4) crypto_okD(1) [OF ok] in simp)
  then show ?thesis unfolding escalate_approve_def X Let_def by (elim exE) (simp only:, blast)
qed

text \<open>What the manager answers to such an approval.\<close>

lemma cli_approval_outcome:
  assumes "enrolled C sv mo st did key ring" "sig_binds (sv_ext sv) key"
    and "em_pending (ss_escalation_manager st) i = Some req"
    and "em_approve (sv_ext sv) (sv_claims sv) (sv_event_json sv) (mo_approve mo) i did
        (ed_sign (sv_ext sv) key (cli_approval_payload (sv_ext sv) i))
        (\<lambda>d. fst (reg_get_ring (sv_registry sv) (ss_registry st) d))
        (\<lambda>d. fst (reg_get_attestation (sv_registry sv) (mo_attest mo) (ss_registry st) d))
        (ss_escalation_manager st) = (r, m')"
  shows "r = Inr ev \<Longrightarrow> \<exists>cause. ee_outcome ev = EscalationDenied cause"
    and "ring = System \<Longrightarrow> em_registry_pubkey (ss_escalation_manager st) = ss_registry_pubkey st \<Longrightarrow>
      fst (mo_approve mo) \<le> dt_add (sv_ext sv) (snd (mo_attest mo)) (hours 24) \<Longrightarrow>
      \<exists>ev. r = Inr ev \<and> ee_outcome ev = EscalationDenied ''Approval signature invalid''"
proof -
  let ?X = "sv_ext sv" and ?pk = "b64_encode (sv_ext sv) (public_bytes (sv_ext sv) key)"
  let ?gr = "\<lambda>d. fst (reg_get_ring (sv_registry sv) (ss_registry st) d)"
  let ?ga = "\<lambda>d. fst (reg_get_attestation (sv_registry sv) (mo_attest mo) (ss_registry st) d)"
  let ?att = "issue_attestation ?X (sv_claims sv) (mr_identity (fr_memory (ss_registry st)))
      (mr_did (fr_memory (ss_registry st))) (mo_attest mo) did ?pk"
  have look: "?gr did = Inr (Some ring)" "?ga did = Inr (Some ?att)" and ok: "crypto_ok ?X"
    using assms(1) fr.get_ring [where C = C, of "ss_registry st" ?X "sv_claims sv" did]
      fr.get_attestation [where C = C, of "ss_registry st" ?X "sv_claims sv" "mo_attest mo" did]
    by (simp_all add: enrolled_def)
  note bad = cli_signature_invalid [OF ok assms(2)]
  show "\<exists>cause. ee_outcome ev = EscalationDenied cause" if "r = Inr ev"
    using approve_event [OF assms(4) [unfolded that]] bad look(2)
    by (cases "ee_outcome ev") (auto simp: may_approve_def)
  show "\<exists>ev. r = Inr ev \<and> ee_outcome ev = EscalationDenied ''Approval signature invalid''"
    if "ring = System" "em_registry_pubkey (ss_escalation_manager st) = ss_registry_pubkey st"
      "fst (mo_approve mo) \<le> dt_add ?X (snd (mo_attest mo)) (hours 24)"
  proof -
    have "sa_verify ?X (sv_claims sv) (fst (mo_approve mo)) ?att (em_registry_pubkey (ss_escalation_manager st)) = Inr ()"
      using that(2,3) assms(1) issued_signed_by [OF ok] by (simp add: sa_verify_ok_iff enrolled_def)
    then show ?thesis
      using assms(3,4) look that(1) bad [of i "er_agent_did req" "er_requested_ring req"]
      by (auto simp: em_approve_def create_denied_event_def Let_def)
  qed
qed

section \<open>Calls through a gateway\<close>

text \<open>A sequence of calls, each with the readings of the clock and the answer of the upstream.\<close>

fun proxy ::
  "gateway_codec \<Rightarrow> ('r, 'k, 'p) services \<Rightarrow> (gateway_moment \<times> headers \<times> bytes) list \<Rightarrow> ('r, 'k, 'p) gateway_state \<Rightarrow>
     gateway_result list \<times> ('r, 'k, 'p) gateway_state" where
  "proxy G sv [] g = ([], g)"
| "proxy G sv ((gm, h, body) # calls) g =
     (case mcp_proxy_handler G sv gm h body g of
        (r, g1) \<Rightarrow> (case proxy G sv calls g1 of (rs, g2) \<Rightarrow> (r # rs, g2)))"

context agent_registry
begin

lemma gateway_unregistered:
  assumes "usable (ss_registry (gs_server g))" "sv_ext sv = X" "sv_claims sv = J" "sv_registry sv = R"
    and "entries (ss_registry (gs_server g)) = Map.empty"
  shows "\<exists>code msg. mcp_proxy_handler G sv gm h body g = (Inl (code, msg), g) \<and> code \<in> {BAD_REQUEST, UNAUTHORIZED}"
  using unregistered_not_authenticated [OF assms(1)] assms(2-5)
  by (auto simp: mcp_proxy_handler_def split: option.splits sum.splits)

lemma proxy_unregistered:
  assumes "usable (ss_registry (gs_server g))" "sv_ext sv = X" "sv_claims sv = J" "sv_registry sv = R"
    and "entries (ss_registry (gs_server g)) = Map.empty" and "proxy G sv calls g = (rs, g')"
  shows "g' = g \<and> (\<forall>r\<in>set rs. \<exists>code msg. r = Inl (code, msg) \<and> code \<in> {BAD_REQUEST, UNAUTHORIZED})"
  using assms(6)
proof (induction calls arbitrary: rs)
  case (Cons c calls)
  obtain gm h body where c: "c = (gm, h, body)" by (cases c)
  obtain code msg where "mcp_proxy_handler G sv gm h body g = (Inl (code, msg), g)" "code \<in> {BAD_REQUEST, UNAUTHORIZED}"
    using gateway_unregistered [OF assms(1-5), of G gm h body] by blast
  with Cons c show ?case by (auto split: prod.splits)
qed simp

end

section \<open>A key in the key directory\<close>

text \<open>A key saved to a key directory without one is what the commands load from it.\<close>

lemma saved_key_is_loaded:
  assumes "sha_ok (cx_ext E)" "crypto_ok (cx_ext E)" "key_crypto_ok (cx_keys E)" "script w = []" "length k = 32"
    and "fks_new (cx_keys E) ex random key_dir (unwrap_or ''default-passphrase'' (ce_passphrase env)) w = (Inr s, w1)"
    and "files w (fks_get_path (cx_ext E) s did) = None"
  shows "\<exists>s1. fks_save_key (cx_ext E) (cx_keys E) s did k = (Inr (), s1) \<and>
    fst (load_key E env did key_dir (fks_fs s1)) = Inr k"
proof -
  note s = fks_new_eq [OF assms(4,6)]
  have f: "fks_fs s = w" "fks_base_dir s = key_dir"
    "kc_argon2 (cx_keys E) (unwrap_or ''default-passphrase'' (ce_passphrase env)) kek_salt = Inr (fks_kek s)"
    using s by (auto split: sum.splits)
  have "fks_usable (cx_ext E) (cx_keys E) {did} s"
    using assms(1-4,7) f(1) by (simp add: fks_usable_def)
  then obtain s1 where s1: "fks_save_key (cx_ext E) (cx_keys E) s did k = (Inr (), s1)"
    "fks_usable (cx_ext E) (cx_keys E) {did} s1" "fks_keys (cx_ext E) (cx_keys E) s1 did = Some k"
    using fks_save_usable [of _ _ "{did}" s did k] assms(5) by auto
  have kept: "fks_base_dir s1 = key_dir" "fks_kek s1 = fks_kek s"
    using s1(1) f(2) by (auto simp: fks_save_key_def fill_bytes_def Let_def split: sum.splits prod.splits)
  let ?s2 = "\<lparr>fks_base_dir = key_dir, fks_kek = fks_kek s, fks_fs = fks_fs s1, fks_random = ce_random env, fks_drawn = 0\<rparr>"
  have "script (fks_fs s1) = []" using s1(2) by (simp add: fks_usable_def)
  then have new: "fks_new (cx_keys E) (ce_dir_exists env) (ce_random env) key_dir
      (unwrap_or ''default-passphrase'' (ce_passphrase env)) (fks_fs s1) = (Inr ?s2, fks_fs s1)"
    using f(3) by (simp add: fks_new_def)
  have "fks_get_path X ?s2 = fks_get_path X s1" for X by (rule fks_get_path_dir) (simp add: kept)
  then have "fks_usable (cx_ext E) (cx_keys E) {did} ?s2" "fks_keys (cx_ext E) (cx_keys E) ?s2 did = Some k"
    using s1(2,3) kept by (simp_all add: fks_usable_def fks_keys_def cong: option.case_cong)
  then have "fks_load_key (cx_ext E) (cx_keys E) ?s2 did = (Some (Inr (Some k)), ?s2)"
    using fks_load_usable [of _ _ "{did}" ?s2 did] by simp
  then show ?thesis using s1(1) new by (simp add: load_key_def file_keystore_ops_def)
qed

section \<open>Sample surroundings with a daemon\<close>

text \<open>A System agent on record with its key in the key directory, and a request waiting.\<close>

definition hexu_ext :: ext where "hexu_ext = hex_ext\<lparr>uuid_parse := \<lambda>_. Some 7\<rparr>"

lemma hexu_facts:
  "crypto_ok hexu_ext" "sha_ok hexu_ext" "sendable hexu_ext ''did:mesh:s'' key body" "sig_binds hexu_ext key"
  "b64_encode hexu_ext = to_hex" "public_bytes hexu_ext = pad32" "dt_add hexu_ext = (+)" "uuid_parse hexu_ext u = Some 7"
proof -
  show "crypto_ok hexu_ext" "sha_ok hexu_ext"
    using hex_ext_facts by (simp_all add: hexu_ext_def crypto_ok_def sha_ok_def)
  show "sendable hexu_ext ''did:mesh:s'' key body"
    using hex_ext_sendable [of key body] by (simp add: sendable_def hexu_ext_def header_to_str_def byte_in_def)
  show "sig_binds hexu_ext key" by (simp add: sig_binds_def hexu_ext_def hex_ext_def toy_ext_def)
qed (simp_all add: hexu_ext_def hex_ext_def toy_ext_def)

definition cli_services :: "(file_registry, memory_key_store, file_policy_store) services" where
  "cli_services = hex_services\<lparr>sv_ext := hexu_ext, sv_registry := file_registry_ops hexu_ext ac_subject_did sample_codec\<rparr>"

definition cli_server :: "(file_registry, memory_key_store, file_policy_store) server_state" where
  "cli_server = hex_server\<lparr>ss_registry := sample_file_registry\<lparr>fr_memory := (mr_new ''rk'' ''did:mesh:registry'')
        \<lparr>mr_entries := [''did:mesh:s'' \<mapsto> (to_hex (pad32 (pad32 ''s'')), System)]\<rparr>\<rparr>,
     ss_escalation_manager := sample_manager\<lparr>em_pending := [7 \<mapsto> \<lparr>er_agent_did = ''did:mesh:b'',
        er_current_ring = Standard, er_requested_ring = Trusted, er_reason = [], er_timestamp = 0\<rparr>],
        em_registry_pubkey := to_hex (pad32 ''rk'')\<rparr>\<rparr>"

abbreviation daemon_cli :: "(file_registry, memory_key_store, file_policy_store) server_state cli_ext" where
  "daemon_cli \<equiv> sample_cli hexu_ext (server_cli_rpc sample_grpc_ext cli_services sample_moment (\<lambda>_. []))"

lemma sample_cli_ready:
  obtains fs' where "cli_ready cli_services sample_moment (\<lambda>_. []) sample_codec daemon_cli sample_env ''did:mesh:s'' ''keys''
    (pad32 ''s'') System \<lparr>wo_fs = fs', wo_server = cli_server\<rparr>"
proof -
  have e: "enrolled sample_codec cli_services sample_moment cli_server ''did:mesh:s'' (pad32 ''s'') System"
    by (simp add: enrolled_def cli_services_def hexu_facts cli_server_def hex_server_def hex_services_def
        sample_file_registry_def mr_new_def fr_usable_def sample_codec_def sample_moment_def)
  have ok: "sha_ok (cx_ext daemon_cli)" "crypto_ok (cx_ext daemon_cli)" "key_crypto_ok (cx_keys daemon_cli)"
    "script empty_fs = []" "\<And>p. files empty_fs p = None"
    using hexu_facts(1,2) key_crypto_ok_sample by (simp_all add: sample_cli_def empty_fs_def)
  obtain s w1 where new: "fks_new (cx_keys daemon_cli) True (\<lambda>_. CHR ''0'') ''keys''
      (unwrap_or ''default-passphrase'' (ce_passphrase sample_env)) empty_fs = (Inr s, w1)"
    by (simp add: fks_new_def sample_cli_def sample_key_crypto_def sample_env_def empty_fs_def)
  obtain s1 :: file_key_store where "fst (load_key daemon_cli sample_env ''did:mesh:s'' ''keys'' (fks_fs s1)) = Inr (pad32 ''s'')"
    using saved_key_is_loaded [OF ok(1-4) length_pad32 new ok(5), of "''did:mesh:s''" "''s''"] by blast
  with e show thesis
    by (intro that [of "fks_fs s1"]) (simp add: cli_ready_def, simp add: sample_cli_def cli_services_def)
qed

definition plain_start :: daemon_options where
  "plain_start = \<lparr>do_audit_log = None, do_action_log = None, do_registry_log = None, do_siem_endpoint = None,
     do_siem_token = None, do_init = False\<rparr>"

definition dyn_services :: "(dyn_registry, memory_key_store, memory_policy_store) services" where
  "dyn_services = sample_services toy_ext (dyn_registry_ops toy_ext ac_subject_did sample_codec)"

section \<open>Properties\<close>

text \<open>
  C40: a daemon started from the command line draws a fresh key for its registry, but checks
  attestations against the public key of the environment. Unless that is the public key of
  the key it drew, it authenticates nobody: any sequence of requests is refused with 400 or
  401, also those of agents that a registry file has on record, and nothing but the discovery
  records changes.
\<close>

theorem started_daemon_authenticates_nobody:
  assumes "cli_main E env (Start_daemon opts) w = (ls, Running_daemon st, w')"
    and "script (wo_fs w) = []" and "\<forall>r. is_ok (rr_to_json (cx_registry E) r)"
    and "crypto_ok (sv_ext sv)"
    and "sv_registry sv = dyn_registry_ops (sv_ext sv) (sv_claims sv) (cx_registry E)"
    and "foreign_key (sv_ext sv) (generate_signing_key env)
      (unwrap_or ''placeholder-replace-me'' (ce_registry_pubkey env))"
    and "serve ax sv rqs st = (resps, st')"
  shows "(\<forall>resp\<in>set resps. rs_status resp \<in> {BAD_REQUEST, UNAUTHORIZED}) \<and>
    (\<exists>dm. st' = st\<lparr>ss_discovery_manager := dm\<rparr>)"
proof -
  have "run_daemon E env opts w = (ls, Running_daemon st, w')" using assms(1) by simp
  from run_daemon_state [OF assms(2,3) this]
  show ?thesis
    by (intro dyn.serve_foreign [OF _ refl refl assms(5,4) _ assms(7)]) (simp_all add: assms(6))
qed

theorem started_daemon_authenticates_nobody_witness:
  "\<exists>st resp st'. fst (snd (cli_main (sample_cli toy_ext no_rpc) sample_env (Start_daemon plain_start) empty_world)) =
      Running_daemon st \<and>
    serve any_axum dyn_services [(sample_moment, register_request_of ''did:mesh:a'' ''sig'')] st = ([resp], st') \<and>
    rs_status resp \<in> {BAD_REQUEST, UNAUTHORIZED}"
proof -
  obtain ls st w' where run: "cli_main (sample_cli toy_ext no_rpc) sample_env (Start_daemon plain_start) empty_world =
      (ls, Running_daemon st, w')"
    by (simp add: run_daemon_def plain_start_def sample_env_def empty_world_def empty_fs_def sample_cli_def Let_def
        fal_open_def fs_defs open_registry_def em_new_def)
  obtain resp st' where "auth_middleware any_axum dyn_services sample_moment (register_request_of ''did:mesh:a'' ''sig'') st
      = (resp, st')" by fastforce
  then have s: "serve any_axum dyn_services [(sample_moment, register_request_of ''did:mesh:a'' ''sig'')] st = ([resp], st')"
    by simp
  have "length ''placeholder-replace-me'' \<noteq> length (pad32 k)" for k by (simp add: length_pad32)
  then have "''placeholder-replace-me'' \<noteq> pad32 k" "pad32 k \<noteq> ''placeholder-replace-me''" for k by metis+
  then have key: "foreign_key toy_ext k ''placeholder-replace-me''" for k
    by (simp add: foreign_key_def toy_ext_def)
  have "rs_status resp \<in> {BAD_REQUEST, UNAUTHORIZED}"
    using started_daemon_authenticates_nobody [OF run _ _ _ _ _ s] key
    by (simp add: empty_world_def empty_fs_def sample_cli_def sample_codec_def dyn_services_def sample_services_def
        sample_env_def)
  with run s show ?thesis by (intro exI conjI) (simp only: fst_conv snd_conv, assumption+)
qed

text \<open>
  A gateway started from the command line keeps its agents in memory, where nothing ever
  registers one: it refuses every call with 400 or 401 and forwards, limits and records
  nothing.
\<close>

theorem started_gateway_forwards_nothing:
  assumes "cli_main E env (Start_gateway listen upstream action_log) w = (ls, Running_gateway g, w')"
    and "sv_registry sv = dyn_registry_ops (sv_ext sv) (sv_claims sv) C"
    and "proxy G sv calls g = (rs, g')"
  shows "g' = g \<and> gs_forwarded g' = [] \<and>
    (\<forall>r\<in>set rs. \<exists>code msg. r = Inl (code, msg) \<and> code \<in> {BAD_REQUEST, UNAUTHORIZED})"
proof -
  have g: "dyn_usable C (ss_registry (gs_server g))" "dyn_entries (ss_registry (gs_server g)) = Map.empty" "gs_forwarded g = []"
    using assms(1)
    by (auto simp: start_gateway_def gateway_new_def server_new_def mr_new_def Let_def split: sum.splits prod.splits)
  from dyn.proxy_unregistered [OF g(1) refl refl assms(2) g(2) assms(3)] g(3) show ?thesis by simp
qed

theorem started_gateway_forwards_nothing_witness:
  "\<exists>g r. fst (snd (cli_main (sample_cli toy_ext no_rpc) sample_env (Start_gateway ''l'' ''u'' None) empty_world)) =
      Running_gateway g \<and>
    proxy sample_gateway_codec dyn_services [(sample_gateway_moment (Inl ''no''), sample_headers ''did:mesh:a'' ''sig'', ''x'')] g = ([r], g) \<and>
    \<not> is_ok r"
proof -
  obtain ls g w' where run: "cli_main (sample_cli toy_ext no_rpc) sample_env (Start_gateway ''l'' ''u'' None) empty_world =
      (ls, Running_gateway g, w')"
    by (simp add: start_gateway_def sample_env_def empty_world_def empty_fs_def sample_cli_def Let_def
        fal_open_def fs_defs em_new_def)
  let ?calls = "[(sample_gateway_moment (Inl ''no''), sample_headers ''did:mesh:a'' ''sig'', ''x'')]"
  obtain r g' where "mcp_proxy_handler sample_gateway_codec dyn_services (sample_gateway_moment (Inl ''no''))
      (sample_headers ''did:mesh:a'' ''sig'') ''x'' g = (r, g')" by fastforce
  then have p: "proxy sample_gateway_codec dyn_services ?calls g = ([r], g')" by simp
  have "g' = g \<and> \<not> is_ok r"
    using started_gateway_forwards_nothing [OF run _ p, of sample_codec]
    by (auto simp: dyn_services_def sample_services_def)
  with run p show ?thesis by (intro exI conjI) (simp only: fst_conv snd_conv, auto)
qed

text \<open>
  \<open>agt escalate request\<close>, run by any agent on record, leaves a pending request of that agent at
  the daemon, for the ring asked for and with its reason and the time of the call, and prints
  the id it is pending under. The ring it claims to hold is always Standard, whatever the
  agent's ring on record.
\<close>

theorem cli_request_is_pending:
  assumes "cli_ready sv mo say C E env did key_dir key ring w"
    and "\<forall>body. sendable (sv_ext sv) did key body"
    and "timestamp_opt_ok (gx_timestamp_opt (cx_grpc E)) D" and "ce_now env \<in> D"
  shows "\<exists>w'. cli_main E env (Escalate (Request server did to_ring reason key_dir)) w =
      ([Out (''Escalation requested. Request ID: '' @ uuid_str (sv_ext sv) (mo_uuid mo))], Success, w') \<and>
    em_pending (ss_escalation_manager (wo_server w')) = (em_pending (ss_escalation_manager (wo_server w)))
      (mo_uuid mo \<mapsto> \<lparr>er_agent_did = did, er_current_ring = Standard, er_requested_ring = to_ring,
         er_reason = reason, er_timestamp = ce_now env\<rparr>)"
proof -
  let ?X = "sv_ext sv" and ?G = "cx_grpc E" and ?st = "wo_server w"
  let ?d = "\<lparr>er_agent_did = did, er_current_ring = Standard, er_requested_ring = to_ring, er_reason = reason,
      er_timestamp = ce_now env\<rparr>"
  let ?req = "\<lparr>per_agent_did = did, per_current_ring = cli_to_proto_ring Standard,
            per_requested_ring = cli_to_proto_ring to_ring, per_reason = reason,
            per_timestamp = Some (cli_to_proto_timestamp (ce_now env))\<rparr>"
  have X: "cx_ext E = ?X" and rpc: "cx_rpc E = server_cli_rpc ?G sv mo say"
    using assms(1) by (simp_all add: cli_ready_def)
  have ring: "cli_to_proto_ring r = to_proto_ring r" for r by (cases r) simp_all
  have req: "?req = to_proto_escalation_request ?d"
    by (simp add: to_proto_escalation_request_def ring cli_to_proto_timestamp_def to_proto_timestamp_def)
  have parsed: "from_proto_escalation_request (gx_timestamp_opt ?G) ?req = Inr ?d"
    unfolding req by (simp add: from_proto_escalation_request_def to_proto_escalation_request_def
        from_proto_ring_def ring_roundtrip timestamp_roundtrip [OF assms(3,4)], cases to_ring; simp add: from_proto_ring_def)
  have "\<exists>fs'. with_client E env server did key_dir
      (\<lambda>k. signed_call E did (gx_enc_escalation ?G ?req) (\<lambda>md. cr_request (cx_rpc E) md ?req) k) w =
    (map_err say (Inr (uuid_str ?X (mo_uuid mo))), \<lparr>wo_fs = fs',
       wo_server = ?st\<lparr>ss_escalation_manager := snd (request_escalation (mo_uuid mo) ?d (ss_escalation_manager ?st))\<rparr>\<rparr>)"
    by (rule cli_signed_call [OF assms(1)], use assms(2) in blast,
        simp only: rpc server_cli_rpc_def cli_rpc.select_convs, subst grpc_request_escalation_def, rule refl)
      (simp only: parsed sum.case request_escalation_def prod.case snd_conv)
  then show ?thesis
    by (auto simp: escalate_request_def X Let_def request_escalation_def)
qed

theorem cli_request_is_pending_witness:
  "\<exists>fs' w'. fst (cli_main daemon_cli sample_env
        (Escalate (Request ''http'' ''did:mesh:s'' Trusted ''why'' ''keys'')) \<lparr>wo_fs = fs', wo_server = cli_server\<rparr>) =
      [Out (''Escalation requested. Request ID: '' @ uuid_str hexu_ext (mo_uuid sample_moment))]"
proof -
  obtain fs' where ready: "cli_ready cli_services sample_moment (\<lambda>_. []) sample_codec daemon_cli sample_env
      ''did:mesh:s'' ''keys'' (pad32 ''s'') System \<lparr>wo_fs = fs', wo_server = cli_server\<rparr>"
    by (rule sample_cli_ready)
  have X: "sv_ext cli_services = hexu_ext" by (simp add: cli_services_def)
  have G: "timestamp_opt_ok (gx_timestamp_opt (cx_grpc daemon_cli)) UNIV"
    by (simp add: sample_cli_def sample_grpc_ext_def chrono_seconds_ok)
  show ?thesis
    using cli_request_is_pending [OF ready _ G, unfolded X, of "''http''" Trusted "''why''"] hexu_facts(3)
    by (intro exI [of _ fs']) auto
qed

text \<open>
  C39: \<open>agt escalate approve\<close> never gets an approval accepted: what it signs is not what the daemon
  checks. Run by any agent on record, of whatever ring, for any pending request, it uses the
  request up without an approval; run by a System agent, with nothing else in the way, it
  prints "Escalation Approved: Denied: Approval signature invalid" and ends successfully.
\<close>

theorem cli_approval_never_accepted:
  assumes "cli_ready sv mo say C E env did key_dir key ring w"
    and "em_pending (ss_escalation_manager (wo_server w)) i = Some req"
    and "uuid_parse (sv_ext sv) (uuid_str (sv_ext sv) i) = Some i"
    and "\<forall>body. sendable (sv_ext sv) did key body" and "sig_binds (sv_ext sv) key"
    and "cli_main E env (Escalate (Approve server i did key_dir)) w = (ls, e, w')"
  shows "em_pending (ss_escalation_manager (wo_server w')) =
      (em_pending (ss_escalation_manager (wo_server w)))(i := None) \<and>
    ((\<exists>cause. ls = [Out (''Escalation Approved: Denied: '' @ cause)] \<and> e = Success) \<or>
     (\<exists>msg. ls = [] \<and> e = Failure msg)) \<and>
    (ring = System \<and> em_registry_pubkey (ss_escalation_manager (wo_server w)) = ss_registry_pubkey (wo_server w) \<and>
     fst (mo_approve mo) \<le> dt_add (sv_ext sv) (snd (mo_attest mo)) (hours 24) \<longrightarrow>
       ls = [Out ''Escalation Approved: Denied: Approval signature invalid''] \<and> e = Success)"
proof -
  have en: "enrolled C sv mo (wo_server w) did key ring" using assms(1) by (simp add: cli_ready_def)
  obtain r m' where a: "em_approve (sv_ext sv) (sv_claims sv) (sv_event_json sv) (mo_approve mo) i did
      (ed_sign (sv_ext sv) key (cli_approval_payload (sv_ext sv) i))
      (\<lambda>d. fst (reg_get_ring (sv_registry sv) (ss_registry (wo_server w)) d))
      (\<lambda>d. fst (reg_get_attestation (sv_registry sv) (mo_attest mo) (ss_registry (wo_server w)) d))
      (ss_escalation_manager (wo_server w)) = (r, m')"
    by fastforce
  note outcome = cli_approval_outcome [OF en assms(5,2) a]
  obtain fs' where "(ls, e, w') = finish (\<lambda>event. [Out (''Escalation Approved: '' @ pev_outcome event)])
      (map_err say (map_err (Pair Failed_precondition) (map_sum id (to_proto_escalation_event (sv_ext sv)) r)),
       \<lparr>wo_fs = fs', wo_server = (wo_server w)\<lparr>ss_escalation_manager := m'\<rparr>\<rparr>)"
    using escalate_approve_daemon [OF assms(1,3,4) a, of server] assms(6) by auto
  then show ?thesis
    using approve_pending [OF a] outcome
    by (cases r) (fastforce simp: to_proto_escalation_event_def)+
qed

theorem cli_approval_never_accepted_witness:
  "\<exists>fs' ls e w'. cli_main daemon_cli sample_env (Escalate (Approve ''http'' 7 ''did:mesh:s'' ''keys''))
      \<lparr>wo_fs = fs', wo_server = cli_server\<rparr> = (ls, e, w') \<and>
    em_pending (ss_escalation_manager cli_server) 7 \<noteq> None \<and>
    em_pending (ss_escalation_manager (wo_server w')) 7 = None \<and>
    ls = [Out ''Escalation Approved: Denied: Approval signature invalid''] \<and> e = Success"
proof -
  obtain fs' where ready: "cli_ready cli_services sample_moment (\<lambda>_. []) sample_codec daemon_cli sample_env
      ''did:mesh:s'' ''keys'' (pad32 ''s'') System \<lparr>wo_fs = fs', wo_server = cli_server\<rparr>"
    by (rule sample_cli_ready)
  obtain ls e w' where run: "cli_main daemon_cli sample_env (Escalate (Approve ''http'' 7 ''did:mesh:s'' ''keys''))
      \<lparr>wo_fs = fs', wo_server = cli_server\<rparr> = (ls, e, w')"
    by (cases "cli_main daemon_cli sample_env (Escalate (Approve ''http'' 7 ''did:mesh:s'' ''keys''))
      \<lparr>wo_fs = fs', wo_server = cli_server\<rparr>") blast
  have pend: "em_pending (ss_escalation_manager cli_server) 7 =
      Some \<lparr>er_agent_did = ''did:mesh:b'', er_current_ring = Standard, er_requested_ring = Trusted,
        er_reason = [], er_timestamp = 0\<rparr>"
    and key: "em_registry_pubkey (ss_escalation_manager cli_server) = ss_registry_pubkey cli_server"
    by (simp_all add: cli_server_def hex_server_def)
  have X: "sv_ext cli_services = hexu_ext" by (simp add: cli_services_def)
  have "em_pending (ss_escalation_manager (wo_server w')) 7 = None \<and>
      ls = [Out ''Escalation Approved: Denied: Approval signature invalid''] \<and> e = Success"
    using cli_approval_never_accepted [OF ready _ _ _ _ run, unfolded X] pend key
    by (simp add: hexu_facts sample_moment_def)
  with run pend show ?thesis by blast
qed

end
