(* ===== verification/Spec2Isabelle.thy ===== *)
theory Spec2Isabelle
  imports Circuit_Breaker Gateway Credentials Risk Namespaces Os_Kernel Lifecycle Transport
    Remote_Http Remote_Policy Keystore_File Siem Escalation_Interleaving Daemon_Interleaving
    Daemon_Samples Cli_Safety
begin

text \<open>
  A model of the agent governance toolkit (the crates under \<open>src/crates\<close>) and the theorems
  that make it correct.

  \<^bold>\<open>The program.\<close> Agents have identities (a DID and an Ed25519 key pair) and a privilege ring.
  A registry keeps, per DID, the public key and the ring, and attests the key with a signature
  of its own. A daemon serves the registry, key and policy stores, escalations and discovery
  over HTTP and gRPC; every request carries the sender's DID and its signature over the body,
  which is checked against the attested key. A gateway governs the tool calls agents send to
  an MCP server: rate limit, policy, compliance, forwarding, log. All actions go to a log whose
  records are chained by hashes. A command line starts the daemon and the gateway and calls
  the daemon.

  \<^bold>\<open>Theories and the code they model.\<close>

  \<^item> \<open>Prelude_AGT\<close>: results, strings, maps, clocks. \<open>Externals\<close>: third-party code as the record
    \<open>ext\<close> with its documented behaviour (\<open>crypto_ok\<close>, \<open>sha_ok\<close>, \<open>uuid_ok\<close>) and an instance.
    \<open>Filesystem\<close>, \<open>Hashed_Files\<close>: files with failing system calls, buffered writes, lines, the
    replacement of a file through a temporary one. \<open>Json\<close>: JSON values.
  \<^item> \<open>Privilege\<close>: \<open>PrivilegeRing\<close>, \<open>DataCategory\<close>, \<open>rings/enforcer.rs\<close>. \<open>Keystore\<close> and
    \<open>Keystore_File\<close>: \<open>identity/keystore.rs\<close>. \<open>Identity\<close>: \<open>agent_id.rs\<close>, \<open>rotation.rs\<close>,
    \<open>delegation.rs\<close>. \<open>Attestation\<close>, \<open>Registry\<close>: \<open>attestation.rs\<close>, \<open>registry.rs\<close>. \<open>Credentials\<close>,
    \<open>Risk\<close>: \<open>credentials.rs\<close>, \<open>risk.rs\<close>.
  \<^item> \<open>Action_Log\<close>, \<open>Compliance\<close>: \<open>audit.rs\<close> and \<open>ext/compliance\<close>. \<open>Escalation\<close>:
    \<open>identity/escalation.rs\<close>, \<open>rings/escalation.rs\<close>. \<open>Policy_Store\<close>, \<open>Mcp_Governance\<close>:
    \<open>ext/mcp-governance\<close>. \<open>Discovery\<close>: \<open>ext/discovery\<close>. \<open>Circuit_Breaker\<close>: \<open>core/sre\<close>.
    \<open>Namespaces\<close>, \<open>Lifecycle\<close>, \<open>Transport\<close>: \<open>governance\<close>, \<open>lifecycle\<close>, \<open>transport\<close> and
    \<open>identity/mtls.rs\<close> of the mesh, and the stub of the saga orchestrator. \<open>Os_Kernel\<close>: \<open>core/os\<close>.
  \<^item> \<open>Daemon_Auth\<close>, \<open>Daemon\<close>, \<open>Daemon_Safety\<close>: \<open>daemon/src/grpc/auth.rs\<close>, \<open>daemon/src/lib.rs\<close> and
    what holds of a server and of sequences of requests. \<open>Escalation_Interleaving\<close>,
    \<open>Daemon_Interleaving\<close>: approvals, denials and executed actions that run at the same time. \<open>Gateway\<close>: \<open>daemon/src/gateway.rs\<close>.
    \<open>Grpc_Convert\<close>, \<open>Grpc\<close>, \<open>Grpc_Safety\<close>: \<open>daemon/src/grpc\<close>.
  \<^item> \<open>Daemon_System\<close>: \<open>AgentServer::run\<close>, the HTTP server, the gRPC services and the worker over one
    state. \<open>Daemon_Runs\<close>, \<open>Daemon_Escalations\<close>: what holds in every run of it; \<open>Daemon_Samples\<close>: a
    concrete daemon and runs of it.
  \<^item> \<open>Remote_Http\<close>, \<open>Remote_Policy\<close>: the clients \<open>registry_http.rs\<close>, \<open>keystore_http.rs\<close> and the
    HTTP and gRPC policy stores, with the daemon at the other end. \<open>Siem\<close>: the
    exporter of \<open>ext/compliance\<close>. \<open>Cli\<close>, \<open>Cli_Runs\<close>, \<open>Cli_Safety\<close>: \<open>cli/src/main.rs\<close>, alone and
    with the daemon at the other end.

  \<^bold>\<open>How state and operations are modelled.\<close> A struct is a record with a prefix of its own, a
  method is a function that takes the state and returns its result and the new state; an error
  is \<open>Inl\<close> of its text, as \<open>Result\<close> in the code. Locks are modelled by their poisoning where the
  code asks for it. Clock readings, random bytes, fresh UUIDs and the iteration order of hash
  maps are arguments. Integers are words of their width, timestamps nanoseconds. Trait objects
  are records of operations; the traits' contracts are the locales \<open>key_store\<close>, \<open>agent_registry\<close>,
  \<open>policy_table\<close> with \<open>policy_store\<close>, \<open>compliance_law\<close> and \<open>state_backend\<close>, and each
  implementation interprets its locale. The broadcast channel is a parameter with its documented
  behaviour. Requests are served one after the other, except for
  approvals, denials and executed actions: there each operation is also cut into the steps
  between which it holds no lock, with the whole as their composition, and step relations
  interleave them. A line is taken to reach the log with one write, as it does below the 8 KiB
  of the writer's buffer.

  \<^bold>\<open>What the lemmas show.\<close> Each component: its invariant, what every operation answers on every
  branch, round trips through files. The daemon: who is let in and that nobody else changes
  anything, what an executed action leaves in the log, that a writer of financial records
  cannot read the audit log for a day. In every run, over both interfaces, the log accounts for
  every executed action and every Shadow event the worker received, forged requests gain
  nothing, and the runs of the escalation manager are refined; a burst of requests from unknown
  senders silences the worker for good. Registering and listing do the same over both interfaces,
  approving and saving policies work over gRPC only. Escalations are decided at most once and an approval
  only raises privilege, and the log's chain stays intact, also when requests overlap; the
  separation of writers and readers of the audit log does not survive that. The gateway forwards exactly what its checks allow, and spaces calls.
  Remote stores refine the daemon's stores. A daemon started from the command line lets nobody
  in, and the command line cannot approve an escalation. Where the code falls short of what it promises,
  the theorem states what the code does.

  \<^bold>\<open>Bounds and fuel.\<close> No definition takes fuel: every loop of the code runs over a list or a
  map, and a run of the daemon over the list of its tasks. \<open>risk.rs\<close>'s floating-point numbers are rational numbers with rounding to 53 bits.

  \<^bold>\<open>Not modelled.\<close> Sockets, TLS and the scheduling of tasks; the JSON and protobuf encodings
  (parameters with their round trip as hypothesis); the parsing of command lines; build scripts
  and generated code.
\<close>

end
